(* ===== verification/RMS_Prelude.thy ===== *)
theory RMS_Prelude
  imports Complex_Main "HOL-Library.AList" "HOL-Library.Multiset" "HOL-Library.Char_ord" "HOL-Library.List_Lexorder"
begin

text \<open>
  Vocabulary shared by the component theories: results that carry either an exception or a
  value, insertion-ordered dictionaries as association lists (assignment to an existing key
  keeps its position, as in Python), the string operations the sources use, and the lemmas on
  them. Strings are lists of UTF-8 code units; their lexicographic order is the order of
  Python's code point comparison.
\<close>

named_theorems rms_splits \<open>case rules for results and options met in the sources\<close>
named_theorems dict_simps \<open>lookups in insertion-ordered dictionaries\<close>

type_synonym ('k, 'v) dict = "('k \<times> 'v) list"

subsection \<open>Results: an exception or a value\<close>

definition bind_res :: "'e + 'a \<Rightarrow> ('a \<Rightarrow> 'e + 'b) \<Rightarrow> 'e + 'b" where
  "bind_res r f = (case r of Inl e \<Rightarrow> Inl e | Inr a \<Rightarrow> f a)"

definition guard_res :: "bool \<Rightarrow> 'e \<Rightarrow> 'e + unit" where
  "guard_res bad e = (if bad then Inl e else Inr ())"

fun map_res :: "('a \<Rightarrow> 'e + 'b) \<Rightarrow> 'a list \<Rightarrow> 'e + 'b list" where
  "map_res f [] = Inr []"
| "map_res f (x # xs) =
     (case f x of Inl e \<Rightarrow> Inl e
      | Inr y \<Rightarrow> (case map_res f xs of Inl e \<Rightarrow> Inl e | Inr ys \<Rightarrow> Inr (y # ys)))"

fun filter_res :: "('a \<Rightarrow> 'e + bool) \<Rightarrow> 'a list \<Rightarrow> 'e + 'a list" where
  "filter_res f [] = Inr []"
| "filter_res f (x # xs) =
     (case f x of Inl e \<Rightarrow> Inl e
      | Inr keep \<Rightarrow>
          (case filter_res f xs of Inl e \<Rightarrow> Inl e
           | Inr ys \<Rightarrow> Inr (if keep then x # ys else ys)))"

subsection \<open>Insertion-ordered dictionaries\<close>

definition dict_get :: "('k, 'v) dict \<Rightarrow> 'k \<Rightarrow> 'v \<Rightarrow> 'v" where
  "dict_get d k v = (case map_of d k of None \<Rightarrow> v | Some w \<Rightarrow> w)"

definition dict_of :: "('a \<Rightarrow> 'k) \<Rightarrow> ('a \<Rightarrow> 'v) \<Rightarrow> ('k, 'v) dict \<Rightarrow> 'a list \<Rightarrow> ('k, 'v) dict" where
  "dict_of key val d xs = foldl (\<lambda>d x. AList.update (key x) (val x) d) d xs"

text \<open>\<open>d[k].append(v)\<close> on a dictionary of lists.\<close>

definition dict_append :: "('k, 'v list) dict \<Rightarrow> 'k \<Rightarrow> 'v \<Rightarrow> ('k, 'v list) dict" where
  "dict_append d k v = AList.map_entry k (\<lambda>vs. vs @ [v]) d"

text \<open>The last entry of a list under a key: what a loop of assignments leaves there.\<close>

definition last_with :: "('a \<Rightarrow> 'k) \<Rightarrow> 'k \<Rightarrow> 'a list \<Rightarrow> 'a option" where
  "last_with key k xs = find (\<lambda>x. key x = k) (rev xs)"

text \<open>The value of the last list element that declares one.\<close>

fun winner :: "('d \<Rightarrow> 'v option) \<Rightarrow> 'd list \<Rightarrow> 'v option" where
  "winner f [] = None"
| "winner f (p # ps) = (case winner f ps of None \<Rightarrow> f p | Some v \<Rightarrow> Some v)"

subsection \<open>Strings\<close>

text \<open>\<open>s.partition(sep)\<close> for a one-character separator.\<close>

definition str_partition :: "char \<Rightarrow> string \<Rightarrow> string \<times> string \<times> string" where
  "str_partition c s =
     (if c \<in> set s then (takeWhile (\<lambda>x. x \<noteq> c) s, [c], tl (dropWhile (\<lambda>x. x \<noteq> c) s))
      else (s, [], []))"

subsection \<open>Lemmas on results\<close>

lemma bind_res_simps [simp]:
  "bind_res (Inl e) f = Inl e"
  "bind_res (Inr a) f = f a"
  by (simp_all add: bind_res_def)

lemma bind_res_eq_Inr:
  "bind_res r f = Inr b \<longleftrightarrow> (\<exists>a. r = Inr a \<and> f a = Inr b)"
  by (cases r) auto

lemma guard_res_simps [simp]:
  "guard_res True e = Inl e"
  "guard_res False e = Inr ()"
  by (simp_all add: guard_res_def)

lemma bind_guard_res [simp]:
  "bind_res (guard_res b e) f = (if b then Inl e else f ())"
  by (simp add: guard_res_def)

lemma map_res_Inr [simp]:
  "(\<And>x. x \<in> set xs \<Longrightarrow> f x = Inr (g x)) \<Longrightarrow> map_res f xs = Inr (map g xs)"
  by (induction xs) auto

lemma filter_res_Inr:
  "(\<And>x. x \<in> set xs \<Longrightarrow> f x = Inr (P x)) \<Longrightarrow> filter_res f xs = Inr (filter P xs)"
  by (induction xs) auto

subsection \<open>Lemmas on dictionaries\<close>

lemma dict_of_Nil [simp]: "dict_of key val d [] = d"
  by (simp add: dict_of_def)

lemma dict_of_snoc [simp]:
  "dict_of key val d (xs @ [x]) = AList.update (key x) (val x) (dict_of key val d xs)"
  by (simp add: dict_of_def)

lemma last_with_Nil [simp]: "last_with key k [] = None"
  by (simp add: last_with_def)

lemma last_with_snoc [simp]:
  "last_with key k (xs @ [x]) = (if key x = k then Some x else last_with key k xs)"
  by (simp add: last_with_def)

lemma map_of_dict_of [dict_simps]:
  "map_of (dict_of key val d xs) k =
     (case last_with key k xs of None \<Rightarrow> map_of d k | Some x \<Rightarrow> Some (val x))"
  by (induction xs rule: rev_induct) (auto simp: update_conv)

lemma update_fresh: "k \<notin> fst ` set al \<Longrightarrow> AList.update k v al = al @ [(k, v)]"
  by (induction al) auto

lemma distinct_dict_of:
  "distinct (map fst d) \<Longrightarrow> distinct (map fst (dict_of key val d xs))"
  by (induction xs rule: rev_induct) (auto simp: distinct_update)

lemma last_with_None_iff: "last_with key k xs = None \<longleftrightarrow> k \<notin> key ` set xs"
  by (induction xs rule: rev_induct) auto

lemma last_with_Some_in: "last_with key k xs = Some x \<Longrightarrow> x \<in> set xs \<and> key x = k"
  by (induction xs rule: rev_induct) (auto split: if_splits)

lemma last_with_distinct:
  "distinct (map key xs) \<Longrightarrow> x \<in> set xs \<Longrightarrow> last_with key (key x) xs = Some x"
  by (induction xs rule: rev_induct) force+

lemma map_of_keyed:
  "distinct (map key xs) \<Longrightarrow> map_of (map (\<lambda>x. (key x, x)) xs) k = last_with key k xs"
proof (induction xs rule: rev_induct)
  case Nil
  show ?case by simp
next
  case (snoc x xs)
  then have new: "key x \<notin> key ` set xs" and IH: "map_of (map (\<lambda>x. (key x, x)) xs) k = last_with key k xs"
    by auto
  from new have "last_with key (key x) xs = None"
    by (simp add: last_with_None_iff)
  with IH show ?case
    by (auto simp: map_add_def split: option.splits)
qed

lemma map_filter_append: "List.map_filter f (xs @ ys) = List.map_filter f xs @ List.map_filter f ys"
  by (induction xs) (simp_all add: List.map_filter_def)

lemma map_filter_cong: "(\<And>x. x \<in> set xs \<Longrightarrow> f x = g x) \<Longrightarrow> List.map_filter f xs = List.map_filter g xs"
  by (induction xs) (simp_all add: List.map_filter_def)

lemma set_map_filter_iff: "y \<in> set (List.map_filter f xs) \<longleftrightarrow> (\<exists>x\<in>set xs. f x = Some y)"
  by (force simp: List.map_filter_def)

lemma set_enumerate_snd: "(\<forall>x\<in>set (enumerate n xs). P (snd x)) \<longleftrightarrow> (\<forall>y\<in>set xs. P y)"
  by (induction xs arbitrary: n) auto

lemma length_remdups_le_one: "length (remdups xs) \<le> Suc 0 \<longleftrightarrow> (\<forall>x\<in>set xs. \<forall>y\<in>set xs. x = y)"
  by (simp add: length_remdups_card_conv card_le_Suc0_iff_eq)

lemma map_of_dict_append [dict_simps]:
  "map_of (dict_append d k v) j =
     (if j = k then map_option (\<lambda>vs. vs @ [v]) (map_of d k) else map_of d j)"
  by (simp add: dict_append_def map_of_map_entry split: option.splits)

lemma keys_dict_append [simp]: "map fst (dict_append d k v) = map fst d"
  by (induction d) (auto simp: dict_append_def)

lemma map_of_appends [dict_simps]:
  "map_of (foldl (\<lambda>d (k, v). dict_append d k v) d kvs) k =
     map_option (\<lambda>vs. vs @ map snd (filter (\<lambda>kv. fst kv = k) kvs)) (map_of d k)"
proof (induction kvs arbitrary: d)
  case Nil
  then show ?case by (simp add: option.map_ident)
next
  case (Cons kv kvs)
  then show ?case
    by (cases kv) (auto simp: map_of_dict_append option.map_comp comp_def)
qed

subsection \<open>Lemmas on the last declarer\<close>

lemma winner_append:
  "winner f (ps @ qs) = (case winner f qs of None \<Rightarrow> winner f ps | Some v \<Rightarrow> Some v)"
  by (induction ps) (auto split: option.splits)

lemma winner_snoc [simp]:
  "winner f (ps @ [p]) = (case f p of None \<Rightarrow> winner f ps | Some v \<Rightarrow> Some v)"
  by (simp add: winner_append split: option.splits)

lemma winner_None_iff: "winner f ps = None \<longleftrightarrow> (\<forall>p\<in>set ps. f p = None)"
  by (induction ps) (auto split: option.splits)

lemma winner_Some_split:
  "winner f ps = Some v \<Longrightarrow>
     \<exists>pre p post. ps = pre @ p # post \<and> f p = Some v \<and> (\<forall>q\<in>set post. f q = None)"
proof (induction ps)
  case Nil
  then show ?case by simp
next
  case (Cons p ps)
  show ?case
  proof (cases "winner f ps")
    case None
    with Cons.prems have "p # ps = [] @ p # ps \<and> f p = Some v \<and> (\<forall>q\<in>set ps. f q = None)"
      by (simp add: winner_None_iff)
    then show ?thesis by blast
  next
    case (Some w)
    with Cons.prems have "winner f ps = Some v" by simp
    then obtain pre q post
      where "ps = pre @ q # post" "f q = Some v" "\<forall>r\<in>set post. f r = None"
      using Cons.IH by blast
    then have "p # ps = (p # pre) @ q # post \<and> f q = Some v \<and> (\<forall>r\<in>set post. f r = None)"
      by simp
    then show ?thesis by blast
  qed
qed

lemma winner_Some_in: "winner f ps = Some v \<Longrightarrow> \<exists>p\<in>set ps. f p = Some v"
  by (induction ps) (auto split: option.splits)

subsection \<open>Lemmas on strings\<close>

lemma str_partition_absent [simp]: "c \<notin> set s \<Longrightarrow> str_partition c s = (s, [], [])"
  by (simp add: str_partition_def)

lemma str_partition_join [simp]:
  "c \<notin> set a \<Longrightarrow> str_partition c (a @ c # b) = (a, [c], b)"
proof -
  assume "c \<notin> set a"
  then have "\<And>x. x \<in> set a \<Longrightarrow> x \<noteq> c" by auto
  then show ?thesis
    by (simp add: str_partition_def takeWhile_append dropWhile_append)
qed

lemma separator_inj:
  fixes a b x y :: string
  shows "c \<notin> set a \<Longrightarrow> c \<notin> set b \<Longrightarrow> a @ c # x = b @ c # y \<longleftrightarrow> a = b \<and> x = y"
  by (metis Pair_inject str_partition_join)

end
