(* ===== verification/Assignments.thy ===== *)
theory Assignments
  imports RMS_Prelude
begin

text \<open>
  \<open>PartitionManager._compute_assignments\<close> of \<open>src/src/distributed/partition_manager.py\<close>: the
  round-robin distribution of the sorted process names over the sorted instance names. The
  interface \<open>distribution\<close> states what the rest of the system relies on (every live instance has
  an entry, every process is owned, and by one instance only) and is interpreted here.
\<close>

definition compute_assignments :: "string list \<Rightarrow> string list \<Rightarrow> (string, string list) dict" where
  "compute_assignments instances processes =
     (let instances_sorted = sort instances;
          result = dict_of (\<lambda>i. i) (\<lambda>_. []) [] instances_sorted
      in if instances_sorted = [] then result
         else foldl (\<lambda>result (idx, proc).
                dict_append result (instances_sorted ! (idx mod length instances_sorted)) proc)
              result (enumerate 0 (sort processes)))"

definition owned :: "(string, string list) dict \<Rightarrow> string \<Rightarrow> string list" where
  "owned d i = dict_get d i []"

subsection \<open>The entries, index by index\<close>

lemma nths_snoc: "nths (xs @ [x]) A = nths xs A @ (if length xs \<in> A then [x] else [])"
  by (simp add: nths_append)

lemma dict_of_unit_keys:
  "distinct xs \<Longrightarrow> dict_of (\<lambda>i. i) (\<lambda>_. c) [] xs = map (\<lambda>i. (i, c)) xs"
  by (induction xs rule: rev_induct) (simp_all add: update_fresh image_image)

lemma enumerate_snoc: "enumerate n (xs @ [x]) = enumerate n xs @ [(n + length xs, x)]"
  by (simp add: enumerate_append_eq)

definition deal :: "string list \<Rightarrow> string list \<Rightarrow> (string, string list) dict" where
  "deal is ps =
     foldl (\<lambda>d (idx, p). dict_append d (is ! (idx mod length is)) p)
       (map (\<lambda>i. (i, [])) is) (enumerate 0 ps)"

lemma deal_Nil: "deal is [] = map (\<lambda>i. (i, [])) is"
  by (simp add: deal_def)

lemma deal_snoc: "deal is (ps @ [p]) = dict_append (deal is ps) (is ! (length ps mod length is)) p"
  by (simp add: deal_def enumerate_snoc)

lemma compute_assignments_deal:
  "distinct is \<Longrightarrow> is \<noteq> [] \<Longrightarrow> compute_assignments is ps = deal (sort is) (sort ps)"
  by (simp add: compute_assignments_def dict_of_unit_keys deal_def Let_def flip: set_empty)

lemma keys_deal: "map fst (deal is ps) = is"
  by (induction ps rule: rev_induct) (auto simp: deal_Nil deal_snoc comp_def)

lemma map_of_deal:
  assumes "distinct is" "j < length is"
  shows "map_of (deal is ps) (is ! j) = Some (nths ps {i. i mod length is = j})"
proof (induction ps rule: rev_induct)
  case Nil
  from assms show ?case by (simp add: deal_Nil map_of_map_restrict)
next
  case (snoc p ps)
  have "is ! j = is ! (length ps mod length is) \<longleftrightarrow> length ps mod length is = j"
    using assms by (intro nth_eq_iff_index_eq [THEN trans] mod_less_divisor) auto
  with snoc assms show ?case
    by (auto simp: deal_snoc dict_simps nths_snoc)
qed

lemma length_nths_mod:
  assumes "j < n"
  shows "length (nths ps {i. i mod n = j}) = length ps div n + (if j < length ps mod n then 1 else 0)"
proof (induction ps rule: rev_induct)
  case (snoc p ps)
  have "length ps mod n < n" using assms by simp
  with snoc assms show ?case
    by (auto simp: nths_snoc div_Suc mod_Suc)
qed simp

lemma sort_sort_mset: "mset xs = mset ys \<Longrightarrow> sort xs = sort ys"
  for xs :: "'a::linorder list"
  by (metis mset_sort properties_for_sort sorted_sort)

lemma owned_compute_assignments:
  assumes "distinct is" "j < length is"
  shows "owned (compute_assignments is ps) (sort is ! j) = nths (sort ps) {i. i mod length is = j}"
proof -
  have "is \<noteq> []" using assms(2) by auto
  with assms map_of_deal [of "sort is" j "sort ps"] show ?thesis
    by (simp add: compute_assignments_deal owned_def dict_get_def)
qed

lemma owned_iff_index:
  assumes "distinct is" "j < length is"
  shows "p \<in> set (owned (compute_assignments is ps) (sort is ! j)) \<longleftrightarrow>
     (\<exists>i < length ps. sort ps ! i = p \<and> i mod length is = j)"
  by (auto simp: owned_compute_assignments [OF assms] set_nths)

lemma instance_index:
  assumes "i \<in> set is"
  obtains j where "j < length is" "i = sort is ! j"
  using assms by (metis in_set_conv_nth length_sort set_sort)

subsection \<open>The contract of a distribution\<close>

locale distribution =
  fixes assign :: "string list \<Rightarrow> string list \<Rightarrow> (string, string list) dict"
  assumes entries: "distinct is \<Longrightarrow> set (map fst (assign is ps)) = set is"
    and complete: "distinct is \<Longrightarrow> is \<noteq> [] \<Longrightarrow> p \<in> set ps \<Longrightarrow> \<exists>i\<in>set is. p \<in> set (owned (assign is ps) i)"
    and sound: "distinct is \<Longrightarrow> i \<in> set is \<Longrightarrow> p \<in> set (owned (assign is ps) i) \<Longrightarrow> p \<in> set ps"
    and exclusive: "distinct is \<Longrightarrow> distinct ps \<Longrightarrow> i \<in> set is \<Longrightarrow> k \<in> set is \<Longrightarrow>
       p \<in> set (owned (assign is ps) i) \<Longrightarrow> p \<in> set (owned (assign is ps) k) \<Longrightarrow> i = k"
begin

lemma owner_unique:
  assumes "distinct is" "is \<noteq> []" "distinct ps" "p \<in> set ps"
  shows "\<exists>!i. i \<in> set is \<and> p \<in> set (owned (assign is ps) i)"
proof -
  obtain i where "i \<in> set is" "p \<in> set (owned (assign is ps) i)"
    using complete [OF assms(1,2,4)] by blast
  then show ?thesis
    by (intro ex1I [of _ i]) (auto intro: exclusive [OF assms(1,3)])
qed

lemma owned_union:
  assumes "distinct is" "is \<noteq> []"
  shows "(\<Union>i\<in>set is. set (owned (assign is ps) i)) = set ps"
  by (auto dest: sound [OF assms(1)] complete [OF assms, where ps = ps])

lemma owned_stranger:
  assumes "distinct is" "i \<notin> set is"
  shows "owned (assign is ps) i = []"
proof -
  have "map_of (assign is ps) i = None"
    using entries [OF assms(1), of ps] assms(2) by (simp add: map_of_eq_None_iff)
  then show ?thesis by (simp add: owned_def dict_get_def)
qed

end

lemma keys_compute_assignments: "distinct is \<Longrightarrow> map fst (compute_assignments is ps) = sort is"
  by (cases "is = []") (simp_all add: compute_assignments_deal keys_deal, simp add: compute_assignments_def)

lemma compute_assignments_complete:
  assumes "distinct is" "is \<noteq> []" "p \<in> set ps"
  shows "\<exists>i\<in>set is. p \<in> set (owned (compute_assignments is ps) i)"
proof -
  from assms(3) obtain k where k: "k < length ps" "sort ps ! k = p"
    by (metis in_set_conv_nth length_sort set_sort)
  let ?j = "k mod length is"
  have j: "?j < length is" using assms(2) by simp
  then have "sort is ! ?j \<in> set is"
    by (metis length_sort nth_mem set_sort)
  moreover have "p \<in> set (owned (compute_assignments is ps) (sort is ! ?j))"
    using k by (auto simp: owned_iff_index [OF assms(1) j])
  ultimately show ?thesis by blast
qed

lemma compute_assignments_sound:
  assumes "distinct is" "i \<in> set is" "p \<in> set (owned (compute_assignments is ps) i)"
  shows "p \<in> set ps"
proof -
  from assms(2) obtain j where "j < length is" "i = sort is ! j" by (rule instance_index)
  with assms show ?thesis by (metis length_sort nth_mem owned_iff_index set_sort)
qed

lemma compute_assignments_exclusive:
  assumes "distinct is" "distinct ps" "i \<in> set is" "k \<in> set is"
    and "p \<in> set (owned (compute_assignments is ps) i)" "p \<in> set (owned (compute_assignments is ps) k)"
  shows "i = k"
proof -
  obtain a where a: "a < length is" "i = sort is ! a" using assms(3) by (rule instance_index)
  obtain b where b: "b < length is" "k = sort is ! b" using assms(4) by (rule instance_index)
  from assms(5) obtain u where u: "u < length ps" "sort ps ! u = p" "u mod length is = a"
    by (auto simp: a(2) owned_iff_index [OF assms(1) a(1)])
  from assms(6) obtain v where v: "v < length ps" "sort ps ! v = p" "v mod length is = b"
    by (auto simp: b(2) owned_iff_index [OF assms(1) b(1)])
  have "u = v"
    using u v assms(2) nth_eq_iff_index_eq [of "sort ps" u v] by simp
  with u v a b show ?thesis by simp
qed

interpretation round_robin: distribution compute_assignments
  by unfold_locales
    (simp_all add: keys_compute_assignments compute_assignments_complete flip: set_map,
     blast intro: compute_assignments_sound, blast intro: compute_assignments_exclusive)

subsection \<open>Properties of the round robin\<close>

text \<open>
  C8. With at least one live instance, the entries are exactly the live instances; a name is a
  process if and only if exactly one live instance owns it (no process is lost, none is shared,
  none is invented), and whoever is not live owns nothing.
\<close>
theorem compute_assignments_partition:
  assumes "distinct is" "is \<noteq> []" "distinct ps"
  shows "set (map fst (compute_assignments is ps)) = set is \<and>
     (p \<in> set ps \<longleftrightarrow> (\<exists>!i. i \<in> set is \<and> p \<in> set (owned (compute_assignments is ps) i))) \<and>
     (i \<notin> set is \<longrightarrow> owned (compute_assignments is ps) i = [])"
proof (intro conjI)
  show "set (map fst (compute_assignments is ps)) = set is"
    by (rule round_robin.entries [OF assms(1)])
  show "i \<notin> set is \<longrightarrow> owned (compute_assignments is ps) i = []"
    using round_robin.owned_stranger [OF assms(1)] by blast
  show "p \<in> set ps \<longleftrightarrow> (\<exists>!i. i \<in> set is \<and> p \<in> set (owned (compute_assignments is ps) i))"
  proof
    assume "p \<in> set ps"
    then show "\<exists>!i. i \<in> set is \<and> p \<in> set (owned (compute_assignments is ps) i)"
      by (rule round_robin.owner_unique [OF assms])
  next
    assume "\<exists>!i. i \<in> set is \<and> p \<in> set (owned (compute_assignments is ps) i)"
    then obtain i where "i \<in> set is" "p \<in> set (owned (compute_assignments is ps) i)" by blast
    then show "p \<in> set ps" by (rule round_robin.sound [OF assms(1)])
  qed
qed

theorem compute_assignments_partition_witness:
  "(\<exists>!i. i \<in> set [''b'', ''a''] \<and> ''E'' \<in> set (owned (compute_assignments [''b'', ''a''] [''P'', ''E'']) i))"
proof -
  have hyps: "distinct [''b'', ''a'']" "[''b'', ''a''] \<noteq> []" "distinct [''P'', ''E'']"
    and member: "''E'' \<in> set [''P'', ''E'']"
    by simp_all
  note part = compute_assignments_partition [OF hyps, where p = "''E''" and i = "''c''"]
  show ?thesis
    by (rule iffD1 [OF conjunct1 [OF conjunct2 [OF part]] member])
qed

text \<open>
  The load is balanced: the instance at sorted position j receives the quotient of processes
  by instances, plus one more for the first (remainder) positions, so two loads differ by at most
  one.
\<close>
theorem compute_assignments_balanced:
  assumes "distinct is" "j < length is"
  shows "length (owned (compute_assignments is ps) (sort is ! j)) =
     length ps div length is + (if j < length ps mod length is then 1 else 0)"
  by (simp add: owned_compute_assignments [OF assms] length_nths_mod [OF assms(2)])

theorem compute_assignments_balanced_witness:
  "length (owned (compute_assignments [''b'', ''a''] [''P'', ''E'', ''D'']) (sort [''b'', ''a''] ! 0)) = 2"
proof -
  have len: "length [''b'', ''a''] = 2" "length [''P'', ''E'', ''D''] = 3" by simp_all
  have "distinct [''b'', ''a'']" "0 < length [''b'', ''a'']" by simp_all
  then show ?thesis
    unfolding compute_assignments_balanced [OF \<open>distinct [''b'', ''a'']\<close> \<open>0 < length [''b'', ''a'']\<close>] len by simp
qed

text \<open>
  The distribution is a function of the two sets, not of the order in which ZooKeeper and
  MongoDB report them, so two leaders that see the same membership compute the same assignment.
\<close>
theorem compute_assignments_deterministic:
  assumes "mset is = mset is'" "mset ps = mset ps'"
  shows "compute_assignments is ps = compute_assignments is' ps'"
  unfolding compute_assignments_def sort_sort_mset [OF assms(1)] sort_sort_mset [OF assms(2)] ..

theorem compute_assignments_deterministic_witness:
  "compute_assignments [''b'', ''a''] [''P'', ''E''] = compute_assignments [''a'', ''b''] [''E'', ''P'']"
  by (rule compute_assignments_deterministic) simp_all

end
