(* ===== verification/Py_Strings.thy ===== *)
theory Py_Strings
  imports RMS_Prelude "HOL-Library.Sublist"
begin

text \<open>
  The string operations of Python's standard library that the sources use, on lists of UTF-8 code
  units: \<open>strip\<close>, \<open>split\<close>, \<open>join\<close>, \<open>lower\<close>, \<open>upper\<close>, \<open>startswith\<close>, \<open>str(int)\<close> and
  \<open>int(str)\<close>, with the round trips between printing and reading. Case conversion and white space
  follow the ASCII range.
\<close>

subsection \<open>Characters\<close>

definition char_code :: "char \<Rightarrow> nat" where
  "char_code c = of_char c"

definition is_space :: "char \<Rightarrow> bool" where
  "is_space c = (let n = char_code c in n = 32 \<or> (9 \<le> n \<and> n \<le> 13) \<or> (28 \<le> n \<and> n \<le> 31))"

definition is_digit :: "char \<Rightarrow> bool" where
  "is_digit c = (48 \<le> char_code c \<and> char_code c \<le> 57)"

definition digit_value :: "char \<Rightarrow> nat" where
  "digit_value c = char_code c - 48"

definition digit_char :: "nat \<Rightarrow> char" where
  "digit_char d = char_of (48 + d)"

definition lower_char :: "char \<Rightarrow> char" where
  "lower_char c = (if 65 \<le> char_code c \<and> char_code c \<le> 90 then char_of (char_code c + 32) else c)"

definition upper_char :: "char \<Rightarrow> char" where
  "upper_char c = (if 97 \<le> char_code c \<and> char_code c \<le> 122 then char_of (char_code c - 32) else c)"

subsection \<open>Strings\<close>

definition py_lower :: "string \<Rightarrow> string" where
  "py_lower s = map lower_char s"

definition py_upper :: "string \<Rightarrow> string" where
  "py_upper s = map upper_char s"

definition py_lstrip :: "string \<Rightarrow> string" where
  "py_lstrip s = dropWhile is_space s"

definition py_strip :: "string \<Rightarrow> string" where
  "py_strip s = rev (dropWhile is_space (rev (py_lstrip s)))"

fun split_on :: "char \<Rightarrow> string \<Rightarrow> string list" where
  "split_on c [] = [[]]"
| "split_on c (x # xs) =
     (if x = c then [] # split_on c xs
      else (case split_on c xs of [] \<Rightarrow> [[x]] | w # ws \<Rightarrow> (x # w) # ws))"

fun str_join :: "string \<Rightarrow> string list \<Rightarrow> string" where
  "str_join sep [] = []"
| "str_join sep [w] = w"
| "str_join sep (w # v # ws) = w @ sep @ str_join sep (v # ws)"

definition starts_with :: "string \<Rightarrow> string \<Rightarrow> bool" where
  "starts_with s p = (take (length p) s = p)"

subsection \<open>Integers\<close>

fun str_of_nat :: "nat \<Rightarrow> string" where
  "str_of_nat n = (if n < 10 then [digit_char n] else str_of_nat (n div 10) @ [digit_char (n mod 10)])"

declare str_of_nat.simps [simp del]

definition str_of_int :: "int \<Rightarrow> string" where
  "str_of_int i = (if i < 0 then ''-'' @ str_of_nat (nat (- i)) else str_of_nat (nat i))"

text \<open>\<open>int(s)\<close>: surrounding white space, one sign, digits with single underscores between them.\<close>

fun py_digits :: "nat \<Rightarrow> bool \<Rightarrow> string \<Rightarrow> nat option" where
  "py_digits acc after_digit [] = (if after_digit then Some acc else None)"
| "py_digits acc after_digit (c # cs) =
     (if is_digit c then py_digits (10 * acc + digit_value c) True cs
      else if c = CHR ''_'' \<and> after_digit then py_digits acc False cs
      else None)"

definition py_int :: "string \<Rightarrow> int option" where
  "py_int s =
     (case py_strip s of
        [] \<Rightarrow> None
      | c # cs \<Rightarrow>
          if c = CHR ''-'' then map_option (\<lambda>n. - int n) (py_digits 0 False cs)
          else if c = CHR ''+'' then map_option int (py_digits 0 False cs)
          else map_option int (py_digits 0 False (c # cs)))"

subsection \<open>Splitting and joining\<close>

lemma split_on_nonempty [simp]: "split_on c s \<noteq> []"
  by (induction s) (auto split: list.splits)

lemma split_on_absent: "c \<notin> set s \<Longrightarrow> split_on c s = [s]"
  by (induction s) auto

lemma split_on_append: "c \<notin> set a \<Longrightarrow> split_on c (a @ c # b) = a # split_on c b"
  by (induction a) auto

lemma split_on_parts: "w \<in> set (split_on c s) \<Longrightarrow> c \<notin> set w"
  by (induction s arbitrary: w) (auto split: if_splits list.splits)

lemma join_split [simp]: "str_join [c] (split_on c s) = s"
proof (induction s)
  case (Cons x xs)
  obtain w ws where "split_on c xs = w # ws" by (cases "split_on c xs") auto
  with Cons show ?case by (cases ws) auto
qed simp

lemma split_join:
  "ws \<noteq> [] \<Longrightarrow> (\<And>w. w \<in> set ws \<Longrightarrow> c \<notin> set w) \<Longrightarrow> split_on c (str_join [c] ws) = ws"
proof (induction ws rule: induct_list012)
  case (3 w v ws)
  then have "c \<notin> set w" "split_on c (str_join [c] (v # ws)) = v # ws" by auto
  then show ?case by (simp add: split_on_append)
qed (auto simp: split_on_absent)

lemma starts_with_iff: "starts_with s p \<longleftrightarrow> (\<exists>t. s = p @ t)"
  by (metis append_eq_conv_conj append_take_drop_id starts_with_def)

subsection \<open>Printing and reading integers\<close>

lemma char_code_digit [simp]: "d < 10 \<Longrightarrow> char_code (digit_char d) = 48 + d"
  by (simp add: char_code_def digit_char_def)

lemma digit_char_facts [simp]:
  assumes "d < 10"
  shows "is_digit (digit_char d)" "digit_value (digit_char d) = d" "\<not> is_space (digit_char d)"
  using assms by (auto simp: is_digit_def digit_value_def is_space_def Let_def)

lemma digit_not_sign:
  assumes "is_digit c"
  shows "c \<noteq> CHR ''-''" "c \<noteq> CHR ''+''" "c \<noteq> CHR ''_''" "\<not> is_space c"
  using assms by (auto simp: is_digit_def is_space_def char_code_def Let_def)

lemma str_of_nat_digits: "\<forall>c\<in>set (str_of_nat n). is_digit c"
  by (induction n rule: str_of_nat.induct) (subst str_of_nat.simps, auto)

lemma str_of_nat_nonempty [simp]: "str_of_nat n \<noteq> []"
  by (subst str_of_nat.simps) simp

lemma py_digits_append:
  "\<forall>c\<in>set a. is_digit c \<Longrightarrow> py_digits acc d (a @ b) =
     (if a = [] then py_digits acc d b
      else py_digits (foldl (\<lambda>n c. 10 * n + digit_value c) acc a) True b)"
  by (induction a arbitrary: acc d) auto

lemma foldl_str_of_nat: "foldl (\<lambda>n c. 10 * n + digit_value c) 0 (str_of_nat n) = n"
proof (induction n rule: str_of_nat.induct)
  case (1 n)
  then show ?case by (subst str_of_nat.simps) simp
qed

lemma py_digits_str_of_nat: "py_digits 0 False (str_of_nat n) = Some n"
  using py_digits_append [OF str_of_nat_digits [of n], of 0 False "[]"]
  by (simp add: foldl_str_of_nat)

lemma py_strip_id:
  assumes "s \<noteq> []" "\<not> is_space (hd s)" "\<not> is_space (last s)"
  shows "py_strip s = s"
proof -
  have "dropWhile is_space s = s" using assms by (cases s) auto
  moreover have "dropWhile is_space (rev s) = rev s"
    using assms by (cases s rule: rev_cases) auto
  ultimately show ?thesis by (simp add: py_strip_def py_lstrip_def)
qed

lemma py_strip_digits: "s \<noteq> [] \<Longrightarrow> \<forall>c\<in>set s. is_digit c \<Longrightarrow> py_strip s = s"
  by (rule py_strip_id) (simp_all add: digit_not_sign(4))

lemma py_int_str_of_nat: "py_int (str_of_nat n) = Some (int n)"
proof -
  obtain c cs where s: "str_of_nat n = c # cs" by (cases "str_of_nat n") auto
  with str_of_nat_digits [of n] have "is_digit c" by simp
  with s show ?thesis
    using py_digits_str_of_nat [of n] py_strip_digits [OF _ str_of_nat_digits, of n]
    by (simp add: py_int_def digit_not_sign del: py_digits.simps)
qed

lemma py_int_str_of_int: "py_int (str_of_int i) = Some i"
proof (cases "i < 0")
  case True
  let ?n = "str_of_nat (nat (- i))"
  have "py_strip (''-'' @ ?n) = ''-'' @ ?n"
  proof (rule py_strip_id)
    have "last ?n \<in> set ?n" by (rule last_in_set) simp
    then show "\<not> is_space (last (''-'' @ ?n))"
      using str_of_nat_digits [of "nat (- i)"] by (simp add: digit_not_sign)
  qed (simp_all add: is_space_def char_code_def)
  with True show ?thesis
    by (simp add: py_int_def str_of_int_def py_digits_str_of_nat)
qed (simp add: str_of_int_def py_int_str_of_nat)

lemma str_of_int_inj: "str_of_int i = str_of_int j \<longleftrightarrow> i = j"
  by (metis option.inject py_int_str_of_int)

lemma str_of_int_nonempty [simp]: "str_of_int i \<noteq> []"
  by (simp add: str_of_int_def)

lemma py_lower_idem [simp]: "py_lower (py_lower s) = py_lower s"
proof -
  have "lower_char (lower_char c) = lower_char c" for c
    by (simp add: lower_char_def char_code_def)
  then show ?thesis by (simp add: py_lower_def)
qed

subsection \<open>Search and replacement\<close>

text \<open>
  The text before and after the first occurrence of a pattern, and \<open>s.replace(pat, by)\<close> for a
  non-empty pattern: occurrences are replaced from the left, without overlap.
\<close>

fun split_first :: "string \<Rightarrow> string \<Rightarrow> (string \<times> string) option" where
  "split_first pat [] = (if pat = [] then Some ([], []) else None)"
| "split_first pat (c # cs) =
     (if starts_with (c # cs) pat then Some ([], drop (length pat) (c # cs))
      else map_option (\<lambda>(a, b). (c # a, b)) (split_first pat cs))"

definition occurs_in :: "string \<Rightarrow> string \<Rightarrow> bool" where
  "occurs_in pat s = (split_first pat s \<noteq> None)"

lemma split_first_append: "split_first pat s = Some (a, b) \<Longrightarrow> s = a @ pat @ b"
proof (induction pat s arbitrary: a rule: split_first.induct)
  case (2 pat c cs)
  show ?case
  proof (cases "starts_with (c # cs) pat")
    case True
    with 2(2) show ?thesis by (auto simp: starts_with_def) (metis append_take_drop_id)
  next
    case False
    with 2 show ?thesis by auto
  qed
qed (auto split: if_splits)

lemma split_first_shorter: "split_first pat s = Some (a, b) \<Longrightarrow> pat \<noteq> [] \<Longrightarrow> length b < length s"
  by (drule split_first_append) auto

function str_replace :: "string \<Rightarrow> string \<Rightarrow> string \<Rightarrow> string" where
  "str_replace pat by_text s =
     (if pat = [] then s
      else case split_first pat s of None \<Rightarrow> s | Some (a, b) \<Rightarrow> a @ by_text @ str_replace pat by_text b)"
  by auto
termination
  by (relation "measure (\<lambda>(_, _, s). length s)") (auto dest: split_first_shorter)

declare str_replace.simps [simp del]

lemma occurs_in_iff: "occurs_in pat s \<longleftrightarrow> (\<exists>a b. s = a @ pat @ b)"
proof
  assume "occurs_in pat s"
  then obtain a b where "split_first pat s = Some (a, b)" by (auto simp: occurs_in_def)
  then show "\<exists>a b. s = a @ pat @ b" using split_first_append by blast
next
  assume "\<exists>a b. s = a @ pat @ b"
  then obtain a b where "s = a @ pat @ b" by blast
  then show "occurs_in pat s"
  proof (induction a arbitrary: s)
    case Nil
    then show ?case by (cases b; cases pat) (simp_all add: occurs_in_def starts_with_def)
  qed (auto simp: occurs_in_def)
qed

lemma str_replace_absent: "\<not> occurs_in pat s \<Longrightarrow> str_replace pat by_text s = s"
  by (cases "split_first pat s") (simp_all add: str_replace.simps [of pat by_text s] occurs_in_def)

text \<open>Replacing a single character is a map.\<close>

lemma split_first_char:
  "split_first [c] s = (if c \<in> set s then Some (takeWhile (\<lambda>x. x \<noteq> c) s, tl (dropWhile (\<lambda>x. x \<noteq> c) s)) else None)"
  by (induction s) (auto simp: starts_with_def)

lemma str_replace_char: "str_replace [c] by_text s = concat (map (\<lambda>x. if x = c then by_text else [x]) s)"
proof (induction "length s" arbitrary: s rule: less_induct)
  case less
  show ?case
  proof (cases "c \<in> set s")
    case True
    then obtain a b where s: "s = a @ c # b" "c \<notin> set a" by (meson split_list_first)
    then have "takeWhile (\<lambda>x. x \<noteq> c) s = a" "tl (dropWhile (\<lambda>x. x \<noteq> c) s) = b"
      by (simp_all add: takeWhile_append dropWhile_append)
    moreover have "concat (map (\<lambda>x. if x = c then by_text else [x]) a) = a"
      using s(2) by (induction a) auto
    moreover have "str_replace [c] by_text b = concat (map (\<lambda>x. if x = c then by_text else [x]) b)"
      using s(1) by (intro less) simp
    ultimately show ?thesis
      unfolding str_replace.simps [of "[c]" by_text s] split_first_char using True s(1) by simp
  next
    case False
    then have "concat (map (\<lambda>x. if x = c then by_text else [x]) s) = s" by (induction s) auto
    with False show ?thesis by (simp add: str_replace.simps [of "[c]" by_text s] split_first_char)
  qed
qed

end
