(* ===== verification/Zk_Client.thy ===== *)
theory Zk_Client
  imports Py_Strings
begin

text \<open>
  \<open>src/src/distributed/zk_client.py\<close>: the wrapper that bridges kazoo to asyncio. What the kazoo
  library and the ZooKeeper server answer is an argument: the record \<open>kazoo\<close> gives, for each
  call, the result or the exception it raises. Node contents are the forms the clients
  distinguish: no data, the empty byte string, bytes that are not JSON, and JSON.
\<close>

datatype ZkError =
    Cancelled | NoNodeError | NodeExistsError | SessionExpiredError | ConnectionClosedError
  | TimeoutError | OtherError string

datatype KazooState = SUSPENDED | LOST | CONNECTED

text \<open>
  An assignment blob after \<open>json.loads\<close>: either its three fields convert, or one of the
  conversions raises \<open>KeyError\<close>, \<open>TypeError\<close> or \<open>ValueError\<close>.
\<close>

datatype Payload =
    MalformedPayload
  | AssignmentPayload (leader_epoch: int) (assigned_at: real) (processes: "string list")

datatype NodeData = NoData | EmptyData | InvalidData | JsonData Payload

record kazoo =
  zk_create :: "string \<Rightarrow> ZkError option"
  zk_ensure_path :: "string \<Rightarrow> ZkError option"
  zk_get :: "string \<Rightarrow> ZkError + NodeData"
  zk_get_children :: "string \<Rightarrow> ZkError + string list"
  zk_commit :: "(string \<times> Payload) list \<Rightarrow> ZkError + ZkError option list"
  zk_delete :: "string \<Rightarrow> ZkError option"

subsection \<open>Connecting and closing\<close>

record ZKClient =
  kazoo_present :: bool
  loop_present :: bool
  state_handlers :: "string list"

definition new_ZKClient :: ZKClient where
  "new_ZKClient = \<lparr>kazoo_present = False, loop_present = False, state_handlers = []\<rparr>"

text \<open>\<open>connect\<close>: the outcome of \<open>kazoo.start\<close> under its budget, then of \<open>ensure_path\<close>.\<close>

definition zk_connect ::
  "ZkError option \<Rightarrow> ZkError option \<Rightarrow> ZKClient \<Rightarrow> ZKClient \<times> ZkError option" where
  "zk_connect start_outcome ensure_outcome c =
     (let c' = c\<lparr>loop_present := True, kazoo_present := True\<rparr>
      in case start_outcome of
           Some e \<Rightarrow> (c', Some e)
         | None \<Rightarrow> (c', ensure_outcome))"

text \<open>\<open>close\<close>: the handle is dropped whether or not \<open>kazoo.stop\<close> raises.\<close>

definition zk_close :: "ZKClient \<Rightarrow> ZKClient" where
  "zk_close c = (if \<not> kazoo_present c then c else c\<lparr>kazoo_present := False\<rparr>)"

definition zk_is_connected :: "bool \<Rightarrow> ZKClient \<Rightarrow> bool" where
  "zk_is_connected kazoo_connected c = (kazoo_present c \<and> kazoo_connected)"

definition add_state_handler :: "string \<Rightarrow> ZKClient \<Rightarrow> ZKClient" where
  "add_state_handler h c = c\<lparr>state_handlers := state_handlers c @ [h]\<rparr>"

text \<open>
  \<open>_state_listener\<close>: the handlers scheduled on the loop for a state change, in registration
  order; none when the loop is missing, closed or not running.
\<close>

definition state_listener ::
  "bool \<Rightarrow> bool \<Rightarrow> (string \<Rightarrow> bool) \<Rightarrow> KazooState \<Rightarrow> ZKClient \<Rightarrow> (string \<times> KazooState) list" where
  "state_listener loop_closed loop_running dispatch_ok s c =
     (if \<not> loop_present c \<or> loop_closed then []
      else if \<not> loop_running then []
      else map (\<lambda>h. (h, s)) (filter dispatch_ok (state_handlers c)))"

subsection \<open>Server version\<close>

definition VERSION_PREFIX :: string where
  "VERSION_PREFIX = ''Zookeeper version:''"

definition version_of_text :: "string \<Rightarrow> string" where
  "version_of_text text =
     (case find (\<lambda>line. starts_with line VERSION_PREFIX) (split_on (CHR 0x0A) text) of
        Some line \<Rightarrow> py_strip (snd (snd (str_partition (CHR '':'') line)))
      | None \<Rightarrow> ''unknown'')"

text \<open>Every failure of the command but a cancellation is answered by \<open>unknown\<close>.\<close>

definition get_server_version :: "ZkError + string \<Rightarrow> ZKClient \<Rightarrow> ZkError + string" where
  "get_server_version command_outcome c =
     (if \<not> kazoo_present c \<or> \<not> loop_present c then Inr ''unknown''
      else (case command_outcome of
              Inl Cancelled \<Rightarrow> Inl Cancelled
            | Inl _ \<Rightarrow> Inr ''unknown''
            | Inr text \<Rightarrow> Inr (version_of_text text)))"

subsection \<open>Lemmas\<close>

lemma zk_close_disconnected: "\<not> zk_is_connected up (zk_close c)"
  by (simp add: zk_close_def zk_is_connected_def)

lemma state_listener_order:
  assumes "loop_present c"
  shows "state_listener False True (\<lambda>_. True) s (add_state_handler h c) =
    state_listener False True (\<lambda>_. True) s c @ [(h, s)]"
  using assms by (simp add: state_listener_def add_state_handler_def)

lemma find_hit:
  "(\<And>x. x \<in> set pre \<Longrightarrow> \<not> P x) \<Longrightarrow> P y \<Longrightarrow> find P (pre @ y # post) = Some y"
  by (induction pre) auto

lemma split_on_join_lines:
  "CHR 0x0A \<notin> set line \<Longrightarrow>
     split_on (CHR 0x0A) (a @ CHR 0x0A # line @ CHR 0x0A # b) =
       split_on (CHR 0x0A) a @ line # split_on (CHR 0x0A) b"
proof (induction a)
  case Nil
  then show ?case by (simp add: split_on_append)
next
  case (Cons x a)
  then show ?case by (cases "split_on (CHR 0x0A) a") auto
qed

text \<open>
  The version line of the \<open>stat\<close> output is found wherever it stands, provided no earlier line
  starts the same way, and the version comes back without the prefix and surrounding blanks.
\<close>
theorem version_of_text_finds:
  assumes "\<And>l. l \<in> set (split_on (CHR 0x0A) before) \<Longrightarrow> \<not> starts_with l VERSION_PREFIX"
    and "CHR 0x0A \<notin> set v" "kazoo_present c" "loop_present c"
  shows "get_server_version
     (Inr (before @ CHR 0x0A # VERSION_PREFIX @ v @ CHR 0x0A # after)) c = Inr (py_strip v)"
proof -
  have line: "CHR 0x0A \<notin> set (VERSION_PREFIX @ v)"
    using assms(2) by (simp add: VERSION_PREFIX_def)
  have "find (\<lambda>line. starts_with line VERSION_PREFIX)
      (split_on (CHR 0x0A) (before @ CHR 0x0A # (VERSION_PREFIX @ v) @ CHR 0x0A # after)) =
      Some (VERSION_PREFIX @ v)"
    unfolding split_on_join_lines [OF line]
    by (rule find_hit) (use assms(1) in \<open>auto simp: starts_with_iff\<close>)
  moreover have "str_partition (CHR '':'') (VERSION_PREFIX @ v) = (''Zookeeper version'', '':'', v)"
    using str_partition_join [of "CHR '':''" "''Zookeeper version''" v]
    by (simp add: VERSION_PREFIX_def)
  ultimately show ?thesis
    using assms(3,4) by (simp add: get_server_version_def version_of_text_def)
qed

theorem version_of_text_finds_witness:
  "get_server_version
     (Inr ([] @ CHR 0x0A # VERSION_PREFIX @ '' 3.5.5'' @ CHR 0x0A # ''Latency''))
     \<lparr>kazoo_present = True, loop_present = True, state_handlers = []\<rparr> = Inr ''3.5.5''"
proof -
  have "get_server_version
     (Inr ([] @ CHR 0x0A # VERSION_PREFIX @ '' 3.5.5'' @ CHR 0x0A # ''Latency''))
     \<lparr>kazoo_present = True, loop_present = True, state_handlers = []\<rparr> = Inr (py_strip '' 3.5.5'')"
    by (rule version_of_text_finds) (simp_all add: starts_with_def VERSION_PREFIX_def)
  then show ?thesis
    by (simp add: py_strip_def py_lstrip_def is_space_def char_code_def)
qed

end
