(* ===== verification/Leader_Election.thy ===== *)
theory Leader_Election
  imports Zk_Client
begin

text \<open>
  \<open>src/src/distributed/leader_election.py\<close>: the persistent leader epoch and the life cycle of one
  participant. The handler that kazoo's Election recipe runs is modelled in its two parts: what
  happens up to the blocking wait (\<open>on_become_leader_sync\<close>), and the \<open>finally\<close> branch that runs
  when the wait ends (\<open>leader_handler_finally\<close>).
\<close>

text \<open>The content of the epoch node: the bytes that \<open>str(new_epoch).encode()\<close> left there.\<close>

record LeaderElection =
  is_leader :: bool
  epoch :: int
  stopped :: bool
  stop_event :: bool
  election_running :: bool
  on_acquired :: "string list"

definition new_LeaderElection :: LeaderElection where
  "new_LeaderElection =
     \<lparr>is_leader = False, epoch = 0, stopped = False, stop_event = False,
      election_running = False, on_acquired = []\<rparr>"

definition add_on_acquired_callback :: "string \<Rightarrow> LeaderElection \<Rightarrow> LeaderElection" where
  "add_on_acquired_callback cb e = e\<lparr>on_acquired := on_acquired e @ [cb]\<rparr>"

definition start_election_run :: "LeaderElection \<Rightarrow> LeaderElection" where
  "start_election_run e = e\<lparr>stop_event := False, election_running := True\<rparr>"

definition leader_start :: "ZkError option \<Rightarrow> LeaderElection \<Rightarrow> LeaderElection \<times> ZkError option" where
  "leader_start ensure_outcome e =
     (case ensure_outcome of
        Some x \<Rightarrow> (e, Some x)
      | None \<Rightarrow> (start_election_run e, None))"

text \<open>
  \<open>restart_after_loss\<close>: the drained future's result is ignored, whatever it is; the exception of
  \<open>ensure_path\<close> is not.
\<close>

definition restart_after_loss ::
  "ZkError option \<Rightarrow> LeaderElection \<Rightarrow> LeaderElection \<times> ZkError option" where
  "restart_after_loss ensure_outcome e =
     (if stopped e then (e, None)
      else let e' = e\<lparr>stop_event := True, is_leader := False, election_running := False\<rparr>
           in case ensure_outcome of
                Some x \<Rightarrow> (e', Some x)
              | None \<Rightarrow> (start_election_run e', None))"

definition leader_stop :: "LeaderElection \<Rightarrow> LeaderElection" where
  "leader_stop e = e\<lparr>stopped := True, stop_event := True\<rparr>"

subsection \<open>The election callback\<close>

text \<open>
  The outcome of \<open>kazoo.set\<close>: it returns, or it raises after the write reached the server or
  before (the connection may break on either side of it).
\<close>

datatype SetOutcome = SetOk | SetRaises (set_error: ZkError) (set_applied: bool)

definition read_epoch :: "ZkError + string \<Rightarrow> ZkError + int" where
  "read_epoch got =
     (case got of
        Inl x \<Rightarrow> Inl x
      | Inr data \<Rightarrow>
          (if data = [] then Inr 0
           else (case py_int data of
                   None \<Rightarrow> Inl (OtherError ''ValueError'')
                 | Some n \<Rightarrow> Inr n)))"

record HandlerRun =
  after :: LeaderElection
  epoch_node :: string
  notified :: "(string \<times> int) list"
  holding :: bool

definition leader_handler_finally :: "LeaderElection \<Rightarrow> LeaderElection" where
  "leader_handler_finally e = e\<lparr>is_leader := False\<rparr>"

text \<open>
  The handler, given the epoch node, whether \<open>get\<close> raises, how \<open>set\<close> ends and whether the loop is
  open: the participant and the node afterwards, the callbacks scheduled, and whether the handler
  is now blocked in the wait, which is when it holds the leadership.
\<close>

definition on_become_leader_sync ::
  "ZkError option \<Rightarrow> SetOutcome \<Rightarrow> bool \<Rightarrow> string \<Rightarrow> LeaderElection \<Rightarrow> HandlerRun" where
  "on_become_leader_sync get_error set_outcome loop_open node e =
     (let failed = (\<lambda>e' node'. \<lparr>after = leader_handler_finally e', epoch_node = node',
                              notified = [], holding = False\<rparr>)
      in case read_epoch (case get_error of Some x \<Rightarrow> Inl x | None \<Rightarrow> Inr node) of
           Inl _ \<Rightarrow> failed e node
         | Inr current \<Rightarrow>
             (let new_epoch = current + 1;
                  new_node = str_of_int new_epoch
              in case set_outcome of
                   SetRaises _ applied \<Rightarrow> failed e (if applied then new_node else node)
                 | SetOk \<Rightarrow>
                     (let e' = e\<lparr>epoch := new_epoch, is_leader := True\<rparr>;
                          calls = (if loop_open then map (\<lambda>cb. (cb, new_epoch)) (on_acquired e') else [])
                      in if stop_event e'
                         then \<lparr>after = leader_handler_finally e', epoch_node = new_node,
                               notified = calls, holding = False\<rparr>
                         else \<lparr>after = e', epoch_node = new_node,
                               notified = calls, holding = True\<rparr>)))"

subsection \<open>The epoch counter\<close>

text \<open>The number a node content stands for: an empty node counts as zero.\<close>

definition node_epoch :: "string \<Rightarrow> int option" where
  "node_epoch node = (if node = [] then Some 0 else py_int node)"

lemma node_epoch_str [simp]: "node_epoch (str_of_int n) = Some n"
  by (simp add: node_epoch_def py_int_str_of_int)

lemma read_epoch_Inl [simp]: "read_epoch (Inl x) = Inl x"
  by (simp add: read_epoch_def)

lemma read_epoch_node:
  "read_epoch (Inr node) = (case node_epoch node of None \<Rightarrow> Inl (OtherError ''ValueError'') | Some n \<Rightarrow> Inr n)"
  by (simp add: read_epoch_def node_epoch_def)

lemmas handler_defs = on_become_leader_sync_def leader_handler_finally_def Let_def

lemma handler_get_error:
  "on_become_leader_sync (Some x) w lo node e =
     \<lparr>after = e\<lparr>is_leader := False\<rparr>, epoch_node = node, notified = [], holding = False\<rparr>"
  by (simp add: handler_defs read_epoch_def)

lemma handler_garbage:
  "node_epoch node = None \<Longrightarrow> on_become_leader_sync None w lo node e =
     \<lparr>after = e\<lparr>is_leader := False\<rparr>, epoch_node = node, notified = [], holding = False\<rparr>"
  by (simp add: handler_defs read_epoch_node)

lemma handler_holding:
  assumes "holding (on_become_leader_sync g w lo node e)"
  shows "\<exists>n. node_epoch node = Some n \<and> g = None \<and> w = SetOk \<and> \<not> stop_event e \<and>
     after (on_become_leader_sync g w lo node e) = e\<lparr>epoch := n + 1, is_leader := True\<rparr> \<and>
     epoch_node (on_become_leader_sync g w lo node e) = str_of_int (n + 1)"
  using assms
  by (cases g; cases w; cases "node_epoch node")
     (auto simp: handler_get_error handler_garbage handler_defs read_epoch_node split: if_splits)

lemma handler_epoch_node:
  "epoch_node (on_become_leader_sync g w lo node e) = node \<or>
   (\<exists>n. node_epoch node = Some n \<and> epoch_node (on_become_leader_sync g w lo node e) = str_of_int (n + 1))"
  by (cases g; cases w; cases "node_epoch node")
     (auto simp: handler_get_error handler_garbage handler_defs read_epoch_node)

lemma handler_is_leader:
  "is_leader (after (on_become_leader_sync g w lo node e)) \<longleftrightarrow> holding (on_become_leader_sync g w lo node e)"
  by (cases g; cases w; cases "node_epoch node")
     (auto simp: handler_get_error handler_garbage handler_defs read_epoch_node)

text \<open>
  A run of the election callback either leaves the participant a follower (a failed read, a
  garbled epoch, a failed write, or a stop that came first), or it holds the leadership with an
  epoch one above the persisted one, which is then the persisted one; the node never goes back.
\<close>
theorem leader_epoch_advances:
  assumes "node_epoch node = Some n" "r = on_become_leader_sync g w lo node e"
  shows "(holding r \<longrightarrow> epoch (after r) = n + 1 \<and> node_epoch (epoch_node r) = Some (n + 1)) \<and>
     (is_leader (after r) \<longleftrightarrow> holding r) \<and>
     (\<exists>m. node_epoch (epoch_node r) = Some m \<and> n \<le> m \<and> m \<le> n + 1)"
  using assms(1) handler_holding [of g w lo node e] handler_epoch_node [of g w lo node e]
    handler_is_leader [of g w lo node e]
  unfolding assms(2) by auto

theorem leader_epoch_advances_witness:
  "node_epoch ''41'' = Some 41 \<and>
   (let r = on_become_leader_sync None SetOk True ''41'' new_LeaderElection
    in holding r \<and> epoch (after r) = 42)"
proof -
  have n: "node_epoch ''41'' = Some 41"
    by (simp add: node_epoch_def py_int_def py_strip_def py_lstrip_def is_space_def char_code_def is_digit_def digit_value_def)
  have "holding (on_become_leader_sync None SetOk True ''41'' new_LeaderElection)"
    using n by (simp add: handler_defs read_epoch_node new_LeaderElection_def)
  with n leader_epoch_advances [OF n refl, of None SetOk True new_LeaderElection] show ?thesis
    by (simp add: Let_def)
qed

subsection \<open>Terms of office\<close>

text \<open>Runs of the callback by any participants, one after the other, on the shared epoch node.\<close>

fun leader_runs ::
  "(ZkError option \<times> SetOutcome \<times> bool \<times> LeaderElection) list \<Rightarrow> string \<Rightarrow> HandlerRun list" where
  "leader_runs [] node = []"
| "leader_runs ((g, w, lo, e) # rs) node =
     (let r = on_become_leader_sync g w lo node e in r # leader_runs rs (epoch_node r))"

definition terms_of_office :: "HandlerRun list \<Rightarrow> int list" where
  "terms_of_office rs = map (\<lambda>r. epoch (after r)) (filter holding rs)"

lemma terms_above:
  "node_epoch node = Some n \<Longrightarrow> m \<in> set (terms_of_office (leader_runs rs node)) \<Longrightarrow> n < m"
proof (induction rs arbitrary: node n)
  case (Cons a rs)
  obtain g w lo e where a: "a = (g, w, lo, e)" by (cases a) auto
  let ?r = "on_become_leader_sync g w lo node e"
  obtain k where k: "node_epoch (epoch_node ?r) = Some k" "n \<le> k"
    using handler_epoch_node [of g w lo node e] Cons.prems(1) by auto
  have "holding ?r \<Longrightarrow> epoch (after ?r) = n + 1"
    using handler_holding [of g w lo node e] Cons.prems(1) by auto
  with Cons.prems(2) Cons.IH [OF k(1)] k(2) show ?case
    by (auto simp: a Let_def terms_of_office_def split: if_splits)
qed (simp add: terms_of_office_def)

text \<open>
  Runs of the callback by any participants, in any order and with any failures, hand out
  strictly increasing epochs to those that come to hold the leadership, all above the epoch that
  was persisted before; so no two terms of office share an epoch.
\<close>
theorem leader_terms_increase:
  "node_epoch node = Some n \<Longrightarrow> sorted_wrt (<) (n # terms_of_office (leader_runs rs node))"
proof (induction rs arbitrary: node n)
  case (Cons a rs)
  obtain g w lo e where a: "a = (g, w, lo, e)" by (cases a) auto
  let ?r = "on_become_leader_sync g w lo node e"
  have above: "\<forall>m \<in> set (terms_of_office (leader_runs (a # rs) node)). n < m"
    using terms_above [OF Cons.prems] by blast
  obtain k where k: "node_epoch (epoch_node ?r) = Some k"
    using handler_epoch_node [of g w lo node e] Cons.prems by auto
  note rest = Cons.IH [OF k]
  have "holding ?r \<Longrightarrow> k = epoch (after ?r)"
    using handler_holding [of g w lo node e] k by auto
  with rest above show ?case
    by (auto simp: a Let_def terms_of_office_def)
qed (simp add: terms_of_office_def)

theorem leader_terms_increase_witness:
  "sorted_wrt (<) [0, 1, 2 :: int] \<and>
   terms_of_office (leader_runs
     [(None, SetOk, True, new_LeaderElection), (None, SetRaises SessionExpiredError False, True, new_LeaderElection),
      (None, SetOk, True, new_LeaderElection)] []) = [1, 2]"
proof -
  let ?rs = "[(None, SetOk, True, new_LeaderElection), (None, SetRaises SessionExpiredError False, True, new_LeaderElection),
      (None, SetOk, True, new_LeaderElection)]"
  have n: "node_epoch [] = Some 0" by (simp add: node_epoch_def)
  have t: "terms_of_office (leader_runs ?rs []) = [1, 2]"
    using n by (simp add: terms_of_office_def handler_defs read_epoch_node new_LeaderElection_def)
  from leader_terms_increase [OF n, of ?rs] t show ?thesis by simp
qed

text \<open>
  After a lost session the participant is no longer leader, whatever the restart's outcome; a
  restart that reaches ZooKeeper has a fresh election waiting with its stop flag cleared, and a
  stopped participant never re-enters the election.
\<close>
theorem restart_after_loss_follower:
  "(\<not> stopped e \<longrightarrow>
      \<not> is_leader (fst (restart_after_loss x e)) \<and>
      (snd (restart_after_loss x e) = None \<longleftrightarrow> x = None) \<and>
      (x = None \<longrightarrow> election_running (fst (restart_after_loss x e)) \<and> \<not> stop_event (fst (restart_after_loss x e)))) \<and>
   (stopped e \<longrightarrow> restart_after_loss x e = (e, None))"
  by (cases x) (auto simp: restart_after_loss_def start_election_run_def Let_def)

theorem restart_after_loss_follower_witness:
  "\<not> is_leader (fst (restart_after_loss None (new_LeaderElection\<lparr>is_leader := True\<rparr>)))"
  using restart_after_loss_follower [of "new_LeaderElection\<lparr>is_leader := True\<rparr>" None]
  by (simp add: new_LeaderElection_def)

end
