(* ===== verification/Partition.thy ===== *)
theory Partition
  imports Assignments Leader_Election "HOL-Library.Product_Lexorder"
begin

text \<open>
  \<open>src/src/distributed/partition_manager.py\<close>: which processes an instance analyses. Each handler is
  one definition from the manager's state to the manager's state and the calls it makes, in
  order: on ZooKeeper, on the scheduler and on the leader election. What ZooKeeper and MongoDB
  answer during the handler are its arguments. A handler runs to its end before the next one.
\<close>

subsection \<open>State and effects\<close>

text \<open>
  \<open>redistribute_retry_task\<close> holds the arguments of the retry task that is not done: waiting in
  its backoff, or running. \<open>redistribution_task\<close> says that a debounce is pending.
\<close>

record PartitionManager =
  known_epoch :: int
  known_assigned_at :: real
  assigned_processes :: "string list"
  session_lost :: bool
  watch_epoch :: nat
  redistribution_task :: bool
  redistribute_attempt :: nat
  redistribute_unhealthy :: bool
  redistribute_retry_task :: "(string list \<times> nat) option"

definition new_PartitionManager :: PartitionManager where
  "new_PartitionManager =
     \<lparr>known_epoch = 0, known_assigned_at = 0, assigned_processes = [], session_lost = False,
      watch_epoch = 0, redistribution_task = False, redistribute_attempt = 0,
      redistribute_unhealthy = False, redistribute_retry_task = None\<rparr>"

datatype Effect =
    PauseAllJobs | ResumeJobsFor "string list" | ReloadJobs "string list"
  | CreateMember string | EnsurePath string | RegisterWatches nat
  | SetAssignments "(string \<times> Payload) list" | DeleteNode string

text \<open>The fixed parts of a manager: its paths, its name and whether a scheduler is set.\<close>

record PmConfig =
  members_path :: string
  assignments_path :: string
  instance_id :: string
  has_scheduler :: bool

definition my_assignment_path :: "PmConfig \<Rightarrow> string" where
  "my_assignment_path cfg = assignments_path cfg @ ''/'' @ instance_id cfg"

definition REDISTRIBUTE_MAX_ATTEMPTS :: nat where
  "REDISTRIBUTE_MAX_ATTEMPTS = 5"

definition scheduler_call :: "PmConfig \<Rightarrow> Effect \<Rightarrow> Effect list" where
  "scheduler_call cfg e = (if has_scheduler cfg then [e] else [])"

subsection \<open>Applying an assignment\<close>

definition apply_assignment ::
  "PmConfig \<Rightarrow> Payload \<Rightarrow> PartitionManager \<Rightarrow> PartitionManager \<times> Effect list" where
  "apply_assignment cfg data pm =
     (case data of
        MalformedPayload \<Rightarrow> (pm, [])
      | AssignmentPayload incoming_epoch incoming_ts procs \<Rightarrow>
          if incoming_epoch < known_epoch pm then (pm, [])
          else if incoming_epoch = known_epoch pm \<and> incoming_ts \<le> known_assigned_at pm then (pm, [])
          else (pm\<lparr>known_epoch := incoming_epoch, known_assigned_at := incoming_ts,
                  assigned_processes := procs\<rparr>,
                scheduler_call cfg (ReloadJobs procs)))"

text \<open>The watch callback; \<open>loop_open\<close> is false once the event loop is gone or closed.\<close>

definition on_assignment_changed_sync ::
  "PmConfig \<Rightarrow> bool \<Rightarrow> NodeData \<Rightarrow> PartitionManager \<Rightarrow> PartitionManager \<times> Effect list" where
  "on_assignment_changed_sync cfg loop_open data pm =
     (case data of
        NoData \<Rightarrow> (pm, [])
      | EmptyData \<Rightarrow> (pm, [])
      | InvalidData \<Rightarrow> (pm, [])
      | JsonData payload \<Rightarrow> if loop_open then apply_assignment cfg payload pm else (pm, []))"

definition refresh_assignment_from_zk ::
  "PmConfig \<Rightarrow> kazoo \<Rightarrow> PartitionManager \<Rightarrow> PartitionManager \<times> Effect list" where
  "refresh_assignment_from_zk cfg zk pm =
     (case zk_get zk (my_assignment_path cfg) of
        Inl _ \<Rightarrow> (pm, [])
      | Inr NoData \<Rightarrow> (pm, [])
      | Inr EmptyData \<Rightarrow> (pm, [])
      | Inr InvalidData \<Rightarrow> (pm, [])
      | Inr (JsonData payload) \<Rightarrow> apply_assignment cfg payload pm)"

subsection \<open>Members and watches\<close>

text \<open>\<open>_register_member\<close> swallows \<open>NodeExistsError\<close> only.\<close>

definition register_member :: "PmConfig \<Rightarrow> kazoo \<Rightarrow> Effect list \<times> ZkError option" where
  "register_member cfg zk =
     (let path = members_path cfg @ ''/'' @ instance_id cfg
      in case zk_create zk path of
           None \<Rightarrow> ([CreateMember path], None)
         | Some NodeExistsError \<Rightarrow> ([CreateMember path], None)
         | Some e \<Rightarrow> ([CreateMember path], Some e))"

definition register_watches :: "PartitionManager \<Rightarrow> PartitionManager \<times> Effect list" where
  "register_watches pm =
     (let pm' = pm\<lparr>watch_epoch := watch_epoch pm + 1\<rparr> in (pm', [RegisterWatches (watch_epoch pm')]))"

text \<open>A callback registered at a watch epoch runs only while that epoch is the current one.\<close>

definition assignment_cb ::
  "PmConfig \<Rightarrow> nat \<Rightarrow> bool \<Rightarrow> NodeData \<Rightarrow> PartitionManager \<Rightarrow> PartitionManager \<times> Effect list" where
  "assignment_cb cfg registered loop_open data pm =
     (if registered \<noteq> watch_epoch pm then (pm, []) else on_assignment_changed_sync cfg loop_open data pm)"

subsection \<open>Session states\<close>

definition reinit_after_loss ::
  "PmConfig \<Rightarrow> kazoo \<Rightarrow> ZkError option \<Rightarrow> PartitionManager \<Rightarrow> LeaderElection \<Rightarrow>
     PartitionManager \<times> LeaderElection \<times> Effect list" where
  "reinit_after_loss cfg zk epoch_path_outcome pm le =
     (case register_member cfg zk of
        (fx1, Some _) \<Rightarrow> (pm, le, fx1)
      | (fx1, None) \<Rightarrow>
          (let fx2 = fx1 @ [EnsurePath (my_assignment_path cfg)]
           in case zk_ensure_path zk (my_assignment_path cfg) of
                Some _ \<Rightarrow> (pm, le, fx2)
              | None \<Rightarrow>
                  (let (pm1, fx3) = register_watches pm;
                       (pm2, fx4) = refresh_assignment_from_zk cfg zk pm1
                   in (pm2, fst (restart_after_loss epoch_path_outcome le), fx2 @ fx3 @ fx4))))"

definition on_zk_state_change ::
  "PmConfig \<Rightarrow> kazoo \<Rightarrow> ZkError option \<Rightarrow> KazooState \<Rightarrow> PartitionManager \<Rightarrow> LeaderElection \<Rightarrow>
     PartitionManager \<times> LeaderElection \<times> Effect list" where
  "on_zk_state_change cfg zk epoch_path_outcome state pm le =
     (case state of
        SUSPENDED \<Rightarrow> (pm, le, scheduler_call cfg PauseAllJobs)
      | LOST \<Rightarrow>
          (pm\<lparr>session_lost := True, known_epoch := 0, known_assigned_at := 0, assigned_processes := []\<rparr>,
           le, scheduler_call cfg PauseAllJobs)
      | CONNECTED \<Rightarrow>
          (let (pm1, le1, fx1) =
                 (if session_lost pm
                  then (case reinit_after_loss cfg zk epoch_path_outcome pm le of
                          (pm', le', fx) \<Rightarrow> (pm'\<lparr>session_lost := False\<rparr>, le', fx))
                  else (pm, le, []))
           in (pm1, le1, fx1 @ scheduler_call cfg (ResumeJobsFor (assigned_processes pm1)))))"

definition partition_start ::
  "PmConfig \<Rightarrow> kazoo \<Rightarrow> PartitionManager \<Rightarrow> PartitionManager \<times> Effect list \<times> ZkError option" where
  "partition_start cfg zk pm =
     (case zk_ensure_path zk (members_path cfg) of
        Some e \<Rightarrow> (pm, [EnsurePath (members_path cfg)], Some e)
      | None \<Rightarrow>
          (let fx = [EnsurePath (members_path cfg), EnsurePath (assignments_path cfg)]
           in case zk_ensure_path zk (assignments_path cfg) of
                Some e \<Rightarrow> (pm, fx, Some e)
              | None \<Rightarrow>
                  (case register_member cfg zk of
                     (fx1, Some e) \<Rightarrow> (pm, fx @ fx1, Some e)
                   | (fx1, None) \<Rightarrow>
                       (let fx2 = fx @ fx1 @ [EnsurePath (my_assignment_path cfg)]
                        in case zk_ensure_path zk (my_assignment_path cfg) of
                             Some e \<Rightarrow> (pm, fx2, Some e)
                           | None \<Rightarrow>
                               (let (pm1, fx3) = register_watches pm;
                                    (pm2, fx4) = refresh_assignment_from_zk cfg zk pm1
                                in (pm2, fx2 @ fx3 @ fx4, None))))))"

definition partition_stop :: "PartitionManager \<Rightarrow> PartitionManager" where
  "partition_stop pm = pm\<lparr>redistribution_task := False, redistribute_retry_task := None\<rparr>"

subsection \<open>Redistribution by the leader\<close>

definition assignment_node :: "PmConfig \<Rightarrow> string \<Rightarrow> string" where
  "assignment_node cfg inst = assignments_path cfg @ ''/'' @ inst"

definition assignment_writes ::
  "PmConfig \<Rightarrow> int \<Rightarrow> real \<Rightarrow> (string, string list) dict \<Rightarrow> (string \<times> Payload) list" where
  "assignment_writes cfg ep timestamp assignments =
     map (\<lambda>(inst, procs). (assignment_node cfg inst, AssignmentPayload ep timestamp procs)) assignments"

text \<open>
  The body of the \<open>try\<close> block: the calls made and the exception it ends with, if any. A failed
  \<open>ensure_path\<close> is only logged; one failed operation of the transaction fails the whole.
\<close>

definition write_assignments ::
  "PmConfig \<Rightarrow> kazoo \<Rightarrow> ZkError + string list \<Rightarrow> int \<Rightarrow> real \<Rightarrow> string list \<Rightarrow>
     Effect list \<times> ZkError option" where
  "write_assignments cfg zk processes_outcome ep timestamp instances =
     (case processes_outcome of
        Inl e \<Rightarrow> ([], Some e)
      | Inr procs \<Rightarrow>
          (let assignments = compute_assignments instances procs;
               paths = map (\<lambda>(inst, _). assignment_node cfg inst) assignments;
               ensured = map EnsurePath paths;
               writes = assignment_writes cfg ep timestamp assignments
           in if \<exists>p\<in>set paths. zk_ensure_path zk p = Some Cancelled then (ensured, Some Cancelled)
              else (ensured @ [SetAssignments writes],
                    case zk_commit zk writes of
                      Inl e \<Rightarrow> Some e
                    | Inr results \<Rightarrow>
                        if list_all (\<lambda>r. r = None) results then None
                        else Some (OtherError ''redistribute_transaction_op_failed''))))"

definition cleanup_orphan_assignments :: "PmConfig \<Rightarrow> kazoo \<Rightarrow> string list \<Rightarrow> Effect list" where
  "cleanup_orphan_assignments cfg zk live_instances =
     (case zk_get_children zk (assignments_path cfg) of
        Inl _ \<Rightarrow> []
      | Inr existing \<Rightarrow>
          map (\<lambda>orphan. DeleteNode (assignment_node cfg orphan))
            (filter (\<lambda>name. name \<notin> set live_instances) existing))"

text \<open>
  \<open>_do_redistribute\<close>. \<open>in_retry\<close> says that the running task is the stored retry task itself: on
  success it then cancels itself, and the cancellation is delivered at the first suspension
  point, inside the clean-up, before any node is deleted.
\<close>

definition do_redistribute ::
  "PmConfig \<Rightarrow> kazoo \<Rightarrow> bool \<Rightarrow> ZkError + string list \<Rightarrow> int \<Rightarrow> real \<Rightarrow> string list \<Rightarrow> PartitionManager \<Rightarrow>
     PartitionManager \<times> Effect list \<times> ZkError option" where
  "do_redistribute cfg zk in_retry processes_outcome ep timestamp instances pm =
     (case write_assignments cfg zk processes_outcome ep timestamp instances of
        (fx, Some Cancelled) \<Rightarrow>
          (pm\<lparr>redistribute_retry_task := (if in_retry then None else redistribute_retry_task pm)\<rparr>,
           fx, Some Cancelled)
      | (fx, Some e) \<Rightarrow>
          (let attempt = redistribute_attempt pm + 1;
               pm1 = pm\<lparr>redistribute_attempt := attempt\<rparr>
           in if attempt < REDISTRIBUTE_MAX_ATTEMPTS
              then (pm1\<lparr>redistribute_retry_task := Some (instances, attempt)\<rparr>, fx, None)
              else (pm1\<lparr>redistribute_unhealthy := True,
                       redistribute_retry_task := (if in_retry then None else redistribute_retry_task pm)\<rparr>,
                    fx, None))
      | (fx, None) \<Rightarrow>
          (let pm1 = pm\<lparr>redistribute_attempt := 0, redistribute_unhealthy := False,
                       redistribute_retry_task := None\<rparr>
           in if in_retry then (pm1, fx, Some Cancelled)
              else (pm1, fx @ cleanup_orphan_assignments cfg zk instances, None)))"

definition handle_membership_change :: "LeaderElection \<Rightarrow> PartitionManager \<Rightarrow> PartitionManager" where
  "handle_membership_change le pm =
     (if \<not> is_leader le then pm else pm\<lparr>redistribution_task := True\<rparr>)"

definition members_cb ::
  "nat \<Rightarrow> bool \<Rightarrow> LeaderElection \<Rightarrow> PartitionManager \<Rightarrow> PartitionManager" where
  "members_cb registered loop_open le pm =
     (if registered \<noteq> watch_epoch pm then pm
      else if \<not> loop_open then pm
      else handle_membership_change le pm)"

text \<open>The debounce elapses: what runs if the pending task was not replaced or cancelled.\<close>

definition debounced_redistribute ::
  "PmConfig \<Rightarrow> kazoo \<Rightarrow> ZkError + string list \<Rightarrow> real \<Rightarrow> LeaderElection \<Rightarrow> PartitionManager \<Rightarrow>
     PartitionManager \<times> Effect list \<times> ZkError option" where
  "debounced_redistribute cfg zk processes_outcome timestamp le pm =
     (if \<not> redistribution_task pm then (pm, [], None)
      else let pm1 = pm\<lparr>redistribution_task := False\<rparr>
           in if \<not> is_leader le then (pm1, [], None)
              else (case zk_get_children zk (members_path cfg) of
                      Inl e \<Rightarrow> (pm1, [], if e = Cancelled then None else Some e)
                    | Inr current \<Rightarrow>
                        (case do_redistribute cfg zk False processes_outcome (epoch le) timestamp current pm1 of
                           (pm2, fx, e) \<Rightarrow> (pm2, fx, if e = Some Cancelled then None else e))))"

definition on_become_leader ::
  "PmConfig \<Rightarrow> kazoo \<Rightarrow> ZkError + string list \<Rightarrow> real \<Rightarrow> LeaderElection \<Rightarrow> PartitionManager \<Rightarrow>
     PartitionManager \<times> Effect list \<times> ZkError option" where
  "on_become_leader cfg zk processes_outcome timestamp le pm =
     (case zk_get_children zk (members_path cfg) of
        Inl e \<Rightarrow> (pm, [], Some e)
      | Inr members \<Rightarrow> do_redistribute cfg zk False processes_outcome (epoch le) timestamp members pm)"

definition retry_delay :: "nat \<Rightarrow> real" where
  "retry_delay attempt = min 30 (2 ^ attempt)"

text \<open>The backoff elapses: what the stored retry task does next.\<close>

definition retry_redistribute ::
  "PmConfig \<Rightarrow> kazoo \<Rightarrow> ZkError + string list \<Rightarrow> real \<Rightarrow> LeaderElection \<Rightarrow> PartitionManager \<Rightarrow>
     PartitionManager \<times> Effect list \<times> ZkError option" where
  "retry_redistribute cfg zk processes_outcome timestamp le pm =
     (case redistribute_retry_task pm of
        None \<Rightarrow> (pm, [], None)
      | Some (instances, attempt) \<Rightarrow>
          if \<not> is_leader le then (pm\<lparr>redistribute_retry_task := None\<rparr>, [], None)
          else do_redistribute cfg zk True processes_outcome (epoch le) timestamp instances pm)"

subsection \<open>A register in which the greatest stamp wins\<close>

locale stamped_register =
  fixes stamp :: "'s \<Rightarrow> 'k::linorder"
    and content :: "'s \<Rightarrow> 'v"
    and key :: "'d \<Rightarrow> 'k option"
    and payload :: "'d \<Rightarrow> 'v"
    and put :: "'d \<Rightarrow> 's \<Rightarrow> 's"
  assumes put_fresh: "key d = Some k \<Longrightarrow> stamp s < k \<Longrightarrow> stamp (put d s) = k \<and> content (put d s) = payload d"
    and put_stale: "key d = Some k \<Longrightarrow> k \<le> stamp s \<Longrightarrow> put d s = s"
    and put_unkeyed: "key d = None \<Longrightarrow> put d s = s"
begin

lemma stamp_put: "stamp (put d s) = (case key d of None \<Rightarrow> stamp s | Some k \<Rightarrow> max (stamp s) k)"
  by (cases "key d"; cases "stamp s < the (key d)")
     (auto simp: put_fresh put_stale put_unkeyed max_def)

lemma put_monotone: "stamp s \<le> stamp (put d s)"
  by (auto simp: stamp_put split: option.splits)

lemma stamp_fold_ge: "stamp s \<le> stamp (fold put ds s)"
  by (induction ds arbitrary: s) (auto intro: order_trans put_monotone)

lemma stamp_fold_bound: "d \<in> set ds \<Longrightarrow> key d = Some k \<Longrightarrow> k \<le> stamp (fold put ds s)"
proof (induction ds arbitrary: s)
  case (Cons a ds)
  show ?case
  proof (cases "d = a")
    case True
    with Cons.prems have "k \<le> stamp (put a s)" by (simp add: stamp_put)
    then show ?thesis using stamp_fold_ge [of "put a s" ds] by simp
  qed (use Cons in auto)
qed simp

lemma fold_origin:
  "stamp (fold put ds s) = stamp s \<and> content (fold put ds s) = content s \<or>
   (\<exists>d\<in>set ds. key d = Some (stamp (fold put ds s)) \<and> content (fold put ds s) = payload d)"
proof (induction ds rule: rev_induct)
  case (snoc d ds)
  let ?t = "fold put ds s"
  show ?case
  proof (cases "\<exists>k. key d = Some k \<and> stamp ?t < k")
    case True
    then have "key d = Some (stamp (put d ?t)) \<and> content (put d ?t) = payload d"
      using put_fresh by auto
    then show ?thesis by auto
  next
    case False
    then have "put d ?t = ?t"
      by (cases "key d") (auto simp: put_unkeyed intro: put_stale)
    with snoc show ?thesis by auto
  qed
qed simp

lemma fold_unkeyed: "(\<And>d. d \<in> set ds \<Longrightarrow> key d = None) \<Longrightarrow> fold put ds s = s"
  by (induction ds) (auto simp: put_unkeyed)

text \<open>The order of delivery, and repetition, do not matter once equal stamps carry equal contents.\<close>

lemma fold_order_irrelevant:
  assumes "set ds = set ds'"
    and same: "\<And>d d' k. d \<in> set ds \<Longrightarrow> d' \<in> set ds \<Longrightarrow> key d = Some k \<Longrightarrow> key d' = Some k \<Longrightarrow> payload d = payload d'"
    and newer: "\<And>d k. d \<in> set ds \<Longrightarrow> key d = Some k \<Longrightarrow> stamp s < k"
  shows "stamp (fold put ds s) = stamp (fold put ds' s) \<and> content (fold put ds s) = content (fold put ds' s)"
proof -
  let ?a = "fold put ds s" and ?b = "fold put ds' s"
  have le: "stamp (fold put xs s) \<le> stamp (fold put ys s)" if "set xs = set ys" for xs ys
    using fold_origin [of xs s] stamp_fold_bound [of _ ys] stamp_fold_ge [of s ys] that by metis
  then have eq: "stamp ?a = stamp ?b" using assms(1) by (metis order_antisym)
  moreover have "content ?a = content ?b"
  proof (cases "\<exists>d\<in>set ds. key d \<noteq> None")
    case True
    then obtain d k where "d \<in> set ds" "key d = Some k" by auto
    then have "stamp s < stamp ?a"
      using newer stamp_fold_bound [of d ds k s] by (meson order_less_le_trans)
    then obtain d1 d2 where "d1 \<in> set ds" "key d1 = Some (stamp ?a)" "content ?a = payload d1"
      "d2 \<in> set ds'" "key d2 = Some (stamp ?b)" "content ?b = payload d2"
      using fold_origin [of ds s] fold_origin [of ds' s] eq by (metis order_less_irrefl)
    then show ?thesis using same eq assms(1) by metis
  next
    case False
    then have "fold put ds s = s" "fold put ds' s = s"
      using assms(1) by (auto intro: fold_unkeyed)
    then show ?thesis by simp
  qed
  ultimately show ?thesis by simp
qed

end

subsection \<open>The freshness guard\<close>

definition known_stamp :: "PartitionManager \<Rightarrow> int \<times> real" where
  "known_stamp pm = (known_epoch pm, known_assigned_at pm)"

definition payload_stamp :: "Payload \<Rightarrow> (int \<times> real) option" where
  "payload_stamp p =
     (case p of MalformedPayload \<Rightarrow> None | AssignmentPayload ep ts _ \<Rightarrow> Some (ep, ts))"

definition payload_processes :: "Payload \<Rightarrow> string list" where
  "payload_processes p = (case p of MalformedPayload \<Rightarrow> [] | AssignmentPayload _ _ ps \<Rightarrow> ps)"

definition deliver :: "PmConfig \<Rightarrow> Payload \<Rightarrow> PartitionManager \<Rightarrow> PartitionManager" where
  "deliver cfg p pm = fst (apply_assignment cfg p pm)"

lemma apply_fresh:
  "known_stamp pm < (ep, ts) \<Longrightarrow>
     apply_assignment cfg (AssignmentPayload ep ts procs) pm =
       (pm\<lparr>known_epoch := ep, known_assigned_at := ts, assigned_processes := procs\<rparr>,
        scheduler_call cfg (ReloadJobs procs))"
  by (auto simp: apply_assignment_def known_stamp_def less_prod_def)

lemma apply_stale:
  "(ep, ts) \<le> known_stamp pm \<Longrightarrow> apply_assignment cfg (AssignmentPayload ep ts procs) pm = (pm, [])"
  by (auto simp: apply_assignment_def known_stamp_def less_eq_prod_def)

lemma apply_malformed [simp]: "apply_assignment cfg MalformedPayload pm = (pm, [])"
  by (simp add: apply_assignment_def)

interpretation assignment_register:
  stamped_register known_stamp assigned_processes payload_stamp payload_processes "deliver cfg" for cfg
proof
  fix d :: Payload and k :: "int \<times> real" and s :: PartitionManager
  show "known_stamp (deliver cfg d s) = k \<and> assigned_processes (deliver cfg d s) = payload_processes d"
    if "payload_stamp d = Some k" "known_stamp s < k"
    using that
    by (cases d) (auto simp: payload_stamp_def deliver_def apply_fresh payload_processes_def, simp add: known_stamp_def)
  show "deliver cfg d s = s" if "payload_stamp d = Some k" "k \<le> known_stamp s"
    using that by (cases d) (auto simp: payload_stamp_def deliver_def apply_stale)
  show "deliver cfg d s = s" if "payload_stamp d = None"
    using that by (cases d) (auto simp: payload_stamp_def deliver_def)
qed

text \<open>
  An assignment is applied exactly when its (epoch, timestamp) pair is lexicographically
  newer than the known one; it then becomes the known one and the scheduler is reloaded with its
  processes. Anything else leaves the state untouched and calls nothing.
\<close>
theorem apply_assignment_iff_newer:
  "apply_assignment cfg (AssignmentPayload ep ts procs) pm =
     (if (known_epoch pm, known_assigned_at pm) < (ep, ts)
      then (pm\<lparr>known_epoch := ep, known_assigned_at := ts, assigned_processes := procs\<rparr>,
            if has_scheduler cfg then [ReloadJobs procs] else [])
      else (pm, []))"
  using apply_fresh [of pm ep ts cfg procs] apply_stale [of ep ts pm cfg procs]
  by (auto simp: known_stamp_def scheduler_call_def not_less)

text \<open>
  Whatever the order, the repetition and the staleness of the assignments delivered to an
  instance, it ends with the one of the greatest stamp: two managers that received the same set
  of newer assignments agree, when no two of them with one stamp differ.
\<close>
theorem delivery_order_irrelevant:
  assumes "set ds = set ds'"
    and "\<And>d d' k. d \<in> set ds \<Longrightarrow> d' \<in> set ds \<Longrightarrow> payload_stamp d = Some k \<Longrightarrow> payload_stamp d' = Some k \<Longrightarrow>
           payload_processes d = payload_processes d'"
    and "\<And>d k. d \<in> set ds \<Longrightarrow> payload_stamp d = Some k \<Longrightarrow> known_stamp pm < k"
  shows "assigned_processes (fold (deliver cfg) ds pm) = assigned_processes (fold (deliver cfg) ds' pm) \<and>
     known_stamp (fold (deliver cfg) ds pm) = known_stamp (fold (deliver cfg) ds' pm)"
  by (subst conj_commute, rule assignment_register.fold_order_irrelevant) (use assms in blast)+

definition sample_cfg :: PmConfig where
  "sample_cfg = \<lparr>members_path = ''/rms/members'', assignments_path = ''/rms/assignments'',
     instance_id = ''pod-a'', has_scheduler = True\<rparr>"

theorem delivery_order_irrelevant_witness:
  "assigned_processes (fold (deliver sample_cfg)
       [AssignmentPayload 2 5 [''ETCH''], MalformedPayload, AssignmentPayload 1 9 [''PHOTO'']] new_PartitionManager) =
   assigned_processes (fold (deliver sample_cfg)
       [AssignmentPayload 1 9 [''PHOTO''], AssignmentPayload 2 5 [''ETCH''], MalformedPayload] new_PartitionManager)"
  by (rule delivery_order_irrelevant [THEN conjunct1])
     (auto simp: payload_stamp_def payload_processes_def known_stamp_def new_PartitionManager_def)

subsection \<open>Redistribution\<close>

lemmas redistribute_defs = do_redistribute_def write_assignments_def Let_def

lemma do_redistribute_failed:
  assumes "snd (write_assignments cfg zk po ep ts is) = Some e" "e \<noteq> Cancelled"
  shows "do_redistribute cfg zk r po ep ts is pm =
     (let attempt = redistribute_attempt pm + 1;
          pm1 = pm\<lparr>redistribute_attempt := attempt\<rparr>
      in if attempt < REDISTRIBUTE_MAX_ATTEMPTS
         then (pm1\<lparr>redistribute_retry_task := Some (is, attempt)\<rparr>, fst (write_assignments cfg zk po ep ts is), None)
         else (pm1\<lparr>redistribute_unhealthy := True,
                  redistribute_retry_task := (if r then None else redistribute_retry_task pm)\<rparr>,
               fst (write_assignments cfg zk po ep ts is), None))"
  using assms unfolding do_redistribute_def
  by (cases "write_assignments cfg zk po ep ts is"; cases e) (auto simp: Let_def)

lemma do_redistribute_ok:
  assumes "snd (write_assignments cfg zk po ep ts is) = None"
  shows "do_redistribute cfg zk r po ep ts is pm =
     (pm\<lparr>redistribute_attempt := 0, redistribute_unhealthy := False, redistribute_retry_task := None\<rparr>,
      fst (write_assignments cfg zk po ep ts is) @ (if r then [] else cleanup_orphan_assignments cfg zk is),
      if r then Some Cancelled else None)"
  using assms unfolding do_redistribute_def
  by (cases "write_assignments cfg zk po ep ts is") (auto simp: Let_def)

text \<open>
  A redistribution never stalls silently: one that fails (other than by cancellation) leaves
  a retry pending for the same instances with the attempt just counted, or the unhealthy flag
  raised, and it raises nothing itself; one that succeeds clears the counter and the flag.
\<close>
theorem redistribute_never_silent:
  "(case write_assignments cfg zk po ep ts is of
      (fx, None) \<Rightarrow>
        (case do_redistribute cfg zk r po ep ts is pm of
           (pm', _, _) \<Rightarrow> redistribute_attempt pm' = 0 \<and> \<not> redistribute_unhealthy pm' \<and>
             redistribute_retry_task pm' = None)
    | (fx, Some e) \<Rightarrow>
        e = Cancelled \<or>
        (case do_redistribute cfg zk r po ep ts is pm of
           (pm', _, raised) \<Rightarrow> raised = None \<and>
             redistribute_attempt pm' = redistribute_attempt pm + 1 \<and>
             (redistribute_retry_task pm' = Some (is, redistribute_attempt pm') \<or> redistribute_unhealthy pm')))"
proof (cases "write_assignments cfg zk po ep ts is")
  case (Pair fx e)
  show ?thesis
  proof (cases e)
    case None
    with Pair show ?thesis by (simp add: do_redistribute_ok)
  next
    case (Some x)
    with Pair do_redistribute_failed [of cfg zk po ep ts "is" x r pm] show ?thesis
      by (cases "Suc (redistribute_attempt pm) < REDISTRIBUTE_MAX_ATTEMPTS") (auto simp: Let_def)
  qed
qed

text \<open>Retries whose writes all fail, back to back, while the leadership is kept.\<close>

fun failing_retries ::
  "PmConfig \<Rightarrow> LeaderElection \<Rightarrow> (kazoo \<times> (ZkError + string list) \<times> real) list \<Rightarrow>
     PartitionManager \<Rightarrow> PartitionManager" where
  "failing_retries cfg le [] pm = pm"
| "failing_retries cfg le ((zk, po, ts) # rest) pm =
     failing_retries cfg le rest (fst (retry_redistribute cfg zk po ts le pm))"

definition write_fails ::
  "PmConfig \<Rightarrow> LeaderElection \<Rightarrow> string list \<Rightarrow> kazoo \<times> (ZkError + string list) \<times> real \<Rightarrow> bool" where
  "write_fails cfg le is env =
     (case env of (zk, po, ts) \<Rightarrow>
        (case snd (write_assignments cfg zk po (epoch le) ts is) of None \<Rightarrow> False | Some e \<Rightarrow> e \<noteq> Cancelled))"

lemma retry_fails:
  assumes "is_leader le" "redistribute_retry_task pm = Some (is, k)" "write_fails cfg le is (zk, po, ts)"
  shows "fst (retry_redistribute cfg zk po ts le pm) =
     (let attempt = redistribute_attempt pm + 1
      in if attempt < REDISTRIBUTE_MAX_ATTEMPTS
         then pm\<lparr>redistribute_attempt := attempt, redistribute_retry_task := Some (is, attempt)\<rparr>
         else pm\<lparr>redistribute_attempt := attempt, redistribute_unhealthy := True, redistribute_retry_task := None\<rparr>)"
proof -
  from assms(3) obtain e where "snd (write_assignments cfg zk po (epoch le) ts is) = Some e" "e \<noteq> Cancelled"
    by (auto simp: write_fails_def split: option.splits)
  from do_redistribute_failed [OF this] assms(1,2) show ?thesis
    by (simp add: retry_redistribute_def Let_def)
qed

text \<open>
  C30. Persistent failure is reported after exactly five attempts: starting with one failed attempt
  and its retry pending, failing retries keep a retry pending and the flag unchanged until the
  fifth attempt, which raises the unhealthy flag and schedules nothing more.
\<close>
theorem retries_give_up_at_five:
  assumes "is_leader le"
    and "redistribute_retry_task pm = Some (is, redistribute_attempt pm)"
    and "1 \<le> redistribute_attempt pm" "redistribute_attempt pm + length rs \<le> 5"
    and "list_all (write_fails cfg le is) rs"
  shows "(let pm' = failing_retries cfg le rs pm
     in redistribute_attempt pm' = redistribute_attempt pm + length rs \<and>
        (if redistribute_attempt pm' < 5 \<or> rs = []
         then redistribute_retry_task pm' = Some (is, redistribute_attempt pm') \<and>
              redistribute_unhealthy pm' = redistribute_unhealthy pm
         else redistribute_retry_task pm' = None \<and> redistribute_unhealthy pm'))"
  using assms(2-)
proof (induction rs arbitrary: pm)
  case (Cons env rs)
  obtain zk po ts where env: "env = (zk, po, ts)" by (cases env) auto
  let ?pm = "fst (retry_redistribute cfg zk po ts le pm)"
  from Cons.prems env have step: "?pm =
     (if redistribute_attempt pm + 1 < 5
      then pm\<lparr>redistribute_attempt := redistribute_attempt pm + 1,
             redistribute_retry_task := Some (is, redistribute_attempt pm + 1)\<rparr>
      else pm\<lparr>redistribute_attempt := redistribute_attempt pm + 1, redistribute_unhealthy := True,
             redistribute_retry_task := None\<rparr>)"
    using retry_fails [OF assms(1) Cons.prems(1), of cfg zk po ts]
    by (simp add: REDISTRIBUTE_MAX_ATTEMPTS_def Let_def)
  show ?case
  proof (cases "redistribute_attempt pm + 1 < 5")
    case True
    with step Cons.IH [of ?pm] Cons.prems show ?thesis
      by (cases "rs = []") (auto simp: env Let_def)
  next
    case False
    with Cons.prems have "rs = []" by (cases rs) auto
    with False step Cons.prems show ?thesis by (simp add: env Let_def)
  qed
qed (simp add: Let_def)

definition dead_zk :: kazoo where
  "dead_zk = \<lparr>zk_create = (\<lambda>_. Some ConnectionClosedError), zk_ensure_path = (\<lambda>_. Some ConnectionClosedError),
     zk_get = (\<lambda>_. Inl ConnectionClosedError), zk_get_children = (\<lambda>_. Inl ConnectionClosedError),
     zk_commit = (\<lambda>_. Inl ConnectionClosedError), zk_delete = (\<lambda>_. Some ConnectionClosedError)\<rparr>"

theorem retries_give_up_at_five_witness:
  "redistribute_unhealthy
     (failing_retries sample_cfg (new_LeaderElection\<lparr>is_leader := True\<rparr>)
        (replicate 4 (dead_zk, Inl (OtherError ''mongo''), 0))
        (new_PartitionManager\<lparr>redistribute_attempt := 1, redistribute_retry_task := Some ([''pod-a''], 1)\<rparr>))"
proof -
  let ?pm = "new_PartitionManager\<lparr>redistribute_attempt := 1, redistribute_retry_task := Some ([''pod-a''], 1)\<rparr>"
  let ?rs = "replicate 4 (dead_zk, Inl (OtherError ''mongo'') :: ZkError + string list, 0 :: real)"
  let ?le = "new_LeaderElection\<lparr>is_leader := True\<rparr>"
  have "list_all (write_fails sample_cfg ?le [''pod-a'']) ?rs"
    by (simp add: list_all_iff write_fails_def write_assignments_def)
  then show ?thesis
    using retries_give_up_at_five [of ?le ?pm "[''pod-a'']" ?rs sample_cfg]
    by (simp add: Let_def)
qed

text \<open>
  What a successful redistribution writes: for every live instance its own node receives the
  leader's epoch, one common timestamp and the instance's share, in one transaction.
\<close>
theorem redistribute_writes_shares:
  assumes "snd (write_assignments cfg zk (Inr ps) ep ts is) = None" "distinct is" "i \<in> set is"
  shows "\<exists>writes. SetAssignments writes \<in> set (fst (write_assignments cfg zk (Inr ps) ep ts is)) \<and>
     (assignment_node cfg i, AssignmentPayload ep ts (owned (compute_assignments is ps) i)) \<in> set writes \<and>
     map fst writes = map (assignment_node cfg) (sort is)"
proof -
  let ?a = "compute_assignments is ps"
  have "map_of ?a i \<noteq> None"
    using keys_compute_assignments [OF assms(2), of ps] assms(3)
    by (metis map_of_eq_None_iff set_map set_sort)
  then have "(i, owned ?a i) \<in> set ?a"
    by (auto simp: owned_def dict_get_def dest: map_of_SomeD)
  then have "(assignment_node cfg i, AssignmentPayload ep ts (owned ?a i)) \<in> set (assignment_writes cfg ep ts ?a)"
    by (force simp: assignment_writes_def)
  moreover have "map fst (assignment_writes cfg ep ts ?a) = map (assignment_node cfg) (sort is)"
    by (simp add: assignment_writes_def split_def comp_def flip: keys_compute_assignments [OF assms(2), of ps])
  moreover have "SetAssignments (assignment_writes cfg ep ts ?a) \<in> set (fst (write_assignments cfg zk (Inr ps) ep ts is))"
    using assms(1) by (auto simp: write_assignments_def Let_def split: if_splits)
  ultimately show ?thesis by blast
qed

definition quiet_zk :: kazoo where
  "quiet_zk = \<lparr>zk_create = (\<lambda>_. None), zk_ensure_path = (\<lambda>_. None), zk_get = (\<lambda>_. Inr EmptyData),
     zk_get_children = (\<lambda>_. Inr [''pod-a'', ''pod-old'']),
     zk_commit = (\<lambda>ws. Inr (map (\<lambda>_. None) ws)), zk_delete = (\<lambda>_. None)\<rparr>"

lemma quiet_write_ok: "snd (write_assignments cfg quiet_zk (Inr ps) ep ts is) = None"
  by (simp add: write_assignments_def quiet_zk_def Let_def list_all_iff)

theorem redistribute_writes_shares_witness:
  "\<exists>writes. SetAssignments writes \<in> set (fst (write_assignments sample_cfg quiet_zk (Inr [''ETCH'']) 1 7 [''pod-a''])) \<and>
     (assignment_node sample_cfg ''pod-a'', AssignmentPayload 1 7 (owned (compute_assignments [''pod-a''] [''ETCH'']) ''pod-a'')) \<in> set writes"
  using redistribute_writes_shares [OF quiet_write_ok, of "[''pod-a'']" "''pod-a''" sample_cfg "[''ETCH'']" 1 7]
  by auto

subsection \<open>Garbage collection of assignment nodes\<close>

lemma assignment_node_inj [simp]: "assignment_node cfg a = assignment_node cfg b \<longleftrightarrow> a = b"
  by (simp add: assignment_node_def)

lemma cleanup_deletes:
  assumes "zk_get_children zk (assignments_path cfg) = Inr existing"
  shows "DeleteNode (assignment_node cfg name) \<in> set (cleanup_orphan_assignments cfg zk live) \<longleftrightarrow>
     name \<in> set existing \<and> name \<notin> set live"
  using assms by (auto simp: cleanup_orphan_assignments_def)

lemma write_no_delete: "DeleteNode p \<notin> set (fst (write_assignments cfg zk po ep ts is))"
  by (auto simp: write_assignments_def Let_def split: sum.splits)

text \<open>
  A redistribution deletes assignment nodes only after its transaction committed, never that
  of a live instance, and (outside a retry) exactly those of the departed instances.
\<close>
theorem cleanup_only_orphans:
  assumes "zk_get_children zk (assignments_path cfg) = Inr existing"
  shows "DeleteNode (assignment_node cfg name) \<in> set (fst (snd (do_redistribute cfg zk r po ep ts is pm))) \<longleftrightarrow>
     \<not> r \<and> snd (write_assignments cfg zk po ep ts is) = None \<and> name \<in> set existing \<and> name \<notin> set is"
proof (cases "snd (write_assignments cfg zk po ep ts is)")
  case None
  then show ?thesis
    by (auto simp: do_redistribute_ok cleanup_deletes [OF assms] write_no_delete)
next
  case (Some e)
  have "fst (snd (do_redistribute cfg zk r po ep ts is pm)) = fst (write_assignments cfg zk po ep ts is)"
    using Some by (cases "write_assignments cfg zk po ep ts is"; cases e) (simp_all add: do_redistribute_def Let_def)
  with Some show ?thesis by (simp add: write_no_delete)
qed

theorem cleanup_only_orphans_witness:
  "DeleteNode (assignment_node sample_cfg ''pod-old'') \<in>
     set (fst (snd (do_redistribute sample_cfg quiet_zk False (Inr [''ETCH'']) 1 7 [''pod-a''] new_PartitionManager)))"
proof -
  have "zk_get_children quiet_zk (assignments_path sample_cfg) = Inr [''pod-a'', ''pod-old'']"
    by (simp add: quiet_zk_def)
  from cleanup_only_orphans [OF this, of "''pod-old''" False "Inr [''ETCH'']" 1 7 "[''pod-a'']" new_PartitionManager]
  show ?thesis by (simp add: quiet_write_ok)
qed

text \<open>
  A retry that succeeds cancels the task it runs in: the state is cleared and the assignments
  are written, but no departed instance's node is deleted and the task ends cancelled.
\<close>
theorem successful_retry_skips_cleanup:
  assumes "is_leader le" "redistribute_retry_task pm = Some (is, k)"
    and "snd (write_assignments cfg zk po (epoch le) ts is) = None"
  shows "retry_redistribute cfg zk po ts le pm =
     (pm\<lparr>redistribute_attempt := 0, redistribute_unhealthy := False, redistribute_retry_task := None\<rparr>,
      fst (write_assignments cfg zk po (epoch le) ts is), Some Cancelled)"
  using assms by (simp add: retry_redistribute_def do_redistribute_ok)

theorem successful_retry_skips_cleanup_witness:
  "snd (snd (retry_redistribute sample_cfg quiet_zk (Inr [''ETCH'']) 7 (new_LeaderElection\<lparr>is_leader := True\<rparr>)
      (new_PartitionManager\<lparr>redistribute_attempt := 1, redistribute_retry_task := Some ([''pod-a''], 1)\<rparr>))) = Some Cancelled"
  using successful_retry_skips_cleanup [of "new_LeaderElection\<lparr>is_leader := True\<rparr>"
      "new_PartitionManager\<lparr>redistribute_attempt := 1, redistribute_retry_task := Some ([''pod-a''], 1)\<rparr>"
      "[''pod-a'']" 1 sample_cfg quiet_zk "Inr [''ETCH'']" 7]
  by (simp add: quiet_write_ok)

subsection \<open>Session loss and recovery\<close>

lemma apply_session [simp]:
  "session_lost (fst (apply_assignment cfg p pm)) = session_lost pm"
  "watch_epoch (fst (apply_assignment cfg p pm)) = watch_epoch pm"
  by (auto simp: apply_assignment_def split: Payload.splits)

lemma refresh_session [simp]:
  "session_lost (fst (refresh_assignment_from_zk cfg zk pm)) = session_lost pm"
  "watch_epoch (fst (refresh_assignment_from_zk cfg zk pm)) = watch_epoch pm"
  by (auto simp: refresh_assignment_from_zk_def split: sum.splits NodeData.splits)

text \<open>
  A lost session drops every process and pauses every job, and forgets the stamp so that the
  next assignment is accepted; a suspended one pauses and forgets nothing.
\<close>
theorem session_loss_stops_work:
  assumes "has_scheduler cfg"
  shows "(case on_zk_state_change cfg zk x LOST pm le of
      (pm', le', fx) \<Rightarrow> assigned_processes pm' = [] \<and> known_stamp pm' = (0, 0) \<and> session_lost pm' \<and>
        fx = [PauseAllJobs] \<and> le' = le) \<and>
    on_zk_state_change cfg zk x SUSPENDED pm le = (pm, le, [PauseAllJobs])"
  using assms by (simp add: on_zk_state_change_def known_stamp_def scheduler_call_def)

theorem session_loss_stops_work_witness:
  "assigned_processes (fst (on_zk_state_change sample_cfg dead_zk None LOST
      (new_PartitionManager\<lparr>assigned_processes := [''ETCH'']\<rparr>) new_LeaderElection)) = []"
  using session_loss_stops_work [where cfg = sample_cfg and zk = dead_zk and x = None and le = new_LeaderElection
      and pm = "new_PartitionManager\<lparr>assigned_processes := [''ETCH'']\<rparr>"]
  by (simp add: sample_cfg_def split: prod.splits)

lemma register_member_ok:
  "zk_create zk (members_path cfg @ ''/'' @ instance_id cfg) \<in> {None, Some NodeExistsError} \<Longrightarrow>
     register_member cfg zk = ([CreateMember (members_path cfg @ ''/'' @ instance_id cfg)], None)"
  by (auto simp: register_member_def)

lemma reinit_ok:
  assumes "zk_create zk (members_path cfg @ ''/'' @ instance_id cfg) \<in> {None, Some NodeExistsError}"
    and "zk_ensure_path zk (my_assignment_path cfg) = None"
  shows "reinit_after_loss cfg zk x pm le =
     (let pm1 = pm\<lparr>watch_epoch := watch_epoch pm + 1\<rparr>
      in (fst (refresh_assignment_from_zk cfg zk pm1), fst (restart_after_loss x le),
          [CreateMember (members_path cfg @ ''/'' @ instance_id cfg), EnsurePath (my_assignment_path cfg),
           RegisterWatches (watch_epoch pm1)] @ snd (refresh_assignment_from_zk cfg zk pm1)))"
  using assms
  by (simp add: reinit_after_loss_def register_member_ok register_watches_def Let_def split: prod.splits)

text \<open>
  Reconnecting after a loss with a working ZooKeeper re-registers the member, supersedes the
  old watches, takes the assignment now in ZooKeeper (whatever its stamp, provided its epoch is
  positive), restarts the election as a follower, and resumes exactly the assigned processes.
\<close>
theorem reconnect_recovers:
  assumes "zk_create zk (members_path cfg @ ''/'' @ instance_id cfg) \<in> {None, Some NodeExistsError}"
    and "zk_ensure_path zk (my_assignment_path cfg) = None"
    and "zk_get zk (my_assignment_path cfg) = Inr (JsonData (AssignmentPayload ep ts procs))"
    and "0 < ep" "known_stamp pm = (0, 0)" "session_lost pm" "has_scheduler cfg" "\<not> stopped le"
  shows "case on_zk_state_change cfg zk None CONNECTED pm le of
      (pm', le', fx) \<Rightarrow>
        assigned_processes pm' = procs \<and> known_stamp pm' = (ep, ts) \<and> \<not> session_lost pm' \<and>
        watch_epoch pm' = watch_epoch pm + 1 \<and> election_running le' \<and> \<not> is_leader le' \<and>
        last fx = ResumeJobsFor procs \<and> ReloadJobs procs \<in> set fx \<and>
        CreateMember (members_path cfg @ ''/'' @ instance_id cfg) \<in> set fx"
proof -
  let ?pm1 = "pm\<lparr>watch_epoch := watch_epoch pm + 1\<rparr>"
  have "known_stamp ?pm1 < (ep, ts)"
    using assms(4,5) by (simp add: known_stamp_def)
  then have "refresh_assignment_from_zk cfg zk ?pm1 =
      (?pm1\<lparr>known_epoch := ep, known_assigned_at := ts, assigned_processes := procs\<rparr>, [ReloadJobs procs])"
    using assms(3,7) by (simp add: refresh_assignment_from_zk_def apply_fresh scheduler_call_def)
  with assms reinit_ok [OF assms(1,2), of None pm le] show ?thesis
    by (simp add: on_zk_state_change_def known_stamp_def scheduler_call_def
        restart_after_loss_def start_election_run_def)
qed

theorem reconnect_recovers_witness:
  "assigned_processes (fst (on_zk_state_change sample_cfg
      (quiet_zk\<lparr>zk_get := (\<lambda>_. Inr (JsonData (AssignmentPayload 3 7 [''ETCH'']))) \<rparr>) None CONNECTED
      (new_PartitionManager\<lparr>session_lost := True\<rparr>) new_LeaderElection)) = [''ETCH'']"
  using reconnect_recovers [where cfg = sample_cfg and ep = 3 and ts = 7 and procs = "[''ETCH'']"
      and zk = "quiet_zk\<lparr>zk_get := (\<lambda>_. Inr (JsonData (AssignmentPayload 3 7 [''ETCH'']))) \<rparr>"
      and pm = "new_PartitionManager\<lparr>session_lost := True\<rparr>" and le = new_LeaderElection]
  by (simp add: quiet_zk_def sample_cfg_def known_stamp_def new_PartitionManager_def new_LeaderElection_def
      split: prod.splits)

text \<open>
  When the re-initialisation fails at its first step, the failure is swallowed: the session is
  marked recovered although no watch is registered and the election is not restarted, so the
  instance keeps no process and a further connected event repeats none of it.
\<close>
theorem failed_reinit_not_retried:
  assumes "zk_create zk (members_path cfg @ ''/'' @ instance_id cfg) = Some e" "e \<noteq> NodeExistsError"
    and "session_lost pm" "assigned_processes pm = []"
  shows "case on_zk_state_change cfg zk x CONNECTED pm le of
      (pm', le', _) \<Rightarrow>
        pm' = pm\<lparr>session_lost := False\<rparr> \<and> le' = le \<and>
        (\<forall>zk' x'. on_zk_state_change cfg zk' x' CONNECTED pm' le' =
            (pm', le', scheduler_call cfg (ResumeJobsFor [])))"
proof -
  have "snd (register_member cfg zk) = Some e"
    using assms(1,2) by (cases e) (simp_all add: register_member_def)
  then have "reinit_after_loss cfg zk x pm le = (pm, le, fst (register_member cfg zk))"
    by (cases "register_member cfg zk") (simp add: reinit_after_loss_def)
  with assms(3,4) show ?thesis
    by (simp add: on_zk_state_change_def)
qed

theorem failed_reinit_not_retried_witness:
  "\<not> session_lost (fst (on_zk_state_change sample_cfg dead_zk None CONNECTED
      (new_PartitionManager\<lparr>session_lost := True\<rparr>) new_LeaderElection))"
  using failed_reinit_not_retried [where cfg = sample_cfg and zk = dead_zk and e = ConnectionClosedError
      and pm = "new_PartitionManager\<lparr>session_lost := True\<rparr>" and x = None and le = new_LeaderElection]
  by (simp add: dead_zk_def new_PartitionManager_def split: prod.splits)

text \<open>
  Registering the watches again turns every callback of an earlier registration into a no-op,
  on assignments and on membership alike.
\<close>
theorem stale_watch_is_inert:
  assumes "registered \<le> watch_epoch pm"
  shows "(let pm' = fst (register_watches pm)
     in assignment_cb cfg registered lo d pm' = (pm', []) \<and> members_cb registered lo le pm' = pm')"
  using assms by (simp add: register_watches_def assignment_cb_def members_cb_def Let_def)

theorem stale_watch_is_inert_witness:
  "assignment_cb sample_cfg 0 True (JsonData (AssignmentPayload 1 1 [''ETCH''])) (fst (register_watches new_PartitionManager)) =
     (fst (register_watches new_PartitionManager), [])"
  using stale_watch_is_inert [of 0 new_PartitionManager sample_cfg True] by (simp add: Let_def new_PartitionManager_def)

end
