(* ===== verification/Reachability.thy ===== *)
theory Reachability
  imports Main
begin

text \<open>
  States reachable by a step relation, and the interface of an inductive invariant: an invariant
  that holds initially and is kept by every step holds in every reachable state. A relative
  invariant may use an established one in its preservation proof.
\<close>

inductive reachable :: "('s \<Rightarrow> bool) \<Rightarrow> ('s \<Rightarrow> 's \<Rightarrow> bool) \<Rightarrow> 's \<Rightarrow> bool"
  for init :: "'s \<Rightarrow> bool" and step :: "'s \<Rightarrow> 's \<Rightarrow> bool" where
  reachable_init: "init s \<Longrightarrow> reachable init step s"
| reachable_step: "reachable init step s \<Longrightarrow> step s t \<Longrightarrow> reachable init step t"

locale inductive_invariant =
  fixes init :: "'s \<Rightarrow> bool" and step :: "'s \<Rightarrow> 's \<Rightarrow> bool" and inv :: "'s \<Rightarrow> bool"
  assumes base: "init s \<Longrightarrow> inv s"
    and preserved: "inv s \<Longrightarrow> step s t \<Longrightarrow> inv t"
begin

lemma holds: "reachable init step s \<Longrightarrow> inv s"
  by (induction rule: reachable.induct) (auto intro: base preserved)

end

locale relative_invariant = inductive_invariant +
  fixes inv2 :: "'a \<Rightarrow> bool"
  assumes base2: "init s \<Longrightarrow> inv2 s"
    and preserved2: "inv s \<Longrightarrow> inv2 s \<Longrightarrow> step s t \<Longrightarrow> inv2 t"
begin

lemma both: "reachable init step s \<Longrightarrow> inv s \<and> inv2 s"
  by (induction rule: reachable.induct) (auto intro: base base2 preserved preserved2)

end

sublocale relative_invariant \<subseteq> conjunction: inductive_invariant init step "\<lambda>s. inv s \<and> inv2 s"
  by unfold_locales (auto intro: base base2 preserved preserved2)

end
