(* ===== verification/Cluster.thy ===== *)
theory Cluster
  imports Partition Reachability
begin

text \<open>
  The instances together: every instance has its election participant and its partition manager;
  they share the epoch node and the assignments committed to ZooKeeper. A step is one handler of
  \<open>src/src/distributed/leader_election.py\<close> or \<open>src/src/distributed/partition_manager.py\<close> run by one
  instance; watches may deliver any committed assignment, in any order, any number of times.
\<close>

text \<open>A committed transaction: who wrote it, its stamp, and what it distributed over whom.\<close>

record Commit =
  writer :: string
  commit_epoch :: int
  commit_ts :: real
  commit_instances :: "string list"
  commit_processes :: "string list"

record Cluster =
  manager :: "string \<Rightarrow> PartitionManager"
  participant :: "string \<Rightarrow> LeaderElection"
  shared_epoch :: string
  commits :: "Commit list"

definition commit_stamp :: "Commit \<Rightarrow> int \<times> real" where
  "commit_stamp t = (commit_epoch t, commit_ts t)"

definition commit_share :: "Commit \<Rightarrow> string \<Rightarrow> string list" where
  "commit_share t i = owned (compute_assignments (commit_instances t) (commit_processes t)) i"

definition commit_payload :: "Commit \<Rightarrow> string \<Rightarrow> Payload" where
  "commit_payload t i = AssignmentPayload (commit_epoch t) (commit_ts t) (commit_share t i)"

definition node_may_hold :: "Cluster \<Rightarrow> string \<Rightarrow> NodeData \<Rightarrow> bool" where
  "node_may_hold c i d =
     (case d of JsonData p \<Rightarrow> p = MalformedPayload \<or> p \<in> set (map (\<lambda>t. commit_payload t i) (commits c))
      | _ \<Rightarrow> True)"

definition instance_cfg :: "string \<Rightarrow> PmConfig" where
  "instance_cfg i = sample_cfg\<lparr>instance_id := i\<rparr>"

definition cluster_init :: "Cluster \<Rightarrow> bool" where
  "cluster_init c =
     ((\<forall>i. manager c i = new_PartitionManager) \<and>
      (\<forall>i. participant c i = new_LeaderElection) \<and>
      (\<exists>n \<ge> 0. node_epoch (shared_epoch c) = Some n) \<and> commits c = [])"

inductive cluster_step :: "(string \<Rightarrow> PmConfig) \<Rightarrow> Cluster \<Rightarrow> Cluster \<Rightarrow> bool" for cfg where
  acquire:
    "r = on_become_leader_sync g w lo (shared_epoch c) (participant c i) \<Longrightarrow>
     cluster_step cfg c (c\<lparr>participant := (participant c)(i := after r), shared_epoch := epoch_node r\<rparr>)"
| handler_ends:
    "cluster_step cfg c (c\<lparr>participant := (participant c)(i := leader_handler_finally (participant c i))\<rparr>)"
| stop_participant:
    "cluster_step cfg c (c\<lparr>participant := (participant c)(i := leader_stop (participant c i))\<rparr>)"
| redistribute:
    "0 < epoch (participant c i) \<Longrightarrow> distinct is \<Longrightarrow> distinct ps \<Longrightarrow>
     (\<And>t. t \<in> set (commits c) \<Longrightarrow> writer t = i \<Longrightarrow> commit_ts t < ts) \<Longrightarrow>
     do_redistribute (cfg i) zk in_retry (Inr ps) (epoch (participant c i)) ts is (manager c i) = (pm', fx, e) \<Longrightarrow>
     (snd (write_assignments (cfg i) zk (Inr ps) (epoch (participant c i)) ts is) = None \<Longrightarrow> applied) \<Longrightarrow>
     cluster_step cfg c
       (c\<lparr>manager := (manager c)(i := pm'),
          commits := commits c @
            (if applied
             then [\<lparr>writer = i, commit_epoch = epoch (participant c i), commit_ts = ts,
                    commit_instances = is, commit_processes = ps\<rparr>]
             else [])\<rparr>)"
| watch_fires:
    "node_may_hold c i d \<Longrightarrow>
     cluster_step cfg c
       (c\<lparr>manager := (manager c)(i := fst (assignment_cb (cfg i) registered lo d (manager c i)))\<rparr>)"
| session_event:
    "(\<And>d. zk_get zk (my_assignment_path (cfg i)) = Inr d \<Longrightarrow> node_may_hold c i d) \<Longrightarrow>
     on_zk_state_change (cfg i) zk x s (manager c i) (participant c i) = (pm', le', fx) \<Longrightarrow>
     cluster_step cfg c
       (c\<lparr>manager := (manager c)(i := pm'), participant := (participant c)(i := le')\<rparr>)"

| membership_event:
    "cluster_step cfg c
       (c\<lparr>manager := (manager c)(i := members_cb registered lo (participant c i) (manager c i))\<rparr>)"
| retry_dropped:
    "\<not> is_leader (participant c i) \<Longrightarrow>
     cluster_step cfg c
       (c\<lparr>manager := (manager c)(i := fst (retry_redistribute (cfg i) zk po ts (participant c i) (manager c i)))\<rparr>)"
| start_manager:
    "(\<And>d. zk_get zk (my_assignment_path (cfg i)) = Inr d \<Longrightarrow> node_may_hold c i d) \<Longrightarrow>
     cluster_step cfg c
       (c\<lparr>manager := (manager c)(i := fst (partition_start (cfg i) zk new_PartitionManager)),
          participant := (participant c)(i := new_LeaderElection)\<rparr>)"
| stop_manager:
    "cluster_step cfg c (c\<lparr>manager := (manager c)(i := partition_stop (manager c i))\<rparr>)"

inductive_cases cluster_stepE: "cluster_step cfg c c'"

subsection \<open>What a handler may change\<close>

lemma do_redistribute_keeps:
  "do_redistribute cfg zk r po ep ts is pm = (pm', fx, e) \<Longrightarrow>
     known_stamp pm' = known_stamp pm \<and> assigned_processes pm' = assigned_processes pm"
  by (auto simp: do_redistribute_def known_stamp_def Let_def split: prod.splits option.splits ZkError.splits if_splits)

lemma restart_epoch [simp]: "epoch (fst (restart_after_loss x le)) = epoch le"
  by (cases x) (simp_all add: restart_after_loss_def start_election_run_def Let_def)

lemma state_change_epoch:
  "on_zk_state_change cfg zk x s pm le = (pm', le', fx) \<Longrightarrow> epoch le' = epoch le"
  by (auto simp: on_zk_state_change_def reinit_after_loss_def Let_def
      split: KazooState.splits prod.splits option.splits if_splits)

lemma members_cb_keeps [simp]:
  "known_stamp (members_cb k lo le pm) = known_stamp pm"
  "assigned_processes (members_cb k lo le pm) = assigned_processes pm"
  by (auto simp: members_cb_def handle_membership_change_def known_stamp_def)

lemma retry_dropped_keeps [simp]:
  assumes "\<not> is_leader le"
  shows "known_stamp (fst (retry_redistribute cfg zk po ts le pm)) = known_stamp pm"
    "assigned_processes (fst (retry_redistribute cfg zk po ts le pm)) = assigned_processes pm"
  using assms by (auto simp: retry_redistribute_def known_stamp_def split: option.splits)

lemma partition_stop_keeps [simp]:
  "known_stamp (partition_stop pm) = known_stamp pm"
  "assigned_processes (partition_stop pm) = assigned_processes pm"
  by (simp_all add: partition_stop_def known_stamp_def)

lemma handler_epochs:
  assumes "node_epoch node = Some n" "r = on_become_leader_sync g w lo node e"
  shows "epoch (after r) = epoch e \<and> node_epoch (epoch_node r) \<in> {Some n, Some (n + 1)} \<or>
     epoch (after r) = n + 1 \<and> node_epoch (epoch_node r) = Some (n + 1)"
  using assms
  by (cases g; cases w) (auto simp: handler_get_error handler_defs read_epoch_node)

subsection \<open>First invariant: epochs\<close>

text \<open>
  A counter value, the epoch each participant last took (zero for none) and the epochs in the log
  fit together: nobody is ahead of the counter, and a positive epoch belongs to one participant.
\<close>

definition epochs_fit :: "int \<Rightarrow> (string \<Rightarrow> int) \<Rightarrow> int set \<Rightarrow> bool" where
  "epochs_fit n f E =
     (0 \<le> n \<and> (\<forall>i. 0 \<le> f i \<and> f i \<le> n) \<and> (\<forall>e\<in>E. 0 < e \<and> e \<le> n) \<and>
      (\<forall>i j. f i = f j \<longrightarrow> i = j \<or> f i = 0))"

definition epochs_of :: "Cluster \<Rightarrow> string \<Rightarrow> int" where
  "epochs_of c i = epoch (participant c i)"

definition epochs_ok :: "Cluster \<Rightarrow> bool" where
  "epochs_ok c =
     (\<exists>n. node_epoch (shared_epoch c) = Some n \<and> epochs_fit n (epochs_of c) (commit_epoch ` set (commits c)))"

lemma fit_grow: "epochs_fit n f E \<Longrightarrow> n \<le> m \<Longrightarrow> epochs_fit m f E"
  unfolding epochs_fit_def by (meson order_trans)

lemma fitI:
  assumes "0 \<le> n" "\<And>i. 0 \<le> f i \<and> f i \<le> n" "\<And>e. e \<in> E \<Longrightarrow> 0 < e \<and> e \<le> n"
    and "\<And>i j. f i = f j \<Longrightarrow> i \<noteq> j \<Longrightarrow> f i = 0"
  shows "epochs_fit n f E"
  using assms unfolding epochs_fit_def by blast

lemma fitD:
  assumes "epochs_fit n f E"
  shows "0 \<le> n" "0 \<le> f i" "f i \<le> n" "e \<in> E \<Longrightarrow> 0 < e" "e \<in> E \<Longrightarrow> e \<le> n"
    "f i = f j \<Longrightarrow> i \<noteq> j \<Longrightarrow> f i = 0"
  using assms unfolding epochs_fit_def by blast+

lemma fit_keep:
  assumes fit: "epochs_fit n f E" and "e = f i \<or> e = 0"
  shows "epochs_fit n (f(i := e)) E"
proof (cases "e = f i")
  case False
  with assms(2) have "e = 0" by simp
  show ?thesis
  proof (rule fitI)
    show "(f(i := e)) j = 0" if "(f(i := e)) j = (f(i := e)) k" "j \<noteq> k" for j k
      using that \<open>e = 0\<close> fitD(6) [OF fit, of j k] by (auto simp: fun_upd_def split: if_splits)
  qed (use \<open>e = 0\<close> fitD(1-5) [OF fit] in auto)
qed (simp add: fit)

lemma fit_take:
  assumes fit: "epochs_fit n f E"
  shows "epochs_fit (n + 1) (f(i := n + 1)) E"
proof (rule fitI)
  have ne: "f j \<noteq> n + 1" for j using fitD(3) [OF fit, of j] by linarith
  show "(f(i := n + 1)) j = 0" if "(f(i := n + 1)) j = (f(i := n + 1)) k" "j \<noteq> k" for j k
    using that ne [of j] ne [of k] fitD(6) [OF fit, of j k] by (auto simp: fun_upd_def split: if_splits)
  show "0 \<le> (f(i := n + 1)) j \<and> (f(i := n + 1)) j \<le> n + 1" for j
    using fitD(1) [OF fit] fitD(2,3) [OF fit, of j] by auto
  show "0 < e \<and> e \<le> n + 1" if "e \<in> E" for e
    using fitD(4,5) [OF fit that] by simp
qed (use fitD(1) [OF fit] in simp)

lemma fit_commit: "epochs_fit n f E \<Longrightarrow> 0 < f i \<Longrightarrow> epochs_fit n f (insert (f i) E)"
  unfolding epochs_fit_def by simp

lemma epochs_of_upd [simp]:
  "epochs_of (c\<lparr>participant := (participant c)(i := le)\<rparr>) = (epochs_of c)(i := epoch le)"
  "epochs_of (c\<lparr>manager := m\<rparr>) = epochs_of c"
  "epochs_of (c\<lparr>commits := l\<rparr>) = epochs_of c"
  "epochs_of (c\<lparr>shared_epoch := n\<rparr>) = epochs_of c"
  by (auto simp: epochs_of_def fun_eq_iff)

lemma epochs_of_upd2 [simp]:
  "epochs_of (c\<lparr>participant := (participant c)(i := le), shared_epoch := n\<rparr>) = (epochs_of c)(i := epoch le)"
  "epochs_of (c\<lparr>manager := m, participant := (participant c)(i := le)\<rparr>) = (epochs_of c)(i := epoch le)"
  "epochs_of (c\<lparr>manager := m, commits := l\<rparr>) = epochs_of c"
  by (auto simp: epochs_of_def fun_eq_iff)

lemma epochs_ok_acquire:
  assumes "epochs_ok c" "r = on_become_leader_sync g w lo (shared_epoch c) (participant c i)"
  shows "epochs_ok (c\<lparr>participant := (participant c)(i := after r), shared_epoch := epoch_node r\<rparr>)"
proof -
  from assms(1) obtain n where n: "node_epoch (shared_epoch c) = Some n"
    and fit: "epochs_fit n (epochs_of c) (commit_epoch ` set (commits c))"
    by (auto simp: epochs_ok_def)
  from handler_epochs [OF n assms(2)] show ?thesis
  proof
    assume "epoch (after r) = epoch (participant c i) \<and> node_epoch (epoch_node r) \<in> {Some n, Some (n + 1)}"
    then obtain m where "node_epoch (epoch_node r) = Some m" "n \<le> m" "epoch (after r) = epochs_of c i"
      by (auto simp: epochs_of_def)
    then show ?thesis
      using fit_keep [OF fit_grow [OF fit], of m "epoch (after r)" i] by (auto simp: epochs_ok_def)
  next
    assume "epoch (after r) = n + 1 \<and> node_epoch (epoch_node r) = Some (n + 1)"
    then show ?thesis
      using fit_take [OF fit, of i] by (auto simp: epochs_ok_def)
  qed
qed

lemma epochs_ok_keep:
  assumes "epochs_ok c" "epoch le = epoch (participant c i) \<or> epoch le = 0"
  shows "epochs_ok (c\<lparr>participant := (participant c)(i := le)\<rparr>)"
    "epochs_ok (c\<lparr>manager := m, participant := (participant c)(i := le)\<rparr>)"
  using assms fit_keep [of _ "epochs_of c" _ "epoch le" i] by (auto simp: epochs_ok_def epochs_of_def)

lemma epochs_ok_step: "cluster_step cfg c c' \<Longrightarrow> epochs_ok c \<Longrightarrow> epochs_ok c'"
proof (induction rule: cluster_step.induct)
  case (acquire r g w lo c i)
  then show ?case by (blast intro: epochs_ok_acquire)
next
  case (handler_ends c i)
  then show ?case by (intro epochs_ok_keep) (auto simp: leader_handler_finally_def)
next
  case (stop_participant c i)
  then show ?case by (intro epochs_ok_keep) (auto simp: leader_stop_def)
next
  case (redistribute c i "is" ps ts zk in_retry pm' fx e applied)
  then show ?case
    using fit_commit [of _ "epochs_of c" _ i]
    by (cases applied) (auto simp: epochs_ok_def epochs_of_def)
next
  case (session_event zk i c x s pm' le' fx)
  then show ?case by (intro epochs_ok_keep) (auto dest: state_change_epoch)
next
  case (start_manager zk i c)
  then show ?case by (intro epochs_ok_keep) (auto simp: new_LeaderElection_def)
qed (simp_all add: epochs_ok_def)

interpretation cluster_epochs: inductive_invariant cluster_init "cluster_step cfg" epochs_ok for cfg
proof
  fix c assume "cluster_init c"
  then show "epochs_ok c"
    by (auto simp: cluster_init_def epochs_ok_def epochs_fit_def epochs_of_def new_LeaderElection_def)
qed (rule epochs_ok_step)

subsection \<open>Second invariant: the log\<close>

text \<open>
  A logged epoch is the writer's alone, a writer's stamps are all different, and the distributed
  lists have no repetition.
\<close>

definition log_owner :: "(string \<Rightarrow> int) \<Rightarrow> Commit list \<Rightarrow> bool" where
  "log_owner f ts = (\<forall>t\<in>set ts. \<forall>j. f j = commit_epoch t \<longrightarrow> j = writer t)"

definition log_writers :: "Commit list \<Rightarrow> bool" where
  "log_writers ts = (\<forall>t\<in>set ts. \<forall>u\<in>set ts. commit_epoch t = commit_epoch u \<longrightarrow> writer t = writer u)"

definition log_stamps :: "Commit list \<Rightarrow> bool" where
  "log_stamps ts = (\<forall>t\<in>set ts. \<forall>u\<in>set ts. commit_stamp t = commit_stamp u \<longrightarrow> t = u)"

definition log_distinct :: "Commit list \<Rightarrow> bool" where
  "log_distinct ts = (\<forall>t\<in>set ts. distinct (commit_instances t) \<and> distinct (commit_processes t))"

definition log_ok :: "Cluster \<Rightarrow> bool" where
  "log_ok c =
     (log_owner (epochs_of c) (commits c) \<and> log_writers (commits c) \<and>
      log_stamps (commits c) \<and> log_distinct (commits c))"

lemma log_owner_update:
  assumes "log_owner f ts" "e = f i \<or> (\<forall>t\<in>set ts. commit_epoch t \<noteq> e)"
  shows "log_owner (f(i := e)) ts"
  unfolding log_owner_def
proof (intro ballI allI impI)
  fix t j assume t: "t \<in> set ts" and "(f(i := e)) j = commit_epoch t"
  then have "f j = commit_epoch t" using assms(2) by (auto split: if_splits)
  then show "j = writer t" using assms(1) t unfolding log_owner_def by blast
qed

lemma log_ok_update:
  assumes "log_ok c" "commits c' = commits c" "epochs_of c' = (epochs_of c)(i := e)"
    and "e = epochs_of c i \<or> (\<forall>t\<in>set (commits c). commit_epoch t \<noteq> e)"
  shows "log_ok c'"
  using assms(1) log_owner_update [of "epochs_of c" "commits c" e i] assms(4)
  unfolding log_ok_def assms(2,3) by blast

lemma log_append:
  assumes old: "log_owner f ts" "log_writers ts" "log_stamps ts" "log_distinct ts"
    and t: "f (writer t) = commit_epoch t" "distinct (commit_instances t)" "distinct (commit_processes t)"
    and own: "\<And>j. f j = commit_epoch t \<Longrightarrow> j = writer t"
    and newer: "\<And>u. u \<in> set ts \<Longrightarrow> writer u = writer t \<Longrightarrow> commit_ts u < commit_ts t"
  shows "log_owner f (ts @ [t]) \<and> log_writers (ts @ [t]) \<and> log_stamps (ts @ [t]) \<and> log_distinct (ts @ [t])"
proof -
  have w: "writer u = writer t" if "u \<in> set ts" "commit_epoch u = commit_epoch t" for u
    using old(1) t(1) that unfolding log_owner_def by metis
  have "commit_stamp u \<noteq> commit_stamp t" if "u \<in> set ts" for u
    using newer [OF that] w [OF that] unfolding commit_stamp_def by auto
  then have "log_stamps (ts @ [t])"
    using old(3) unfolding log_stamps_def set_append by (metis UnE empty_set set_ConsD empty_iff list.simps(15))
  moreover have "log_writers (ts @ [t])"
    using old(2) w unfolding log_writers_def set_append by (metis UnE empty_set set_ConsD empty_iff list.simps(15))
  moreover have "log_owner f (ts @ [t])"
    using old(1) own unfolding log_owner_def by simp
  moreover have "log_distinct (ts @ [t])"
    using old(4) t(2,3) unfolding log_distinct_def by simp
  ultimately show ?thesis by blast
qed

lemma commit_epoch_range:
  assumes "epochs_ok c" "node_epoch (shared_epoch c) = Some n" "t \<in> set (commits c)"
  shows "commit_epoch t \<noteq> 0" "commit_epoch t \<noteq> n + 1"
proof -
  from assms(1,2) have fit: "epochs_fit n (epochs_of c) (commit_epoch ` set (commits c))"
    by (simp add: epochs_ok_def)
  from fitD(4,5) [OF fit, of "commit_epoch t"] assms(3)
  show "commit_epoch t \<noteq> 0" "commit_epoch t \<noteq> n + 1" by auto
qed

lemma log_ok_step:
  assumes "epochs_ok c" "log_ok c" "cluster_step cfg c c'"
  shows "log_ok c'"
  using assms(3,1,2)
proof (induction rule: cluster_step.induct)
  case (acquire r g w lo c i)
  then obtain n where n: "node_epoch (shared_epoch c) = Some n" by (auto simp: epochs_ok_def)
  have "epoch (after r) = epochs_of c i \<or> (\<forall>t\<in>set (commits c). commit_epoch t \<noteq> epoch (after r))"
    using handler_epochs [OF n acquire(1)] commit_epoch_range [OF acquire(2) n] by (auto simp: epochs_of_def)
  then show ?case by (intro log_ok_update [OF acquire(3)]) simp_all
next
  case (redistribute c i "is" ps ts zk in_retry pm' fx e applied)
  have own: "j = i" if "epochs_of c j = epochs_of c i" for j
    using redistribute(1,7) fitD(6) [of _ "epochs_of c" _ j i] that by (auto simp: epochs_ok_def epochs_of_def)
  let ?t = "\<lparr>writer = i, commit_epoch = epoch (participant c i), commit_ts = ts,
             commit_instances = is, commit_processes = ps\<rparr>"
  show ?case
  proof (cases applied)
    case True
    have "log_owner (epochs_of c) (commits c @ [?t]) \<and> log_writers (commits c @ [?t]) \<and>
       log_stamps (commits c @ [?t]) \<and> log_distinct (commits c @ [?t])"
      by (rule log_append) (use redistribute own in \<open>auto simp: log_ok_def epochs_of_def\<close>)
    with True show ?thesis by (simp add: log_ok_def)
  qed (use redistribute in \<open>simp add: log_ok_def\<close>)
next
  case (handler_ends c i)
  from handler_ends(2) show ?case
    by (rule log_ok_update [where i = i and e = "epochs_of c i"]) (simp_all add: leader_handler_finally_def epochs_of_def)
next
  case (stop_participant c i)
  from stop_participant(2) show ?case
    by (rule log_ok_update [where i = i and e = "epochs_of c i"]) (simp_all add: leader_stop_def epochs_of_def)
next
  case (session_event zk i c x s pm' le' fx)
  from session_event(4) show ?case
    by (rule log_ok_update [where i = i and e = "epochs_of c i"])
       (simp_all add: epochs_of_def state_change_epoch [OF session_event(2)])
next
  case (start_manager zk i c)
  from start_manager(3) show ?case
    by (rule log_ok_update [where i = i and e = 0])
       (use start_manager(2) commit_epoch_range(1) in \<open>auto simp: new_LeaderElection_def epochs_ok_def\<close>)
qed (simp_all add: log_ok_def)

interpretation cluster_log: relative_invariant cluster_init "cluster_step cfg" epochs_ok log_ok for cfg
proof
  fix c assume "cluster_init c"
  then show "log_ok c" by (simp add: cluster_init_def log_ok_def log_owner_def log_writers_def log_stamps_def log_distinct_def)
qed (rule log_ok_step)

subsection \<open>Third invariant: where an instance's processes come from\<close>

definition from_log :: "Commit list \<Rightarrow> string \<Rightarrow> PartitionManager \<Rightarrow> bool" where
  "from_log ts i pm =
     (known_stamp pm = (0, 0) \<and> assigned_processes pm = [] \<or>
      (\<exists>t\<in>set ts. known_stamp pm = commit_stamp t \<and> assigned_processes pm = commit_share t i))"

definition origin_ok :: "Cluster \<Rightarrow> bool" where
  "origin_ok c = (\<forall>i. from_log (commits c) i (manager c i))"

lemma from_log_cong:
  "from_log ts i pm \<Longrightarrow> known_stamp pm' = known_stamp pm \<Longrightarrow> assigned_processes pm' = assigned_processes pm \<Longrightarrow>
     from_log ts i pm'"
  by (simp add: from_log_def)

lemma from_log_new: "from_log ts i new_PartitionManager"
  by (simp add: from_log_def new_PartitionManager_def known_stamp_def)

lemma from_log_mono: "from_log ts i pm \<Longrightarrow> set ts \<subseteq> set us \<Longrightarrow> from_log us i pm"
  by (auto simp: from_log_def)

lemma from_log_commit:
  "t \<in> set ts \<Longrightarrow> known_stamp pm = commit_stamp t \<Longrightarrow> assigned_processes pm = commit_share t i \<Longrightarrow> from_log ts i pm"
  by (auto simp: from_log_def)

lemma from_log_apply:
  assumes "from_log (commits c) i pm" "node_may_hold c i (JsonData p)"
  shows "from_log (commits c) i (fst (apply_assignment cfg p pm))"
proof (cases p)
  case (AssignmentPayload ep ts procs)
  with assms(2) obtain t where t: "t \<in> set (commits c)" "p = commit_payload t i"
    by (auto simp: node_may_hold_def)
  with AssignmentPayload have p: "commit_stamp t = (ep, ts)" "commit_share t i = procs"
    by (auto simp: commit_payload_def commit_stamp_def)
  show ?thesis
  proof (cases "known_stamp pm < (ep, ts)")
    case True
    with AssignmentPayload p show ?thesis
      by (intro from_log_commit [OF t(1)]) (simp_all add: apply_fresh known_stamp_def)
  next
    case False
    with AssignmentPayload assms(1) show ?thesis by (simp add: apply_stale)
  qed
qed (simp add: assms(1))

lemma from_log_refresh:
  assumes "from_log (commits c) i pm"
    and "\<And>d. zk_get zk (my_assignment_path cfg) = Inr d \<Longrightarrow> node_may_hold c i d"
  shows "from_log (commits c) i (fst (refresh_assignment_from_zk cfg zk pm))"
  using assms by (auto simp: refresh_assignment_from_zk_def intro: from_log_apply split: sum.splits NodeData.splits)

lemma from_log_watch:
  assumes "from_log (commits c) i pm" "node_may_hold c i d"
  shows "from_log (commits c) i (fst (assignment_cb cfg k lo d pm))"
  using assms
  by (auto simp: assignment_cb_def on_assignment_changed_sync_def intro: from_log_apply split: NodeData.splits)

lemma from_log_start:
  assumes "\<And>d. zk_get zk (my_assignment_path cfg) = Inr d \<Longrightarrow> node_may_hold c i d"
  shows "from_log (commits c) i (fst (partition_start cfg zk new_PartitionManager))"
proof -
  have "from_log (commits c) i (fst (register_watches new_PartitionManager))"
    by (rule from_log_cong [OF from_log_new]) (simp_all add: register_watches_def known_stamp_def Let_def)
  then have "from_log (commits c) i (fst (refresh_assignment_from_zk cfg zk (fst (register_watches new_PartitionManager))))"
    using assms by (rule from_log_refresh)
  then show ?thesis
    by (auto simp: partition_start_def Let_def from_log_new split: option.splits prod.splits)
qed

lemma from_log_state_change:
  assumes "from_log (commits c) i pm"
    and "\<And>d. zk_get zk (my_assignment_path cfg) = Inr d \<Longrightarrow> node_may_hold c i d"
    and "on_zk_state_change cfg zk x s pm le = (pm', le', fx)"
  shows "from_log (commits c) i pm'"
proof -
  have upd: "from_log (commits c) i (q\<lparr>session_lost := b\<rparr>)" if "from_log (commits c) i q" for q b
    using that by (rule from_log_cong) (simp_all add: known_stamp_def)
  have "from_log (commits c) i (fst (register_watches pm))"
    by (rule from_log_cong [OF assms(1)]) (simp_all add: register_watches_def known_stamp_def Let_def)
  then have "from_log (commits c) i (fst (refresh_assignment_from_zk cfg zk (fst (register_watches pm))))"
    using assms(2) by (rule from_log_refresh)
  then have "from_log (commits c) i (fst (reinit_after_loss cfg zk x pm le))"
    using assms(1) by (auto simp: reinit_after_loss_def Let_def split: option.splits prod.splits)
  then have connected: "from_log (commits c) i ((fst (reinit_after_loss cfg zk x pm le))\<lparr>session_lost := False\<rparr>)"
    by (rule upd)
  show ?thesis
  proof (cases s)
    case LOST
    with assms(3) show ?thesis by (auto simp: on_zk_state_change_def from_log_def known_stamp_def)
  next
    case CONNECTED
    with assms(1,3) connected show ?thesis
      by (auto simp: on_zk_state_change_def Let_def split: if_splits prod.splits)
  qed (use assms(1,3) in \<open>auto simp: on_zk_state_change_def\<close>)
qed

lemma origin_ok_update:
  assumes "origin_ok c" "set (commits c) \<subseteq> set (commits c')" "manager c' = (manager c)(i := pm')"
    and "from_log (commits c) i pm'"
  shows "origin_ok c'"
  using assms by (auto simp: origin_ok_def intro: from_log_mono)

lemma origin_ok_step: "cluster_step cfg c c' \<Longrightarrow> origin_ok c \<Longrightarrow> origin_ok c'"
proof (induction rule: cluster_step.induct)
  case (redistribute c i "is" ps ts zk in_retry pm' fx e applied)
  from redistribute(7) have "from_log (commits c) i (manager c i)" by (simp add: origin_ok_def)
  then have "from_log (commits c) i pm'"
    by (rule from_log_cong) (simp_all add: do_redistribute_keeps [OF redistribute(5)])
  then show ?case by (intro origin_ok_update [OF redistribute(7)]) auto
next
  case (watch_fires c i d registered lo)
  from watch_fires(2) from_log_watch [OF _ watch_fires(1)] show ?case
    by (intro origin_ok_update [OF watch_fires(2)]) (auto simp: origin_ok_def)
next
  case (session_event zk i c x s pm' le' fx)
  from session_event(3) have "from_log (commits c) i (manager c i)" by (simp add: origin_ok_def)
  from from_log_state_change [OF this session_event(1,2)] have "from_log (commits c) i pm'" .
  then show ?case by (intro origin_ok_update [OF session_event(3)]) auto
next
  case (membership_event c i registered lo)
  then show ?case
    by (intro origin_ok_update [OF membership_event]) (auto simp: origin_ok_def intro: from_log_cong)
next
  case (retry_dropped c i zk po ts)
  then show ?case
    by (intro origin_ok_update [OF retry_dropped(2)]) (auto simp: origin_ok_def intro: from_log_cong)
next
  case (start_manager zk i c)
  then show ?case
    by (intro origin_ok_update [OF start_manager(2)]) (auto intro: from_log_start)
next
  case (stop_manager c i)
  then show ?case
    by (intro origin_ok_update [OF stop_manager]) (auto simp: origin_ok_def intro: from_log_cong)
qed (simp_all add: origin_ok_def)

interpretation cluster_origin: inductive_invariant cluster_init "cluster_step cfg" origin_ok for cfg
proof
  fix c assume "cluster_init c"
  then show "origin_ok c" by (simp add: cluster_init_def origin_ok_def from_log_new)
qed (rule origin_ok_step)

subsection \<open>Exclusive and complete ownership\<close>

lemma reachable_facts:
  assumes "reachable cluster_init (cluster_step cfg) c"
  shows "epochs_ok c" "log_ok c" "origin_ok c"
  using cluster_log.both [OF assms] cluster_origin.holds [OF assms] by blast+

lemma share_exclusive:
  assumes "distinct (commit_instances t)" "distinct (commit_processes t)"
    and "p \<in> set (commit_share t i)" "p \<in> set (commit_share t j)"
  shows "i = j"
proof -
  have live: "k \<in> set (commit_instances t)" if "p \<in> set (commit_share t k)" for k
    using round_robin.owned_stranger [OF assms(1), of k "commit_processes t"] that
    by (cases "k \<in> set (commit_instances t)") (auto simp: commit_share_def)
  show ?thesis
    using round_robin.exclusive [OF assms(1,2) live [OF assms(3)] live [OF assms(4)]] assms(3,4)
    by (simp add: commit_share_def)
qed


text \<open>
  When every instance a committed distribution was made for holds its stamp, together they
  analyse exactly the processes that were distributed.
\<close>
theorem same_stamp_covers:
  assumes "reachable cluster_init (cluster_step cfg) c"
    and "t \<in> set (commits c)" "commit_instances t \<noteq> []"
    and "\<And>i. i \<in> set (commit_instances t) \<Longrightarrow> known_stamp (manager c i) = commit_stamp t"
  shows "(\<Union>i\<in>set (commit_instances t). set (assigned_processes (manager c i))) = set (commit_processes t)"
proof -
  note facts = reachable_facts [OF assms(1)]
  have d: "distinct (commit_instances t)"
    using facts(2) assms(2) by (simp add: log_ok_def log_distinct_def)
  have "assigned_processes (manager c i) = commit_share t i" if "i \<in> set (commit_instances t)" for i
  proof -
    have "commit_stamp t \<noteq> (0, 0)"
      using facts(1) assms(2) by (auto simp: epochs_ok_def commit_stamp_def dest: commit_epoch_range(1) [OF facts(1)])
    with facts(3) assms(4) [OF that] obtain u where
      u: "u \<in> set (commits c)" "commit_stamp t = commit_stamp u" "assigned_processes (manager c i) = commit_share u i"
      unfolding origin_ok_def from_log_def by metis
    then have "t = u" using facts(2) assms(2) unfolding log_ok_def log_stamps_def by metis
    with u(3) show ?thesis by simp
  qed
  then show ?thesis
    using round_robin.owned_union [OF d assms(3), of "commit_processes t"] by (simp add: commit_share_def)
qed


subsection \<open>A concrete run\<close>

text \<open>
  Two instances: \<open>a\<close> wins the election, distributes two processes over both, and both watches
  fire.
\<close>

definition run_0 :: Cluster where
  "run_0 = \<lparr>manager = (\<lambda>_. new_PartitionManager), participant = (\<lambda>_. new_LeaderElection),
            shared_epoch = [], commits = []\<rparr>"

definition run_term :: HandlerRun where
  "run_term = on_become_leader_sync None SetOk True (shared_epoch run_0) (participant run_0 ''a'')"

definition run_1 :: Cluster where
  "run_1 = run_0\<lparr>participant := (participant run_0)(''a'' := after run_term), shared_epoch := epoch_node run_term\<rparr>"

definition run_commit :: Commit where
  "run_commit = \<lparr>writer = ''a'', commit_epoch = 1, commit_ts = 7,
     commit_instances = [''a'', ''b''], commit_processes = [''E'', ''P'']\<rparr>"

definition run_2 :: Cluster where
  "run_2 = run_1\<lparr>manager := (manager run_1)(''a'' :=
       fst (do_redistribute (instance_cfg ''a'') quiet_zk False (Inr [''E'', ''P'']) 1 7 [''a'', ''b''] (manager run_1 ''a''))),
     commits := commits run_1 @ [run_commit]\<rparr>"

definition run_watch :: "string \<Rightarrow> Cluster \<Rightarrow> Cluster" where
  "run_watch i c = c\<lparr>manager := (manager c)(i :=
     fst (assignment_cb (instance_cfg i) 0 True (JsonData (commit_payload run_commit i)) (manager c i)))\<rparr>"

definition run_4 :: Cluster where
  "run_4 = run_watch ''b'' (run_watch ''a'' run_2)"

lemma run_term_simps:
  "epoch (after run_term) = 1" "is_leader (after run_term)" "epoch_node run_term = str_of_int 1"
  by (simp_all add: run_term_def run_0_def handler_defs read_epoch_node node_epoch_def new_LeaderElection_def)

lemma run_1_reachable: "reachable cluster_init (cluster_step instance_cfg) run_1"
proof (rule reachable_step)
  show "reachable cluster_init (cluster_step instance_cfg) run_0"
    by (rule reachable_init) (simp add: run_0_def cluster_init_def node_epoch_def)
  show "cluster_step instance_cfg run_0 run_1"
    unfolding run_1_def by (rule cluster_step.acquire) (rule run_term_def)
qed

lemma run_2_reachable: "reachable cluster_init (cluster_step instance_cfg) run_2"
proof (rule reachable_step [OF run_1_reachable])
  have ep: "epoch (participant run_1 ''a'') = 1" by (simp add: run_1_def run_term_simps)
  let ?r = "do_redistribute (instance_cfg ''a'') quiet_zk False (Inr [''E'', ''P'']) 1 7 [''a'', ''b''] (manager run_1 ''a'')"
  have "cluster_step instance_cfg run_1 (run_1\<lparr>manager := (manager run_1)(''a'' := fst ?r),
      commits := commits run_1 @ (if True
         then [\<lparr>writer = ''a'', commit_epoch = epoch (participant run_1 ''a''), commit_ts = 7,
                commit_instances = [''a'', ''b''], commit_processes = [''E'', ''P'']\<rparr>] else [])\<rparr>)"
    by (rule cluster_step.redistribute [where zk = quiet_zk and in_retry = False
          and fx = "fst (snd ?r)" and e = "snd (snd ?r)"])
       (simp_all add: ep, simp add: run_1_def run_0_def)
  then show "cluster_step instance_cfg run_1 run_2"
    by (simp add: run_2_def run_commit_def ep)
qed

lemma run_watch_reachable:
  assumes "reachable cluster_init (cluster_step instance_cfg) c" "run_commit \<in> set (commits c)"
  shows "reachable cluster_init (cluster_step instance_cfg) (run_watch i c)"
proof (rule reachable_step [OF assms(1)])
  show "cluster_step instance_cfg c (run_watch i c)"
    unfolding run_watch_def
    by (rule cluster_step.watch_fires) (use assms(2) in \<open>auto simp: node_may_hold_def\<close>)
qed

lemma run_4_reachable: "reachable cluster_init (cluster_step instance_cfg) run_4"
  unfolding run_4_def
  by (intro run_watch_reachable run_2_reachable) (simp_all add: run_watch_def run_2_def)

lemma run_4_managers:
  "known_stamp (manager run_4 ''a'') = (1, 7)" "known_stamp (manager run_4 ''b'') = (1, 7)"
  "assigned_processes (manager run_4 ''a'') = commit_share run_commit ''a''"
  "assigned_processes (manager run_4 ''b'') = commit_share run_commit ''b''"
  by (simp_all add: run_4_def run_watch_def run_2_def run_1_def run_0_def assignment_cb_def
      on_assignment_changed_sync_def commit_payload_def run_commit_def apply_assignment_def
      new_PartitionManager_def known_stamp_def do_redistribute_ok quiet_write_ok)


theorem same_stamp_covers_witness:
  "(\<Union>i\<in>set (commit_instances run_commit). set (assigned_processes (manager run_4 i))) = {''E'', ''P''}"
proof -
  have "run_commit \<in> set (commits run_4)"
    by (simp add: run_4_def run_watch_def run_2_def)
  then have "(\<Union>i\<in>set (commit_instances run_commit). set (assigned_processes (manager run_4 i))) =
      set (commit_processes run_commit)"
    by (rule same_stamp_covers [OF run_4_reachable])
       (use run_4_managers in \<open>auto simp: run_commit_def commit_stamp_def\<close>)
  then show ?thesis by (simp add: run_commit_def)
qed


end
