(* ===== verification/Fact_Catalog.thy ===== *)
theory Fact_Catalog
  imports RMS_Prelude
begin

text \<open>
  \<open>src/src/analyzer/fact_catalog.py\<close>: the closed catalogue of fact types, the operators each
  type admits, the implementation phase that gates evaluation, the parameter-requirement sets
  of the model validators and the aggregation strategy per type. The Python tables are
  functions here; a table's keys are the constructors, so a lookup never raises.
\<close>

datatype FactType =
  FT_MAX | FT_MIN | FT_AVG | FT_LAST | FT_P50 | FT_P90 | FT_P95 | FT_P99 | FT_SPIKE_COUNT
| FT_DURATION | FT_DELTA | FT_GROWTH_RATE | FT_MOVING_AVG | FT_TREND | FT_ZSCORE
| FT_BASELINE_DEV

text \<open>The enum's string values, which are the names rules refer to.\<close>

fun fact_name :: "FactType \<Rightarrow> string" where
  "fact_name FT_MAX = ''max''"
| "fact_name FT_MIN = ''min''"
| "fact_name FT_AVG = ''avg''"
| "fact_name FT_LAST = ''last''"
| "fact_name FT_P50 = ''p50''"
| "fact_name FT_P90 = ''p90''"
| "fact_name FT_P95 = ''p95''"
| "fact_name FT_P99 = ''p99''"
| "fact_name FT_SPIKE_COUNT = ''spike_count''"
| "fact_name FT_DURATION = ''duration''"
| "fact_name FT_DELTA = ''delta''"
| "fact_name FT_GROWTH_RATE = ''growth_rate''"
| "fact_name FT_MOVING_AVG = ''moving_avg''"
| "fact_name FT_TREND = ''trend''"
| "fact_name FT_ZSCORE = ''zscore''"
| "fact_name FT_BASELINE_DEV = ''baseline_dev''"

datatype Operator = OP_GE | OP_GT | OP_LE | OP_LT | OP_EQ | OP_NE | OP_TREND

fun op_name :: "Operator \<Rightarrow> string" where
  "op_name OP_GE = ''>=''"
| "op_name OP_GT = ''>''"
| "op_name OP_LE = ''<=''"
| "op_name OP_LT = ''<''"
| "op_name OP_EQ = ''==''"
| "op_name OP_NE = ''!=''"
| "op_name OP_TREND = ''trend==''"

definition HIGH_ops :: "Operator list" where
  "HIGH_ops = [OP_GT, OP_GE]"

definition LOW_ops :: "Operator list" where
  "LOW_ops = [OP_LT, OP_LE]"

definition NUMERIC_ops :: "Operator list" where
  "NUMERIC_ops = HIGH_ops @ LOW_ops"

fun ALLOWED_OPS :: "FactType \<Rightarrow> Operator list" where
  "ALLOWED_OPS FT_MAX = HIGH_ops"
| "ALLOWED_OPS FT_MIN = LOW_ops @ [OP_EQ]"
| "ALLOWED_OPS FT_AVG = NUMERIC_ops"
| "ALLOWED_OPS FT_LAST = NUMERIC_ops @ [OP_EQ, OP_NE]"
| "ALLOWED_OPS FT_P50 = NUMERIC_ops"
| "ALLOWED_OPS FT_P90 = NUMERIC_ops"
| "ALLOWED_OPS FT_P95 = NUMERIC_ops"
| "ALLOWED_OPS FT_P99 = NUMERIC_ops"
| "ALLOWED_OPS FT_SPIKE_COUNT = HIGH_ops"
| "ALLOWED_OPS FT_DURATION = HIGH_ops"
| "ALLOWED_OPS FT_DELTA = NUMERIC_ops @ [OP_NE]"
| "ALLOWED_OPS FT_GROWTH_RATE = NUMERIC_ops"
| "ALLOWED_OPS FT_MOVING_AVG = NUMERIC_ops"
| "ALLOWED_OPS FT_TREND = [OP_TREND]"
| "ALLOWED_OPS FT_ZSCORE = HIGH_ops"
| "ALLOWED_OPS FT_BASELINE_DEV = NUMERIC_ops"

fun PHASE_OF_FACT :: "FactType \<Rightarrow> nat" where
  "PHASE_OF_FACT FT_MAX = 1"
| "PHASE_OF_FACT FT_MIN = 1"
| "PHASE_OF_FACT FT_AVG = 1"
| "PHASE_OF_FACT FT_LAST = 1"
| "PHASE_OF_FACT FT_P50 = 1"
| "PHASE_OF_FACT FT_P90 = 1"
| "PHASE_OF_FACT FT_P95 = 1"
| "PHASE_OF_FACT FT_P99 = 1"
| "PHASE_OF_FACT FT_SPIKE_COUNT = 1"
| "PHASE_OF_FACT FT_DURATION = 2"
| "PHASE_OF_FACT FT_DELTA = 2"
| "PHASE_OF_FACT FT_GROWTH_RATE = 2"
| "PHASE_OF_FACT FT_MOVING_AVG = 2"
| "PHASE_OF_FACT FT_TREND = 2"
| "PHASE_OF_FACT FT_ZSCORE = 2"
| "PHASE_OF_FACT FT_BASELINE_DEV = 3"

definition IMPLEMENTED_PHASES :: "nat list" where
  "IMPLEMENTED_PHASES = [1]"

definition NEEDS_BUCKETING :: "FactType list" where
  "NEEDS_BUCKETING = [FT_DURATION, FT_GROWTH_RATE, FT_MOVING_AVG, FT_TREND]"

definition NEEDS_POINTS :: "FactType list" where
  "NEEDS_POINTS = [FT_MOVING_AVG, FT_TREND]"

definition NEEDS_BASELINE :: "FactType list" where
  "NEEDS_BASELINE = [FT_BASELINE_DEV]"

definition REQUIRES_OVER_DIRECTION :: "FactType list" where
  "REQUIRES_OVER_DIRECTION = [FT_SPIKE_COUNT, FT_DURATION]"

definition is_implemented :: "FactType \<Rightarrow> bool" where
  "is_implemented t \<longleftrightarrow> PHASE_OF_FACT t \<in> set IMPLEMENTED_PHASES"

definition op_allowed :: "FactType \<Rightarrow> Operator \<Rightarrow> bool" where
  "op_allowed t op \<longleftrightarrow> op \<in> set (ALLOWED_OPS t)"

datatype AggStrategy =
  STAT | PERCENTILES | TOP_HITS | FILTER_RANGE | DATE_HISTOGRAM | EXTENDED_STATS
| BASELINE_QUERY

fun AGG_STRATEGY :: "FactType \<Rightarrow> AggStrategy" where
  "AGG_STRATEGY FT_MAX = STAT"
| "AGG_STRATEGY FT_MIN = STAT"
| "AGG_STRATEGY FT_AVG = STAT"
| "AGG_STRATEGY FT_LAST = TOP_HITS"
| "AGG_STRATEGY FT_P50 = PERCENTILES"
| "AGG_STRATEGY FT_P90 = PERCENTILES"
| "AGG_STRATEGY FT_P95 = PERCENTILES"
| "AGG_STRATEGY FT_P99 = PERCENTILES"
| "AGG_STRATEGY FT_SPIKE_COUNT = FILTER_RANGE"
| "AGG_STRATEGY FT_DURATION = DATE_HISTOGRAM"
| "AGG_STRATEGY FT_DELTA = TOP_HITS"
| "AGG_STRATEGY FT_GROWTH_RATE = DATE_HISTOGRAM"
| "AGG_STRATEGY FT_MOVING_AVG = DATE_HISTOGRAM"
| "AGG_STRATEGY FT_TREND = DATE_HISTOGRAM"
| "AGG_STRATEGY FT_ZSCORE = EXTENDED_STATS"
| "AGG_STRATEGY FT_BASELINE_DEV = BASELINE_QUERY"

text \<open>Partial tables: \<open>None\<close> is the \<open>KeyError\<close> of a missing key.\<close>

fun STAT_AGG_NAME :: "FactType \<Rightarrow> string option" where
  "STAT_AGG_NAME FT_MAX = Some ''max''"
| "STAT_AGG_NAME FT_MIN = Some ''min''"
| "STAT_AGG_NAME FT_AVG = Some ''avg''"
| "STAT_AGG_NAME _ = None"

fun PERCENTILE_OF_FACT :: "FactType \<Rightarrow> nat option" where
  "PERCENTILE_OF_FACT FT_P50 = Some 50"
| "PERCENTILE_OF_FACT FT_P90 = Some 90"
| "PERCENTILE_OF_FACT FT_P95 = Some 95"
| "PERCENTILE_OF_FACT FT_P99 = Some 99"
| "PERCENTILE_OF_FACT _ = None"

definition agg_strategy :: "FactType \<Rightarrow> AggStrategy" where
  "agg_strategy t = AGG_STRATEGY t"

lemmas catalog_defs =
  HIGH_ops_def LOW_ops_def NUMERIC_ops_def IMPLEMENTED_PHASES_def NEEDS_BUCKETING_def
  NEEDS_POINTS_def NEEDS_BASELINE_def REQUIRES_OVER_DIRECTION_def is_implemented_def
  op_allowed_def agg_strategy_def

subsection \<open>The catalogue is coherent\<close>

lemma fact_name_inj [simp]: "fact_name s = fact_name t \<longleftrightarrow> s = t"
  by (cases s; cases t) simp_all

lemma op_name_inj [simp]: "op_name a = op_name b \<longleftrightarrow> a = b"
  by (cases a; cases b) simp_all

lemma trend_op_iff: "op_allowed t OP_TREND \<longleftrightarrow> t = FT_TREND"
  by (cases t) (simp_all add: catalog_defs)

lemma fact_name_no_dot: "CHR ''.'' \<notin> set (fact_name t)"
  by (cases t) simp_all

lemma needs_points_needs_bucketing: "set NEEDS_POINTS \<subseteq> set NEEDS_BUCKETING"
  by (simp add: catalog_defs)

text \<open>
  Every evaluated type has a strategy the query builder emits and the parser reads, and the
  partial tables are defined on exactly the types whose strategy looks them up.
\<close>

lemma implemented_strategy:
  "is_implemented t \<Longrightarrow> agg_strategy t \<in> {STAT, PERCENTILES, TOP_HITS, FILTER_RANGE}"
  by (cases t) (simp_all add: catalog_defs)

lemma stat_table_total: "agg_strategy t = STAT \<longleftrightarrow> STAT_AGG_NAME t \<noteq> None"
  by (cases t) (simp_all add: catalog_defs)

lemma percentile_table_total: "agg_strategy t = PERCENTILES \<longleftrightarrow> PERCENTILE_OF_FACT t \<noteq> None"
  by (cases t) (simp_all add: catalog_defs)

end
