(* ===== verification/Models.thy ===== *)
theory Models
  imports Fact_Catalog
begin

text \<open>
  \<open>src/src/db/models.py\<close>, first part: the value objects of a monitoring profile with their
  validators, and the signature by which equipment with one behaviour is grouped. The cascade
  fold and the checks of an effective profile are in \<open>Cascade\<close>. A Pydantic model is a record; its \<open>after\<close>
  validator is a function to a result, the \<open>ValueError\<close> being a constructor of
  \<open>ModelError\<close>. Numbers that Python holds as floats are rationals (every finite float is one,
  and the sources only compare them); integers are unbounded.
\<close>

subsection \<open>Value objects\<close>

datatype Severity = WARNING | CRITICAL
datatype Direction = Dir_above | Dir_below | Dir_high | Dir_low
datatype DeltaMode = Last_minus_first | Max_minus_min
datatype GrowthUnit = Per_hour | Per_day
datatype Combine = Combine_AND | Combine_OR
datatype GroupByKey = Key_eqpId | Key_proc
datatype ExpandMode = Expand_scalar | Expand_instance
datatype MetricKind = Gauge | Counter | Cumulative
datatype Quantifier = Q_any | Q_all | Q_count
datatype GroupBy = By_eqp | By_model | By_process

text \<open>A \<open>float | str\<close>.\<close>

datatype Value = Num rat | Str string

datatype ModelError =
  Over_direction_required FactType
| Direction_above_below FactType
| Zscore_direction
| No_facts string
| Duplicate_fact_type string
| Bucketing_required string
| Points_required string
| Baseline_required string
| Buckets_exceed_window string
| Fact_not_qualified string
| Count_min_required
| Trend_needs_string
| Numeric_value_needed Operator
| Empty_when string
| Duplicate_measure_id
| Duplicate_rule_id
| Key_missing string

record Scope =
  s_process :: string
  s_eqp_model :: string
  s_eqp_id :: string

definition wildcard :: string where
  "wildcard = ''*''"

definition scope_to_mongo_query :: "Scope \<Rightarrow> (string, string) dict" where
  "scope_to_mongo_query s =
     (''process'', s_process s)
     # (if s_eqp_model s \<noteq> wildcard then [(''eqpModel'', s_eqp_model s)] else [])
     @ (if s_eqp_id s \<noteq> wildcard then [(''eqpId'', s_eqp_id s)] else [])"

definition scope_to_mongo :: "Scope \<Rightarrow> (string, string) dict" where
  "scope_to_mongo s =
     [(''process'', s_process s), (''eqpModel'', s_eqp_model s), (''eqpId'', s_eqp_id s)]"

definition scope_from_mongo :: "(string, string) dict \<Rightarrow> ModelError + Scope" where
  "scope_from_mongo doc =
     (case map_of doc ''process'' of
        None \<Rightarrow> Inl (Key_missing ''process'')
      | Some p \<Rightarrow>
          Inr \<lparr>s_process = p, s_eqp_model = dict_get doc ''eqpModel'' wildcard,
               s_eqp_id = dict_get doc ''eqpId'' wildcard\<rparr>)"

record Bucketing =
  b_seconds :: int
  b_points :: "int option"

record BaselineSpec =
  bl_days :: int
  bl_same_hour :: bool
  bl_min_points :: int
  bl_deviation_floor :: rat

record Fact =
  f_type :: FactType
  f_over :: "rat option"
  f_direction :: "Direction option"
  f_mode :: "DeltaMode option"
  f_unit :: "GrowthUnit option"

definition fact_per_type_params :: "Fact \<Rightarrow> ModelError + Fact" where
  "fact_per_type_params f =
     (let t = f_type f in
      bind_res
        (if t \<in> set REQUIRES_OVER_DIRECTION
         then (if f_over f = None \<or> f_direction f = None then Inl (Over_direction_required t)
               else if f_direction f \<notin> {Some Dir_above, Some Dir_below}
               then Inl (Direction_above_below t) else Inr f)
         else Inr f)
      (\<lambda>f. let f = (if t = FT_DELTA \<and> f_mode f = None then f\<lparr>f_mode := Some Last_minus_first\<rparr> else f);
               f = (if t = FT_GROWTH_RATE \<and> f_unit f = None then f\<lparr>f_unit := Some Per_hour\<rparr> else f)
           in if t = FT_ZSCORE
              then (if f_direction f = None then Inr (f\<lparr>f_direction := Some Dir_high\<rparr>)
                    else if f_direction f \<notin> {Some Dir_high, Some Dir_low} then Inl Zscore_direction
                    else Inr f)
              else Inr f))"

record Measure =
  m_id :: string
  m_category :: string
  m_metric :: string
  m_proc :: string
  m_window_minutes :: int
  m_group_by :: "GroupByKey list"
  m_expand :: ExpandMode
  m_metric_kind :: "MetricKind option"
  m_bucketing :: "Bucketing option"
  m_baseline :: "BaselineSpec option"
  m_facts :: "Fact list"

definition WILDCARD_CHARS :: "char list" where
  "WILDCARD_CHARS = [CHR ''*'', CHR ''?'', CHR ''['']"

definition has_wildcard :: "string \<Rightarrow> bool" where
  "has_wildcard s \<longleftrightarrow> list_ex (\<lambda>c. c \<in> set s) WILDCARD_CHARS"

definition measure_types :: "Measure \<Rightarrow> FactType list" where
  "measure_types m = map f_type (m_facts m)"

definition needs :: "FactType list \<Rightarrow> Measure \<Rightarrow> bool" where
  "needs ts m \<longleftrightarrow> list_ex (\<lambda>t. t \<in> set ts) (measure_types m)"

definition buckets_exceed_window :: "Measure \<Rightarrow> bool" where
  "buckets_exceed_window m \<longleftrightarrow>
     (case m_bucketing m of
        None \<Rightarrow> False
      | Some b \<Rightarrow> (case b_points b of
            None \<Rightarrow> False
          | Some n \<Rightarrow> b_seconds b * n > m_window_minutes m * 60))"

text \<open>The last part of the validator: derive grouping and expansion from \<open>proc\<close> and \<open>metric\<close>.\<close>

definition measure_derive :: "Measure \<Rightarrow> Measure" where
  "measure_derive m =
     (let m = (if m_proc m = wildcard \<and> Key_proc \<notin> set (m_group_by m)
               then m\<lparr>m_group_by := m_group_by m @ [Key_proc]\<rparr> else m)
      in if has_wildcard (m_metric m) \<and> m_expand m = Expand_scalar
         then m\<lparr>m_expand := Expand_instance\<rparr> else m)"

definition measure_consistency :: "Measure \<Rightarrow> ModelError + Measure" where
  "measure_consistency m =
     (if m_facts m = [] then Inl (No_facts (m_id m))
      else if \<not> distinct (measure_types m) then Inl (Duplicate_fact_type (m_id m))
      else if needs NEEDS_BUCKETING m \<and> m_bucketing m = None then Inl (Bucketing_required (m_id m))
      else if needs NEEDS_POINTS m \<and> (case m_bucketing m of None \<Rightarrow> True | Some b \<Rightarrow> b_points b = None)
        then Inl (Points_required (m_id m))
      else if needs NEEDS_BASELINE m \<and> m_baseline m = None then Inl (Baseline_required (m_id m))
      else if buckets_exceed_window m then Inl (Buckets_exceed_window (m_id m))
      else Inr (measure_derive m))"

record Condition =
  c_fact :: string
  c_op :: Operator
  c_value :: Value
  c_quantifier :: Quantifier
  c_count_min :: "int option"

fun is_num :: "Value \<Rightarrow> bool" where
  "is_num (Num _) = True"
| "is_num (Str _) = False"

definition condition_checks :: "Condition \<Rightarrow> ModelError + Condition" where
  "condition_checks c =
     (if CHR ''.'' \<notin> set (c_fact c) then Inl (Fact_not_qualified (c_fact c))
      else if c_quantifier c = Q_count
              \<and> (case c_count_min c of None \<Rightarrow> True | Some n \<Rightarrow> n < 1)
        then Inl Count_min_required
      else if c_op c = OP_TREND
        then (if is_num (c_value c) then Inl Trend_needs_string else Inr c)
      else if \<not> is_num (c_value c) then Inl (Numeric_value_needed (c_op c))
      else Inr c)"

record Rule =
  r_id :: string
  r_interval_minutes :: int
  r_severity :: Severity
  r_combine :: Combine
  r_when :: "Condition list"
  r_notify :: string
  r_enabled :: bool

definition rule_nonempty :: "Rule \<Rightarrow> ModelError + Rule" where
  "rule_nonempty r = (if r_when r = [] then Inl (Empty_when (r_id r)) else Inr r)"

record NotifyChannel =
  n_cooldown_minutes :: int
  n_email_code :: string
  n_email_subcode :: "string option"
  n_group_by :: GroupBy
  n_email_group :: "string option"

text \<open>A \<open>datetime\<close> is the number of microseconds since the epoch, in UTC.\<close>

type_synonym datetime = int

record Governance =
  g_version :: int
  g_updated_by :: string
  g_updated_at :: datetime
  g_change_reason :: string

definition default_governance :: "datetime \<Rightarrow> Governance" where
  "default_governance now =
     \<lparr>g_version = 1, g_updated_by = [], g_updated_at = now, g_change_reason = []\<rparr>"

record MonitorProfile =
  p_id :: "string option"
  p_scope :: Scope
  p_enabled :: bool
  p_governance :: Governance
  p_measures :: "Measure list"
  p_rules :: "Rule list"
  p_notify :: "(string, NotifyChannel) dict"

definition doc_consistency :: "MonitorProfile \<Rightarrow> ModelError + MonitorProfile" where
  "doc_consistency p =
     (if \<not> distinct (map m_id (p_measures p)) then Inl Duplicate_measure_id
      else if \<not> distinct (map r_id (p_rules p)) then Inl Duplicate_rule_id
      else Inr p)"

subsection \<open>Signature\<close>

text \<open>
  The payload whose JSON text is hashed. The text is determined by it and determines it, so
  \<open>effective_signature\<close> takes the function from payload to digest as an argument.
\<close>

type_synonym payload =
  "bool \<times> Measure list \<times> Rule list \<times> (string, NotifyChannel) dict"

definition signature_payload :: "MonitorProfile \<Rightarrow> payload" where
  "signature_payload p =
     (p_enabled p, sort_key m_id (p_measures p), sort_key r_id (p_rules p),
      sort_key fst (p_notify p))"

definition effective_signature :: "(payload \<Rightarrow> string) \<Rightarrow> MonitorProfile \<Rightarrow> string" where
  "effective_signature digest p = digest (signature_payload p)"

subsection \<open>What the validators establish\<close>

definition wf_fact :: "Fact \<Rightarrow> bool" where
  "wf_fact f \<longleftrightarrow>
     (f_type f \<in> set REQUIRES_OVER_DIRECTION \<longrightarrow>
        f_over f \<noteq> None \<and> f_direction f \<in> {Some Dir_above, Some Dir_below})
     \<and> (f_type f = FT_DELTA \<longrightarrow> f_mode f \<noteq> None)
     \<and> (f_type f = FT_GROWTH_RATE \<longrightarrow> f_unit f \<noteq> None)
     \<and> (f_type f = FT_ZSCORE \<longrightarrow> f_direction f \<in> {Some Dir_high, Some Dir_low})"

definition wf_measure :: "Measure \<Rightarrow> bool" where
  "wf_measure m \<longleftrightarrow>
     m_facts m \<noteq> [] \<and> distinct (measure_types m)
     \<and> (needs NEEDS_BUCKETING m \<longrightarrow> m_bucketing m \<noteq> None)
     \<and> (needs NEEDS_POINTS m \<longrightarrow> (\<exists>b n. m_bucketing m = Some b \<and> b_points b = Some n))
     \<and> (needs NEEDS_BASELINE m \<longrightarrow> m_baseline m \<noteq> None)
     \<and> (\<forall>b n. m_bucketing m = Some b \<longrightarrow> b_points b = Some n \<longrightarrow>
           b_seconds b * n \<le> m_window_minutes m * 60)
     \<and> (m_proc m = wildcard \<longrightarrow> Key_proc \<in> set (m_group_by m))
     \<and> (has_wildcard (m_metric m) \<longrightarrow> m_expand m = Expand_instance)"

definition wf_condition :: "Condition \<Rightarrow> bool" where
  "wf_condition c \<longleftrightarrow>
     CHR ''.'' \<in> set (c_fact c)
     \<and> (c_quantifier c = Q_count \<longrightarrow> (\<exists>n. c_count_min c = Some n \<and> n \<ge> 1))
     \<and> (c_op c = OP_TREND \<longleftrightarrow> \<not> is_num (c_value c))"

definition wf_rule :: "Rule \<Rightarrow> bool" where
  "wf_rule r \<longleftrightarrow> r_when r \<noteq> [] \<and> list_all wf_condition (r_when r)"

definition wf_profile :: "MonitorProfile \<Rightarrow> bool" where
  "wf_profile p \<longleftrightarrow>
     distinct (map m_id (p_measures p)) \<and> distinct (map r_id (p_rules p))
     \<and> distinct (map fst (p_notify p))
     \<and> list_all wf_measure (p_measures p) \<and> list_all wf_rule (p_rules p)"

lemma needs_derive [simp]: "needs ts (measure_derive m) = needs ts m"
  by (simp add: needs_def measure_types_def measure_derive_def Let_def)

lemma measure_derive_fields [simp]:
  "m_facts (measure_derive m) = m_facts m"
  "m_id (measure_derive m) = m_id m"
  "m_window_minutes (measure_derive m) = m_window_minutes m"
  "m_bucketing (measure_derive m) = m_bucketing m"
  "m_baseline (measure_derive m) = m_baseline m"
  "m_proc (measure_derive m) = m_proc m"
  "m_metric (measure_derive m) = m_metric m"
  "measure_types (measure_derive m) = measure_types m"
  by (simp_all add: measure_derive_def measure_types_def Let_def)

lemma measure_derive_proc: "m_proc m = wildcard \<Longrightarrow> Key_proc \<in> set (m_group_by (measure_derive m))"
  by (simp add: measure_derive_def Let_def)

lemma measure_derive_expand:
  "has_wildcard (m_metric m) \<Longrightarrow> m_expand (measure_derive m) = Expand_instance"
  by (cases "m_expand m") (simp_all add: measure_derive_def Let_def)

lemma measure_derive_id:
  "(m_proc m = wildcard \<longrightarrow> Key_proc \<in> set (m_group_by m)) \<Longrightarrow>
   (has_wildcard (m_metric m) \<longrightarrow> m_expand m = Expand_instance) \<Longrightarrow> measure_derive m = m"
  by (auto simp: measure_derive_def Let_def)

text \<open>
  The validator of a fact: what it accepts satisfies the per-type parameter contract, the
  type is kept, and a fact that already satisfies the contract passes unchanged, so validating
  a stored fact again never alters it.
\<close>
theorem fact_validator:
  "fact_per_type_params f = Inr g \<Longrightarrow>
     wf_fact g \<and> f_type g = f_type f \<and> fact_per_type_params g = Inr g"
proof -
  assume ok: "fact_per_type_params f = Inr g"
  show ?thesis
  proof (cases "f_type f")
    case FT_ZSCORE
    with ok show ?thesis
      by (cases "f_direction f")
        (auto simp: fact_per_type_params_def wf_fact_def REQUIRES_OVER_DIRECTION_def split: if_splits)
  qed (use ok in \<open>auto simp: fact_per_type_params_def wf_fact_def REQUIRES_OVER_DIRECTION_def
    split: if_splits\<close>)
qed

theorem fact_validator_witness:
  "wf_fact \<lparr>f_type = FT_ZSCORE, f_over = None, f_direction = Some Dir_high, f_mode = None, f_unit = None\<rparr>"
  using fact_validator [of "\<lparr>f_type = FT_ZSCORE, f_over = None, f_direction = None, f_mode = None, f_unit = None\<rparr>"
      "\<lparr>f_type = FT_ZSCORE, f_over = None, f_direction = Some Dir_high, f_mode = None, f_unit = None\<rparr>"]
  by (simp add: fact_per_type_params_def REQUIRES_OVER_DIRECTION_def)

lemma wf_measure_accepted: "wf_measure m \<Longrightarrow> measure_consistency m = Inr m"
  by (auto simp: wf_measure_def measure_consistency_def buckets_exceed_window_def
      measure_derive_id not_less split: option.splits)

lemma measure_accepted_wf:
  assumes "measure_consistency m = Inr n"
  shows "n = measure_derive m" "wf_measure n"
proof -
  from assms show n: "n = measure_derive m"
    by (simp add: measure_consistency_def split: if_splits)
  from assms show "wf_measure n"
    unfolding n wf_measure_def
    by (auto simp: measure_consistency_def buckets_exceed_window_def measure_derive_proc
        measure_derive_expand not_less split: if_splits option.splits)
qed

text \<open>
  The validator of a measure: an accepted measure is well formed (non-empty facts of
  distinct types, the bucketing, points and baseline its types need, sub-windows that fit the
  window, grouping by process for the wildcard process, instance expansion for a wildcard
  metric), keeps its id, window and facts, and is a fixed point of the validator.
\<close>
theorem measure_validator:
  assumes "measure_consistency m = Inr n"
  shows "wf_measure n \<and> m_id n = m_id m \<and> m_window_minutes n = m_window_minutes m
    \<and> m_facts n = m_facts m \<and> measure_consistency n = Inr n"
  using measure_accepted_wf [OF assms] by (simp add: wf_measure_accepted)

lemma condition_accepted_iff: "condition_checks c = Inr d \<longleftrightarrow> d = c \<and> wf_condition c"
  by (auto simp: condition_checks_def wf_condition_def split: option.splits if_splits)

subsection \<open>The signature identifies behaviour up to order\<close>

lemma sort_key_eq_iff_mset:
  assumes "distinct (map f xs)"
  shows "sort_key f xs = sort_key f ys \<longleftrightarrow> mset xs = mset ys"
proof
  assume "sort_key f xs = sort_key f ys"
  then show "mset xs = mset ys" by (metis mset_sort)
next
  assume eq: "mset xs = mset ys"
  from assms have "inj_on f (set xs)" by (simp add: distinct_map)
  then show "sort_key f xs = sort_key f ys"
    using eq by (intro sort_key_inj_key_eq) auto
qed

definition unique_keys :: "MonitorProfile \<Rightarrow> bool" where
  "unique_keys p \<longleftrightarrow>
     distinct (map m_id (p_measures p)) \<and> distinct (map r_id (p_rules p))
     \<and> distinct (map fst (p_notify p))"

lemma signature_payload_iff:
  assumes "unique_keys p"
  shows "signature_payload p = signature_payload q \<longleftrightarrow>
     p_enabled p = p_enabled q \<and> mset (p_measures p) = mset (p_measures q)
     \<and> mset (p_rules p) = mset (p_rules q) \<and> mset (p_notify p) = mset (p_notify q)"
  using assms by (simp add: signature_payload_def unique_keys_def sort_key_eq_iff_mset)

lemma last_with_mset:
  assumes "distinct (map key xs)" and "mset xs = mset ys"
  shows "last_with key k xs = last_with key k ys"
proof (cases "last_with key k xs")
  case None
  with assms(2) show ?thesis
    by (metis last_with_None_iff mset_eq_setD)
next
  case (Some x)
  then have "x \<in> set ys" "key x = k"
    using assms(2) last_with_Some_in mset_eq_setD by fastforce+
  moreover have "distinct (map key ys)"
    using assms by (metis mset_eq_imp_distinct_iff mset_map)
  ultimately show ?thesis
    using Some by (metis last_with_distinct)
qed

text \<open>
  Profiles with the same effective signature behave alike: if the digest does not collide
  on the two payloads, they agree on the enabled flag and on every lookup of a measure, a rule
  and a notify channel, whatever the order in which the three layers are stored.
\<close>
lemma signature_same_behaviour:
  assumes "unique_keys p" and "inj_on digest {signature_payload p, signature_payload q}"
    and "effective_signature digest p = effective_signature digest q"
  shows "p_enabled p = p_enabled q
    \<and> last_with m_id k (p_measures p) = last_with m_id k (p_measures q)
    \<and> last_with r_id k (p_rules p) = last_with r_id k (p_rules q)
    \<and> last_with fst k (p_notify p) = last_with fst k (p_notify q)"
proof -
  from assms(2,3) have "signature_payload p = signature_payload q"
    by (auto simp: effective_signature_def dest: inj_onD)
  with assms(1) show ?thesis
    by (simp add: signature_payload_iff) (simp add: unique_keys_def last_with_mset)
qed

definition sample_channel :: NotifyChannel where
  "sample_channel = \<lparr>n_cooldown_minutes = 30, n_email_code = ''RESOURCE_MONITOR'',
     n_email_subcode = None, n_group_by = By_eqp, n_email_group = None\<rparr>"

definition sample_fact :: "FactType \<Rightarrow> Fact" where
  "sample_fact t = \<lparr>f_type = t, f_over = None, f_direction = None, f_mode = None, f_unit = None\<rparr>"

definition sample_measure :: Measure where
  "sample_measure = \<lparr>m_id = ''disk'', m_category = ''disk'', m_metric = ''*'', m_proc = ''@system'',
     m_window_minutes = 30, m_group_by = [Key_eqpId], m_expand = Expand_scalar,
     m_metric_kind = None, m_bucketing = None, m_baseline = None, m_facts = [sample_fact FT_MAX]\<rparr>"

definition sample_rule :: Rule where
  "sample_rule = \<lparr>r_id = ''disk_full'', r_interval_minutes = 5, r_severity = CRITICAL,
     r_combine = Combine_AND,
     r_when = [\<lparr>c_fact = ''disk.max'', c_op = OP_GE, c_value = Num 95, c_quantifier = Q_any,
                c_count_min = None\<rparr>],
     r_notify = ''default'', r_enabled = True\<rparr>"

definition sample_profile :: MonitorProfile where
  "sample_profile = \<lparr>p_id = None,
     p_scope = \<lparr>s_process = ''*'', s_eqp_model = ''*'', s_eqp_id = ''*''\<rparr>, p_enabled = True,
     p_governance = default_governance 0, p_measures = [measure_derive sample_measure],
     p_rules = [sample_rule], p_notify = [(''default'', sample_channel)]\<rparr>"

lemmas sample_defs =
  sample_channel_def sample_fact_def sample_measure_def sample_rule_def sample_profile_def

theorem measure_validator_witness:
  "wf_measure (measure_derive sample_measure) \<and> m_expand (measure_derive sample_measure) = Expand_instance"
proof -
  have "measure_consistency sample_measure = Inr (measure_derive sample_measure)"
    by (simp add: sample_defs measure_consistency_def measure_types_def needs_def
        buckets_exceed_window_def catalog_defs)
  from measure_validator [OF this] show ?thesis
    by (simp add: measure_derive_expand sample_defs has_wildcard_def WILDCARD_CHARS_def)
qed

end
