(* ===== verification/Cascade.thy ===== *)
theory Cascade
  imports Models
begin

text \<open>
  \<open>src/src/db/models.py\<close>, second part: the fold of the scope documents that cover an equipment
  into its effective profile. Each of the three layers of a profile (measures, rules, notify) is merged by key, the
  more specific document replacing the whole entry; the interface \<open>overlay_layer\<close> states what a
  layer's merge promises and is interpreted for the three.
\<close>

subsection \<open>Cascade fold\<close>

definition merge_measures :: "(string, Measure) dict \<Rightarrow> MonitorProfile \<Rightarrow> (string, Measure) dict" where
  "merge_measures d p = dict_of m_id (\<lambda>m. m) d (p_measures p)"

definition bake_rule :: "MonitorProfile \<Rightarrow> Rule \<Rightarrow> Rule" where
  "bake_rule p r = r\<lparr>r_enabled := p_enabled p \<and> r_enabled r\<rparr>"

definition merge_rules :: "(string, Rule) dict \<Rightarrow> MonitorProfile \<Rightarrow> (string, Rule) dict" where
  "merge_rules d p = dict_of r_id (bake_rule p) d (p_rules p)"

definition merge_notify ::
  "(string, NotifyChannel) dict \<Rightarrow> MonitorProfile \<Rightarrow> (string, NotifyChannel) dict" where
  "merge_notify d p = dict_of fst snd d (p_notify p)"

definition fold_profiles :: "datetime \<Rightarrow> MonitorProfile list \<Rightarrow> Scope \<Rightarrow> ModelError + MonitorProfile" where
  "fold_profiles now ordered target =
     (let measures = foldl merge_measures [] ordered;
          rules = foldl merge_rules [] ordered;
          notify = foldl merge_notify [] ordered;
          governance = foldl (\<lambda>_ p. p_governance p) (default_governance now) ordered
      in doc_consistency
           \<lparr>p_id = None, p_scope = target,
            p_enabled = list_ex r_enabled (map snd rules),
            p_governance = governance,
            p_measures = map snd measures,
            p_rules = map snd rules,
            p_notify = notify\<rparr>)"

subsection \<open>A layer merged by key\<close>

text \<open>
  What the fold relies on: after merging a document, a key holds the document's entry where the
  document declares one and its previous entry otherwise, and no key is stored twice.
\<close>

locale overlay_layer =
  fixes merge :: "('k, 'v) dict \<Rightarrow> 'd \<Rightarrow> ('k, 'v) dict"
    and declares :: "'d \<Rightarrow> 'k \<Rightarrow> 'v option"
  assumes merge_lookup:
      "map_of (merge d p) k = (case declares p k of None \<Rightarrow> map_of d k | Some v \<Rightarrow> Some v)"
    and merge_distinct: "distinct (map fst d) \<Longrightarrow> distinct (map fst (merge d p))"
begin

lemma fold_lookup:
  "map_of (foldl merge d ps) k =
     (case winner (\<lambda>p. declares p k) ps of None \<Rightarrow> map_of d k | Some v \<Rightarrow> Some v)"
  by (induction ps arbitrary: d) (auto simp: merge_lookup split: option.splits)

lemma fold_distinct: "distinct (map fst d) \<Longrightarrow> distinct (map fst (foldl merge d ps))"
  by (induction ps arbitrary: d) (auto simp: merge_distinct)

lemma fold_entry:
  "(k, v) \<in> set (foldl merge [] ps) \<longleftrightarrow> winner (\<lambda>p. declares p k) ps = Some v"
proof -
  have "(k, v) \<in> set (foldl merge [] ps) \<longleftrightarrow> map_of (foldl merge [] ps) k = Some v"
    by (simp add: fold_distinct)
  then show ?thesis by (simp add: fold_lookup split: option.splits)
qed

end

text \<open>A layer whose entries carry their own key.\<close>

locale keyed_layer = overlay_layer merge declares
  for merge :: "('k, 'v) dict \<Rightarrow> 'd \<Rightarrow> ('k, 'v) dict" and declares :: "'d \<Rightarrow> 'k \<Rightarrow> 'v option" +
  fixes key :: "'v \<Rightarrow> 'k"
  assumes declares_key: "declares p k = Some v \<Longrightarrow> key v = k"
begin

lemma fold_entry_key: "(k, v) \<in> set (foldl merge [] ps) \<Longrightarrow> key v = k"
  by (auto simp: fold_entry dest!: winner_Some_split declares_key)

lemma fold_keys: "map key (map snd (foldl merge [] ps)) = map fst (foldl merge [] ps)"
  by (auto simp: fold_entry_key)

lemma fold_last_with:
  "last_with key k (map snd (foldl merge [] ps)) = winner (\<lambda>p. declares p k) ps"
proof -
  let ?d = "foldl merge [] ps"
  have "map (\<lambda>x. (key x, x)) (map snd ?d) = ?d"
    by (simp add: comp_def) (rule map_idI, auto dest: fold_entry_key)
  moreover have "distinct (map key (map snd ?d))"
    by (simp only: fold_keys) (simp add: fold_distinct)
  ultimately have "last_with key k (map snd ?d) = map_of ?d k"
    using map_of_keyed by metis
  then show ?thesis by (simp add: fold_lookup split: option.splits)
qed

end

definition declared_measure :: "MonitorProfile \<Rightarrow> string \<Rightarrow> Measure option" where
  "declared_measure p k = last_with m_id k (p_measures p)"

definition declared_rule :: "MonitorProfile \<Rightarrow> string \<Rightarrow> Rule option" where
  "declared_rule p k = map_option (bake_rule p) (last_with r_id k (p_rules p))"

definition declared_channel :: "MonitorProfile \<Rightarrow> string \<Rightarrow> NotifyChannel option" where
  "declared_channel p k = map_option snd (last_with fst k (p_notify p))"

lemma r_id_bake [simp]: "r_id (bake_rule p r) = r_id r"
  by (simp add: bake_rule_def)

interpretation measure_layer: keyed_layer merge_measures declared_measure m_id
  by unfold_locales
    (auto simp: merge_measures_def declared_measure_def dict_simps distinct_dict_of
      dest: last_with_Some_in split: option.splits)

interpretation rule_layer: keyed_layer merge_rules declared_rule r_id
  by unfold_locales
    (auto simp: merge_rules_def declared_rule_def dict_simps distinct_dict_of
      dest: last_with_Some_in split: option.splits)

interpretation notify_layer: overlay_layer merge_notify declared_channel
  by unfold_locales
    (auto simp: merge_notify_def declared_channel_def dict_simps distinct_dict_of
      split: option.splits)

subsection \<open>The effective profile\<close>

lemma folded_ids:
  "distinct (map m_id (map snd (foldl merge_measures [] ps)))"
  "distinct (map r_id (map snd (foldl merge_rules [] ps)))"
  by (simp_all only: measure_layer.fold_keys rule_layer.fold_keys)
    (simp_all add: measure_layer.fold_distinct rule_layer.fold_distinct)

lemma fold_profiles_eq:
  "fold_profiles now ps t =
     Inr \<lparr>p_id = None, p_scope = t,
          p_enabled = list_ex r_enabled (map snd (foldl merge_rules [] ps)),
          p_governance = foldl (\<lambda>_ p. p_governance p) (default_governance now) ps,
          p_measures = map snd (foldl merge_measures [] ps),
          p_rules = map snd (foldl merge_rules [] ps),
          p_notify = foldl merge_notify [] ps\<rparr>"
  by (simp add: fold_profiles_def doc_consistency_def Let_def folded_ids del: map_map)

lemma fold_unique_keys: "fold_profiles now ps t = Inr e \<Longrightarrow> unique_keys e"
  by (auto simp: fold_profiles_eq unique_keys_def folded_ids notify_layer.fold_distinct simp del: map_map)

lemma fold_rule_in:
  assumes "fold_profiles now ps t = Inr e" and "r \<in> set (p_rules e)"
  shows "winner (\<lambda>p. declared_rule p (r_id r)) ps = Some r"
proof -
  from assms obtain k where k: "(k, r) \<in> set (foldl merge_rules [] ps)"
    by (auto simp: fold_profiles_eq)
  then have "r_id r = k" by (rule rule_layer.fold_entry_key)
  with k show ?thesis by (simp add: rule_layer.fold_entry)
qed

lemma winner_declared_rule:
  assumes "winner (\<lambda>p. declared_rule p k) ps = Some r"
  obtains pre p post r0 where "ps = pre @ p # post" "r0 \<in> set (p_rules p)" "r_id r0 = k"
    "r = bake_rule p r0" "\<forall>q\<in>set post. k \<notin> r_id ` set (p_rules q)"
proof -
  from winner_Some_split [OF assms] obtain pre p post
    where split: "ps = pre @ p # post" and decl: "declared_rule p k = Some r"
      and none: "\<forall>q\<in>set post. declared_rule q k = None"
    by blast
  from decl obtain r0 where r0: "last_with r_id k (p_rules p) = Some r0" "r = bake_rule p r0"
    by (auto simp: declared_rule_def)
  from none have "\<forall>q\<in>set post. k \<notin> r_id ` set (p_rules q)"
    by (simp add: declared_rule_def last_with_None_iff)
  with that split r0 last_with_Some_in [OF r0(1)] show thesis by blast
qed

text \<open>
  Folding never raises, whatever the documents: the merged layers have no duplicate id, so
  the constructor's consistency check accepts them. The result carries the target scope, has
  unique keys in every layer, and is enabled exactly when one of its rules is.
\<close>
theorem fold_profiles_total:
  "\<exists>e. fold_profiles now ps t = Inr e \<and> p_scope e = t \<and> unique_keys e
     \<and> (p_enabled e \<longleftrightarrow> (\<exists>r\<in>set (p_rules e). r_enabled r))"
  using fold_unique_keys [of now ps t] by (simp add: fold_profiles_eq list_ex_iff)

text \<open>
  C5. The fold implements the cascade specification: each measure, rule and channel of the
  effective profile is the one declared by the most specific document that declares its key,
  replaced whole, and a key no document declares is absent.
\<close>

theorem fold_profiles_refines:
  assumes "fold_profiles now ps t = Inr e"
  shows "last_with m_id k (p_measures e) = winner (\<lambda>p. declared_measure p k) ps
    \<and> last_with r_id k (p_rules e) = winner (\<lambda>p. declared_rule p k) ps
    \<and> map_of (p_notify e) k = winner (\<lambda>p. declared_channel p k) ps"
  using assms
  by (auto simp: fold_profiles_eq measure_layer.fold_last_with rule_layer.fold_last_with
      notify_layer.fold_lookup split: option.splits)

text \<open>
  Per-rule activation: a rule of the effective profile is active exactly when the most
  specific document that declares its id is enabled and declares it enabled. In particular a
  rule that lives only in disabled documents stays off however many enabled overlays inherit it,
  and re-declaring it in an enabled overlay turns it on (or mutes it).
\<close>

theorem fold_rule_active_iff:
  assumes "fold_profiles now ps t = Inr e" and "r \<in> set (p_rules e)"
  shows "\<exists>pre p post r0. ps = pre @ p # post \<and> r0 \<in> set (p_rules p) \<and> r_id r0 = r_id r
    \<and> (\<forall>q\<in>set post. r_id r \<notin> r_id ` set (p_rules q))
    \<and> r = r0\<lparr>r_enabled := r_enabled r\<rparr> \<and> (r_enabled r \<longleftrightarrow> p_enabled p \<and> r_enabled r0)"
proof -
  from fold_rule_in [OF assms] obtain pre p post r0
    where "ps = pre @ p # post" "r0 \<in> set (p_rules p)" "r_id r0 = r_id r"
      "r = bake_rule p r0" "\<forall>q\<in>set post. r_id r \<notin> r_id ` set (p_rules q)"
    by (rule winner_declared_rule)
  then show ?thesis by (auto simp: bake_rule_def)
qed

text \<open>Well-formed documents fold to a well-formed profile.\<close>

lemma wf_bake [simp]: "wf_rule (bake_rule p r) = wf_rule r"
  by (simp add: wf_rule_def bake_rule_def)

text \<open>
  Folding keeps well-formedness: if every scope document is a valid profile document, so is
  the effective profile, with every measure and rule still satisfying its own validator.
\<close>
theorem fold_profiles_wf:
  assumes "\<forall>p\<in>set ps. wf_profile p" and "fold_profiles now ps t = Inr e"
  shows "wf_profile e"
proof -
  have "wf_measure m" if "m \<in> set (p_measures e)" for m
  proof -
    from that assms(2) obtain k where "(k, m) \<in> set (foldl merge_measures [] ps)"
      by (auto simp: fold_profiles_eq)
    then obtain p where "p \<in> set ps" "declared_measure p k = Some m"
      by (auto simp: measure_layer.fold_entry dest!: winner_Some_in)
    with assms(1) show ?thesis
      by (auto simp: declared_measure_def wf_profile_def list_all_iff dest!: last_with_Some_in)
  qed
  moreover have "wf_rule r" if "r \<in> set (p_rules e)" for r
  proof -
    from fold_rule_in [OF assms(2) that] obtain pre p post r0
      where "ps = pre @ p # post" "r0 \<in> set (p_rules p)" "r = bake_rule p r0"
      by (rule winner_declared_rule)
    with assms(1) show ?thesis by (auto simp: wf_profile_def list_all_iff)
  qed
  ultimately show ?thesis
    using fold_unique_keys [OF assms(2)] by (simp add: wf_profile_def unique_keys_def list_all_iff)
qed

definition sample_docs :: "MonitorProfile list" where
  "sample_docs = [sample_profile\<lparr>p_enabled := False\<rparr>,
     sample_profile\<lparr>p_scope := \<lparr>s_process = ''ETCH'', s_eqp_model = ''*'', s_eqp_id = ''*''\<rparr>,
       p_measures := [], p_rules := []\<rparr>]"

definition sample_effective :: MonitorProfile where
  "sample_effective = sample_profile\<lparr>p_enabled := False,
     p_rules := [sample_rule\<lparr>r_enabled := False\<rparr>]\<rparr>"

lemma sample_fold: "fold_profiles 0 sample_docs (p_scope sample_profile) = Inr sample_effective"
  by (simp add: fold_profiles_eq sample_docs_def sample_effective_def sample_defs merge_measures_def
      merge_rules_def merge_notify_def dict_of_def bake_rule_def)

theorem fold_profiles_refines_witness:
  "winner (\<lambda>p. declared_rule p ''disk_full'') sample_docs = Some (sample_rule\<lparr>r_enabled := False\<rparr>)"
  using fold_profiles_refines [OF sample_fold, of "''disk_full''"]
  by (simp add: sample_effective_def last_with_def) (simp add: sample_defs)

theorem fold_rule_active_iff_witness:
  "\<exists>pre p post r0. sample_docs = pre @ p # post \<and> r0 \<in> set (p_rules p)
     \<and> \<not> (p_enabled p \<and> r_enabled r0)"
  using fold_rule_active_iff [OF sample_fold, of "sample_rule\<lparr>r_enabled := False\<rparr>"]
  by (simp add: sample_effective_def) blast

theorem fold_profiles_wf_witness: "wf_profile sample_effective"
proof (rule fold_profiles_wf [OF _ sample_fold])
  show "\<forall>p\<in>set sample_docs. wf_profile p"
    by (simp add: sample_docs_def sample_defs wf_profile_def wf_rule_def wf_condition_def
        wf_measure_def measure_types_def needs_def catalog_defs measure_derive_def has_wildcard_def
        WILDCARD_CHARS_def wildcard_def)
qed

end
