(* ===== verification/Effective_Checks.thy ===== *)
theory Effective_Checks
  imports Cascade
begin

text \<open>
  \<open>src/src/db/models.py\<close>, third part: the reference-integrity check run on every effective
  profile before a write and at resolution, and the non-fatal lint. An error message is a
  constructor carrying the indices and names the message prints. Python iterates the set of
  referenced ids in an unspecified order; the model uses the order of first reference.
\<close>

subsection \<open>Effective validation\<close>

datatype EffError =
  Channel_undefined nat string
| Measure_not_found nat nat string
| Fact_undeclared nat nat string string
| Op_not_allowed nat nat Operator string
| Interval_exceeds_window nat int string int
| Proc_span nat "string list"

definition measures_by_id :: "MonitorProfile \<Rightarrow> (string, Measure) dict" where
  "measures_by_id p = dict_of m_id (\<lambda>m. m) [] (p_measures p)"

definition facts_by_type :: "Measure \<Rightarrow> (string, FactType) dict" where
  "facts_by_type m = dict_of (\<lambda>f. fact_name (f_type f)) f_type [] (m_facts m)"

definition ref_measure :: "string \<Rightarrow> string" where
  "ref_measure ref = fst (str_partition CHR ''.'' ref)"

definition ref_type :: "string \<Rightarrow> string" where
  "ref_type ref = snd (snd (str_partition CHR ''.'' ref))"

definition condition_errors ::
  "(string, Measure) dict \<Rightarrow> nat \<Rightarrow> nat \<times> Condition \<Rightarrow> EffError list" where
  "condition_errors ms ri ic =
     (case ic of (ci, c) \<Rightarrow>
        (case map_of ms (ref_measure (c_fact c)) of
           None \<Rightarrow> [Measure_not_found ri ci (ref_measure (c_fact c))]
         | Some m \<Rightarrow>
             (case map_of (facts_by_type m) (ref_type (c_fact c)) of
                None \<Rightarrow> [Fact_undeclared ri ci (ref_measure (c_fact c)) (ref_type (c_fact c))]
              | Some t \<Rightarrow>
                  (if \<not> op_allowed t (c_op c)
                   then [Op_not_allowed ri ci (c_op c) (ref_type (c_fact c))] else []))))"

text \<open>The ids a rule's conditions refer to that are defined, in order of first reference.\<close>

definition referenced_measures :: "(string, Measure) dict \<Rightarrow> Rule \<Rightarrow> (string \<times> Measure) list" where
  "referenced_measures ms r =
     List.map_filter (\<lambda>mid. map_option (Pair mid) (map_of ms mid))
       (remdups (map (\<lambda>c. ref_measure (c_fact c)) (r_when r)))"

definition window_errors :: "nat \<Rightarrow> Rule \<Rightarrow> (string \<times> Measure) list \<Rightarrow> EffError list" where
  "window_errors ri r refs =
     map (\<lambda>(mid, m). Interval_exceeds_window ri (r_interval_minutes r) mid (m_window_minutes m))
       (filter (\<lambda>(mid, m). r_interval_minutes r > m_window_minutes m) refs)"

definition proc_errors :: "nat \<Rightarrow> (string \<times> Measure) list \<Rightarrow> EffError list" where
  "proc_errors ri refs =
     (let procs = remdups (map (\<lambda>(mid, m). m_proc m) refs)
      in if length procs > 1 then [Proc_span ri (sort procs)] else [])"

definition rule_errors :: "MonitorProfile \<Rightarrow> nat \<times> Rule \<Rightarrow> EffError list" where
  "rule_errors p ir =
     (case ir of (ri, r) \<Rightarrow>
        (let ms = measures_by_id p; refs = referenced_measures ms r
         in (if r_notify r \<notin> set (map fst (p_notify p)) then [Channel_undefined ri (r_notify r)] else [])
            @ concat (map (condition_errors ms ri) (enumerate 0 (r_when r)))
            @ window_errors ri r refs
            @ proc_errors ri refs))"

definition validate_effective :: "MonitorProfile \<Rightarrow> EffError list" where
  "validate_effective p = concat (map (rule_errors p) (enumerate 0 (p_rules p)))"

subsection \<open>Lint\<close>

datatype LintWarning = Dead_fact string FactType | Gauge_change string FactType

definition rule_references :: "MonitorProfile \<Rightarrow> (string \<times> string) list" where
  "rule_references p =
     concat (map (\<lambda>r. map (\<lambda>c. (ref_measure (c_fact c), ref_type (c_fact c))) (r_when r)) (p_rules p))"

definition lint_measure :: "(string \<times> string) list \<Rightarrow> Measure \<Rightarrow> LintWarning list" where
  "lint_measure refs m =
     map (\<lambda>f. Dead_fact (m_id m) (f_type f))
       (filter (\<lambda>f. (m_id m, fact_name (f_type f)) \<notin> set refs) (m_facts m))
     @ (if m_metric_kind m = Some Gauge
        then map (\<lambda>f. Gauge_change (m_id m) (f_type f))
               (filter (\<lambda>f. f_type f \<in> {FT_DELTA, FT_GROWTH_RATE}) (m_facts m))
        else [])"

definition lint_effective :: "MonitorProfile \<Rightarrow> LintWarning list" where
  "lint_effective p = concat (map (lint_measure (rule_references p)) (p_measures p))"

subsection \<open>What an accepted profile satisfies\<close>

text \<open>One condition of a rule: its fact is declared, admits the operator and its window is long enough.\<close>

definition condition_ok :: "MonitorProfile \<Rightarrow> Rule \<Rightarrow> Condition \<Rightarrow> bool" where
  "condition_ok p r c \<longleftrightarrow>
     (\<exists>m t. last_with m_id (ref_measure (c_fact c)) (p_measures p) = Some m
        \<and> t \<in> f_type ` set (m_facts m) \<and> fact_name t = ref_type (c_fact c)
        \<and> op_allowed t (c_op c) \<and> r_interval_minutes r \<le> m_window_minutes m)"

definition condition_proc :: "MonitorProfile \<Rightarrow> Condition \<Rightarrow> string option" where
  "condition_proc p c = map_option m_proc (last_with m_id (ref_measure (c_fact c)) (p_measures p))"

definition rule_ok :: "MonitorProfile \<Rightarrow> Rule \<Rightarrow> bool" where
  "rule_ok p r \<longleftrightarrow>
     r_notify r \<in> fst ` set (p_notify p)
     \<and> (\<forall>c\<in>set (r_when r). condition_ok p r c)
     \<and> (\<forall>c\<in>set (r_when r). \<forall>d\<in>set (r_when r). condition_proc p c = condition_proc p d)"

lemma map_of_measures_by_id [dict_simps]:
  "map_of (measures_by_id p) k = last_with m_id k (p_measures p)"
  by (simp add: measures_by_id_def dict_simps split: option.splits)

lemma map_of_facts_by_type:
  "map_of (facts_by_type m) n = Some t \<longleftrightarrow> t \<in> f_type ` set (m_facts m) \<and> fact_name t = n"
proof -
  have "map_of (facts_by_type m) n
      = map_option f_type (last_with (\<lambda>f. fact_name (f_type f)) n (m_facts m))"
    by (simp add: facts_by_type_def dict_simps split: option.splits)
  moreover have "last_with (\<lambda>f. fact_name (f_type f)) n (m_facts m) = None
      \<longleftrightarrow> n \<notin> (\<lambda>f. fact_name (f_type f)) ` set (m_facts m)"
    by (rule last_with_None_iff)
  ultimately show ?thesis
    by (cases "last_with (\<lambda>f. fact_name (f_type f)) n (m_facts m)")
      (auto dest!: last_with_Some_in)
qed

definition condition_found :: "MonitorProfile \<Rightarrow> Condition \<Rightarrow> bool" where
  "condition_found p c \<longleftrightarrow>
     (\<exists>m t. last_with m_id (ref_measure (c_fact c)) (p_measures p) = Some m
        \<and> t \<in> f_type ` set (m_facts m) \<and> fact_name t = ref_type (c_fact c)
        \<and> op_allowed t (c_op c))"

lemma map_of_facts_by_type_None:
  "map_of (facts_by_type m) n = None \<longleftrightarrow> (\<forall>t\<in>f_type ` set (m_facts m). fact_name t \<noteq> n)"
proof -
  have "map_of (facts_by_type m) n = None \<longleftrightarrow> (\<forall>t. map_of (facts_by_type m) n \<noteq> Some t)"
    by (cases "map_of (facts_by_type m) n") auto
  then show ?thesis by (auto simp: map_of_facts_by_type)
qed

lemma condition_errors_Nil:
  "condition_errors (measures_by_id p) ri x = [] \<longleftrightarrow> condition_found p (snd x)"
proof (cases x)
  case (Pair ci c)
  show ?thesis
  proof (cases "last_with m_id (ref_measure (c_fact c)) (p_measures p)")
    case None
    then show ?thesis by (simp add: Pair condition_errors_def condition_found_def dict_simps)
  next
    case (Some m)
    show ?thesis
    proof (cases "map_of (facts_by_type m) (ref_type (c_fact c))")
      case None
      then have "\<forall>t\<in>f_type ` set (m_facts m). fact_name t \<noteq> ref_type (c_fact c)"
        by (simp only: map_of_facts_by_type_None)
      with None Some show ?thesis
        by (auto simp: Pair condition_errors_def condition_found_def dict_simps)
    next
      case (Some t)
      then have "t \<in> f_type ` set (m_facts m)" "fact_name t = ref_type (c_fact c)"
        by (simp_all add: map_of_facts_by_type)
      with Some \<open>last_with m_id (ref_measure (c_fact c)) (p_measures p) = Some m\<close> show ?thesis
        by (auto simp: Pair condition_errors_def condition_found_def dict_simps)
          (metis fact_name_inj)
    qed
  qed
qed

lemma set_referenced_measures:
  "set (referenced_measures (measures_by_id p) r) =
     {(mid, m). mid \<in> (\<lambda>c. ref_measure (c_fact c)) ` set (r_when r)
        \<and> last_with m_id mid (p_measures p) = Some m}"
  by (auto simp: referenced_measures_def set_map_filter_iff dict_simps)

lemma window_errors_Nil:
  "window_errors ri r refs = [] \<longleftrightarrow> (\<forall>(mid, m)\<in>set refs. r_interval_minutes r \<le> m_window_minutes m)"
  by (auto simp: window_errors_def filter_empty_conv not_less)

lemma proc_errors_Nil:
  "proc_errors ri refs = [] \<longleftrightarrow> (\<forall>(mid, m)\<in>set refs. \<forall>(mid', m')\<in>set refs. m_proc m = m_proc m')"
proof -
  have "proc_errors ri refs = [] \<longleftrightarrow> length (remdups (map (\<lambda>(mid, m). m_proc m) refs)) \<le> Suc 0"
    by (simp add: proc_errors_def Let_def not_less)
  then show ?thesis
    by (simp only: length_remdups_le_one) auto
qed

lemma ball_referenced_measures:
  "(\<forall>(mid, m)\<in>set (referenced_measures (measures_by_id p) r). P m) \<longleftrightarrow>
     (\<forall>c\<in>set (r_when r). \<forall>m. last_with m_id (ref_measure (c_fact c)) (p_measures p) = Some m \<longrightarrow> P m)"
  unfolding set_referenced_measures by blast

lemma condition_ok_found:
  "condition_ok p r c \<longleftrightarrow> condition_found p c
     \<and> (\<forall>m. last_with m_id (ref_measure (c_fact c)) (p_measures p) = Some m \<longrightarrow>
           r_interval_minutes r \<le> m_window_minutes m)"
  by (auto simp: condition_ok_def condition_found_def)

lemma condition_proc_found:
  assumes "condition_found p c" and "condition_found p d"
  shows "condition_proc p c = condition_proc p d \<longleftrightarrow>
    (\<forall>m. last_with m_id (ref_measure (c_fact c)) (p_measures p) = Some m \<longrightarrow>
       (\<forall>n. last_with m_id (ref_measure (c_fact d)) (p_measures p) = Some n \<longrightarrow> m_proc m = m_proc n))"
  using assms by (auto simp: condition_proc_def condition_found_def)

lemma proc_errors_refs:
  assumes "\<forall>c\<in>set (r_when r). condition_found p c"
  shows "proc_errors ri (referenced_measures (measures_by_id p) r) = [] \<longleftrightarrow>
    (\<forall>c\<in>set (r_when r). \<forall>d\<in>set (r_when r). condition_proc p c = condition_proc p d)"
proof -
  have "proc_errors ri (referenced_measures (measures_by_id p) r) = [] \<longleftrightarrow>
      (\<forall>c\<in>set (r_when r). \<forall>d\<in>set (r_when r).
         \<forall>m. last_with m_id (ref_measure (c_fact c)) (p_measures p) = Some m \<longrightarrow>
           (\<forall>n. last_with m_id (ref_measure (c_fact d)) (p_measures p) = Some n \<longrightarrow> m_proc m = m_proc n))"
    unfolding proc_errors_Nil set_referenced_measures by blast
  also have "\<dots> \<longleftrightarrow> (\<forall>c\<in>set (r_when r). \<forall>d\<in>set (r_when r). condition_proc p c = condition_proc p d)"
    using assms by (intro ball_cong refl) (simp add: condition_proc_found)
  finally show ?thesis .
qed

lemma rule_errors_Nil: "rule_errors p x = [] \<longleftrightarrow> rule_ok p (snd x)"
proof (cases x)
  case (Pair ri r)
  have "rule_errors p (ri, r) = [] \<longleftrightarrow>
      r_notify r \<in> fst ` set (p_notify p) \<and> (\<forall>c\<in>set (r_when r). condition_found p c)
      \<and> window_errors ri r (referenced_measures (measures_by_id p) r) = []
      \<and> proc_errors ri (referenced_measures (measures_by_id p) r) = []"
    by (simp add: rule_errors_def Let_def condition_errors_Nil set_enumerate_snd)
  also have "\<dots> \<longleftrightarrow> rule_ok p r"
    unfolding window_errors_Nil ball_referenced_measures rule_ok_def condition_ok_found
    using proc_errors_refs by blast
  finally show ?thesis by (simp add: Pair)
qed

lemma effective_clean_iff:
  "validate_effective p = [] \<longleftrightarrow> (\<forall>r\<in>set (p_rules p). rule_ok p r)"
proof -
  have "validate_effective p = [] \<longleftrightarrow> (\<forall>x\<in>set (enumerate 0 (p_rules p)). rule_errors p x = [])"
    by (auto simp: validate_effective_def)
  then show ?thesis by (simp add: rule_errors_Nil set_enumerate_snd)
qed

text \<open>
  C28. The reference-integrity check is sound and complete: it reports no error exactly when
  every rule names a defined notify channel, every condition refers to a fact some measure of
  the profile declares with an operator that fact admits and a window no shorter than the
  rule's interval, and all measures of one rule share one process dimension.
\<close>
theorem validate_effective_iff:
  "validate_effective p = [] \<longleftrightarrow> (\<forall>r\<in>set (p_rules p). rule_ok p r)"
  by (rule effective_clean_iff)

lemma lint_measure_dead:
  "Dead_fact i t \<in> set (lint_measure refs m) \<longleftrightarrow>
     m_id m = i \<and> t \<in> f_type ` set (m_facts m) \<and> (i, fact_name t) \<notin> set refs"
  by (auto simp: lint_measure_def)

lemma lint_measure_gauge:
  "Gauge_change i t \<in> set (lint_measure refs m) \<longleftrightarrow>
     m_id m = i \<and> m_metric_kind m = Some Gauge \<and> t \<in> f_type ` set (m_facts m)
     \<and> t \<in> {FT_DELTA, FT_GROWTH_RATE}"
  by (auto simp: lint_measure_def)

lemma not_referenced_iff:
  "(i, n) \<notin> set (rule_references p) \<longleftrightarrow>
     (\<forall>r\<in>set (p_rules p). \<forall>c\<in>set (r_when r). ref_measure (c_fact c) \<noteq> i \<or> ref_type (c_fact c) \<noteq> n)"
  by (auto simp: rule_references_def)

text \<open>
  The lint reports a fact as dead exactly when some measure declares it and no condition of
  any rule refers to it, and reports a change-over-time fact exactly on gauge measures.
\<close>
theorem lint_effective_iff:
  "(Dead_fact i t \<in> set (lint_effective p) \<longleftrightarrow>
      (\<exists>m\<in>set (p_measures p). m_id m = i \<and> t \<in> f_type ` set (m_facts m)
         \<and> (\<forall>r\<in>set (p_rules p). \<forall>c\<in>set (r_when r).
               ref_measure (c_fact c) \<noteq> i \<or> ref_type (c_fact c) \<noteq> fact_name t)))
   \<and> (Gauge_change i t \<in> set (lint_effective p) \<longleftrightarrow>
      (\<exists>m\<in>set (p_measures p). m_id m = i \<and> m_metric_kind m = Some Gauge
         \<and> t \<in> f_type ` set (m_facts m) \<and> t \<in> {FT_DELTA, FT_GROWTH_RATE}))"
  by (auto simp: lint_effective_def lint_measure_dead lint_measure_gauge not_referenced_iff)

theorem validate_effective_iff_witness: "rule_ok sample_profile sample_rule"
proof -
  have "validate_effective sample_profile = []"
    by (simp add: validate_effective_def rule_errors_def measures_by_id_def referenced_measures_def
        condition_errors_def facts_by_type_def window_errors_def proc_errors_def ref_measure_def
        ref_type_def str_partition_def sample_defs dict_of_def catalog_defs List.map_filter_def Let_def)
  then show ?thesis
    using validate_effective_iff [of sample_profile] by (simp add: sample_profile_def)
qed

theorem lint_effective_iff_witness:
  "Dead_fact ''disk'' FT_MAX \<in> set (lint_effective (sample_profile\<lparr>p_rules := []\<rparr>))"
  using lint_effective_iff [of "''disk''" FT_MAX "sample_profile\<lparr>p_rules := []\<rparr>"]
  by (simp add: sample_defs)

end
