(* ===== verification/Repository.thy ===== *)
theory Repository
  imports Effective_Checks Reachability
begin

text \<open>
  \<open>src/src/db/repository.py\<close>: the profile repository with its resolve cache, the equipment view
  and the e-mail template lookup. The MongoDB driver is an argument, the record \<open>collection\<close> of
  the calls the repository makes; \<open>mongo_ok\<close> names what the code relies on. The cache of the
  cachetools library holds what was stored, or nothing: which entries are still there when a
  lookup is made is an argument of the lookup.
\<close>

datatype MongoError =
    DuplicateKeyError | ServerSelectionTimeoutError | NetworkTimeout | ConnectionFailure
  | OtherFailure string

datatype RepoError =
    MongoUnavailableError string | ProfileAlreadyExistsError Scope | ProfileNotFoundError Scope
  | ProfileVersionConflictError Scope int | DriverError MongoError | InvalidModel ModelError

definition MONGO_UNAVAILABLE_EXC :: "MongoError list" where
  "MONGO_UNAVAILABLE_EXC = [ServerSelectionTimeoutError, NetworkTimeout, ConnectionFailure]"

definition translate_exc :: "string \<Rightarrow> MongoError \<Rightarrow> RepoError" where
  "translate_exc call e =
     (if e \<in> set MONGO_UNAVAILABLE_EXC then MongoUnavailableError call else DriverError e)"

text \<open>The driver calls, on a database state \<open>'db\<close>; a call that raises leaves it unchanged.\<close>

record 'db collection =
  insert_one :: "MonitorProfile \<Rightarrow> 'db \<Rightarrow> MongoError + string \<times> 'db"
  replace_one :: "Scope \<Rightarrow> MonitorProfile \<Rightarrow> 'db \<Rightarrow> MongoError + 'db"
  update_one :: "Scope \<Rightarrow> int \<Rightarrow> MonitorProfile \<Rightarrow> 'db \<Rightarrow> MongoError + nat \<times> 'db"
  delete_one :: "Scope \<Rightarrow> int option \<Rightarrow> 'db \<Rightarrow> MongoError + nat \<times> 'db"
  find_one :: "Scope \<Rightarrow> 'db \<Rightarrow> MongoError + MonitorProfile option"
  find_any :: "Scope list \<Rightarrow> 'db \<Rightarrow> MongoError + MonitorProfile list"
  find_enabled :: "string list \<Rightarrow> 'db \<Rightarrow> MongoError + MonitorProfile list"

record 'db ProfileRepository =
  database :: 'db
  resolve_cache :: "string \<rightharpoonup> MonitorProfile"

subsection \<open>Ranks and triples\<close>

definition mk_scope :: "string \<Rightarrow> string \<Rightarrow> string \<Rightarrow> Scope" where
  "mk_scope p m e = \<lparr>s_process = p, s_eqp_model = m, s_eqp_id = e\<rparr>"

definition global_scope :: Scope where
  "global_scope = mk_scope wildcard wildcard wildcard"

definition specificity_rank :: "Scope \<Rightarrow> nat" where
  "specificity_rank s =
     (if s_process s = wildcard then 0
      else if s_eqp_model s = wildcard then 1
      else if s_eqp_id s = wildcard then 2
      else 3)"

definition dedupe :: "'a list \<Rightarrow> 'a list" where
  "dedupe ts = foldl (\<lambda>deduped t. if t \<notin> set deduped then deduped @ [t] else deduped) [] ts"

definition cascade_triples :: "string \<Rightarrow> string \<Rightarrow> string \<Rightarrow> Scope list" where
  "cascade_triples process eqp_model eqp_id =
     dedupe
       ([mk_scope wildcard wildcard wildcard] @
        (if process \<noteq> wildcard
         then [mk_scope process wildcard wildcard] @
              (if eqp_model \<noteq> wildcard
               then [mk_scope process eqp_model wildcard] @
                    (if eqp_id \<noteq> wildcard then [mk_scope process eqp_model eqp_id] else [])
               else [])
         else []))"

subsection \<open>Writing\<close>

text \<open>Every write returns its result or exception and the repository afterwards.\<close>

definition repo_create ::
  "'db collection \<Rightarrow> MonitorProfile \<Rightarrow> 'db ProfileRepository \<Rightarrow> (RepoError + string) \<times> 'db ProfileRepository" where
  "repo_create coll profile r =
     (case insert_one coll profile (database r) of
        Inl e \<Rightarrow>
          (Inl (if e = DuplicateKeyError then ProfileAlreadyExistsError (p_scope profile)
                else translate_exc ''create'' e), r)
      | Inr (inserted_id, db') \<Rightarrow> (Inr inserted_id, \<lparr>database = db', resolve_cache = Map.empty\<rparr>))"

definition repo_upsert ::
  "'db collection \<Rightarrow> MonitorProfile \<Rightarrow> 'db ProfileRepository \<Rightarrow> (RepoError + unit) \<times> 'db ProfileRepository" where
  "repo_upsert coll profile r =
     (case replace_one coll (p_scope profile) profile (database r) of
        Inl e \<Rightarrow> (Inl (translate_exc ''upsert'' e), r)
      | Inr db' \<Rightarrow> (Inr (), \<lparr>database = db', resolve_cache = Map.empty\<rparr>))"

definition find_by_scope ::
  "'db collection \<Rightarrow> Scope \<Rightarrow> 'db ProfileRepository \<Rightarrow> RepoError + MonitorProfile option" where
  "find_by_scope coll sc r =
     (case find_one coll sc (database r) of
        Inl e \<Rightarrow> Inl (translate_exc ''find_by_scope'' e)
      | Inr doc \<Rightarrow> Inr doc)"

text \<open>\<open>_raise_write_conflict\<close> always raises; which exception is its result.\<close>

definition raise_write_conflict ::
  "'db collection \<Rightarrow> Scope \<Rightarrow> int option \<Rightarrow> 'db ProfileRepository \<Rightarrow> RepoError" where
  "raise_write_conflict coll sc expected_version r =
     (case find_by_scope coll sc r of
        Inl e \<Rightarrow> e
      | Inr None \<Rightarrow> ProfileNotFoundError sc
      | Inr (Some _) \<Rightarrow>
          ProfileVersionConflictError sc (case expected_version of None \<Rightarrow> 0 | Some v \<Rightarrow> v))"

definition versioned_doc :: "MonitorProfile \<Rightarrow> int \<Rightarrow> datetime \<Rightarrow> MonitorProfile" where
  "versioned_doc profile new_version now =
     profile\<lparr>p_governance := (p_governance profile)
       \<lparr>g_version := new_version, g_updated_at := now, g_updated_by := ''api''\<rparr>\<rparr>"

definition replace_with_version ::
  "'db collection \<Rightarrow> datetime \<Rightarrow> MonitorProfile \<Rightarrow> int \<Rightarrow> 'db ProfileRepository \<Rightarrow>
     (RepoError + int) \<times> 'db ProfileRepository" where
  "replace_with_version coll now profile expected_version r =
     (let new_version = expected_version + 1;
          doc = versioned_doc profile new_version now
      in case update_one coll (p_scope profile) expected_version doc (database r) of
           Inl e \<Rightarrow> (Inl (translate_exc ''replace_with_version'' e), r)
         | Inr (matched_count, db') \<Rightarrow>
             (if matched_count = 0
              then (Inl (raise_write_conflict coll (p_scope profile) (Some expected_version) (r\<lparr>database := db'\<rparr>)),
                    r\<lparr>database := db'\<rparr>)
              else (Inr new_version, \<lparr>database = db', resolve_cache = Map.empty\<rparr>)))"

definition delete_by_scope ::
  "'db collection \<Rightarrow> Scope \<Rightarrow> int option \<Rightarrow> 'db ProfileRepository \<Rightarrow>
     (RepoError + unit) \<times> 'db ProfileRepository" where
  "delete_by_scope coll sc expected_version r =
     (case delete_one coll sc expected_version (database r) of
        Inl e \<Rightarrow> (Inl (translate_exc ''delete_by_scope'' e), r)
      | Inr (deleted_count, db') \<Rightarrow>
          (if deleted_count = 0
           then (Inl (raise_write_conflict coll sc expected_version (r\<lparr>database := db'\<rparr>)), r\<lparr>database := db'\<rparr>)
           else (Inr (), \<lparr>database = db', resolve_cache = Map.empty\<rparr>)))"

subsection \<open>Reading\<close>

definition collect_scope_docs ::
  "'db collection \<Rightarrow> string \<Rightarrow> string \<Rightarrow> string \<Rightarrow> 'db ProfileRepository \<Rightarrow> RepoError + MonitorProfile list" where
  "collect_scope_docs coll process eqp_model eqp_id r =
     (case find_any coll (cascade_triples process eqp_model eqp_id) (database r) of
        Inl e \<Rightarrow> Inl (translate_exc ''collect_scope_docs'' e)
      | Inr docs \<Rightarrow> Inr (sort_key (\<lambda>p. specificity_rank (p_scope p)) docs))"

definition cache_key :: "string \<Rightarrow> string \<Rightarrow> string \<Rightarrow> string" where
  "cache_key process eqp_model eqp_id = process @ '':'' @ eqp_model @ '':'' @ eqp_id"

text \<open>
  The errors and warnings found on the folded profile are logged, not raised: they are the last
  component of the result.
\<close>

definition resolve_profile ::
  "'db collection \<Rightarrow> datetime \<Rightarrow> (string \<Rightarrow> bool) \<Rightarrow> string \<Rightarrow> string \<Rightarrow> string \<Rightarrow> 'db ProfileRepository \<Rightarrow>
     (RepoError + MonitorProfile option) \<times> 'db ProfileRepository \<times> EffError list \<times> LintWarning list" where
  "resolve_profile coll now live process eqp_model eqp_id r =
     (let key = cache_key process eqp_model eqp_id
      in case (if live key then resolve_cache r key else None) of
           Some cached \<Rightarrow> (Inr (Some cached), r, [], [])
         | None \<Rightarrow>
             (case collect_scope_docs coll process eqp_model eqp_id r of
                Inl e \<Rightarrow> (Inl e, r, [], [])
              | Inr docs \<Rightarrow>
                  if docs = [] then (Inr None, r, [], [])
                  else (case fold_profiles now docs (mk_scope process eqp_model eqp_id) of
                          Inl e \<Rightarrow> (Inl (InvalidModel e), r, [], [])
                        | Inr effective \<Rightarrow>
                            (Inr (Some effective),
                             r\<lparr>resolve_cache := (resolve_cache r)(key \<mapsto> effective)\<rparr>,
                             validate_effective effective, lint_effective effective))))"

definition get_scheduling_intervals ::
  "'db collection \<Rightarrow> string \<Rightarrow> 'db ProfileRepository \<Rightarrow> RepoError + int list" where
  "get_scheduling_intervals coll process r =
     (case find_enabled coll [process, wildcard] (database r) of
        Inl e \<Rightarrow> Inl (translate_exc ''get_scheduling_intervals'' e)
      | Inr docs \<Rightarrow>
          Inr (sorted_list_of_set
            (set (concat (map (\<lambda>doc. map r_interval_minutes (filter r_enabled (p_rules doc))) docs)))))"

subsection \<open>Equipment and templates\<close>

record EqpInfo =
  e_eqpId :: string
  e_eqpModel :: string
  e_process :: string
  e_localpc :: string
  e_ipAddr :: string
  e_line :: string
  e_category :: string
  e_onoff :: int
  e_webmanagerUse :: int

text \<open>A query is the predicate the documents returned satisfy.\<close>

record 'db eqp_collection =
  eqp_distinct_process :: "(EqpInfo \<Rightarrow> bool) \<Rightarrow> 'db \<Rightarrow> MongoError + string list"
  eqp_count :: "(EqpInfo \<Rightarrow> bool) \<Rightarrow> 'db \<Rightarrow> MongoError + nat"
  eqp_find :: "(EqpInfo \<Rightarrow> bool) \<Rightarrow> 'db \<Rightarrow> MongoError + EqpInfo list"

definition ACTIVE_FILTER :: "EqpInfo \<Rightarrow> bool" where
  "ACTIVE_FILTER q \<longleftrightarrow> e_onoff q = 1 \<and> e_webmanagerUse q = 1"

definition get_distinct_processes :: "'db eqp_collection \<Rightarrow> 'db \<Rightarrow> RepoError + string list" where
  "get_distinct_processes coll db =
     (case eqp_distinct_process coll ACTIVE_FILTER db of
        Inl e \<Rightarrow> Inl (translate_exc ''get_distinct_processes'' e) | Inr ps \<Rightarrow> Inr ps)"

definition count_active_by_process :: "'db eqp_collection \<Rightarrow> string \<Rightarrow> 'db \<Rightarrow> RepoError + nat" where
  "count_active_by_process coll process db =
     (case eqp_count coll (\<lambda>q. e_process q = process \<and> ACTIVE_FILTER q) db of
        Inl e \<Rightarrow> Inl (translate_exc ''count_active_by_process'' e) | Inr n \<Rightarrow> Inr n)"

definition get_active_equipment_by_process ::
  "'db eqp_collection \<Rightarrow> string \<Rightarrow> 'db \<Rightarrow> RepoError + EqpInfo list" where
  "get_active_equipment_by_process coll process db =
     (case eqp_find coll (\<lambda>q. e_process q = process \<and> ACTIVE_FILTER q) db of
        Inl e \<Rightarrow> Inl (translate_exc ''get_active_equipment_by_process'' e) | Inr qs \<Rightarrow> Inr qs)"

type_synonym template_key = "string \<times> string \<times> string \<times> string \<times> string"

definition fallback_queries ::
  "string \<Rightarrow> string \<Rightarrow> string \<Rightarrow> string \<Rightarrow> string \<Rightarrow> template_key list" where
  "fallback_queries app process model code subcode =
     [(app, process, model, code, subcode),
      (app, process, model, code, ''_''),
      (app, process, ''_'', code, ''_''),
      (app, ''_'', ''_'', code, ''_''),
      (app, ''_'', ''_'', ''_'', ''_'')]"

text \<open>The loop over the queries: the first document found, or the first exception.\<close>

fun first_found :: "('q \<Rightarrow> MongoError + 't option) \<Rightarrow> 'q list \<Rightarrow> MongoError + 't option" where
  "first_found lookup [] = Inr None"
| "first_found lookup (q # qs) =
     (case lookup q of
        Inl e \<Rightarrow> Inl e
      | Inr (Some doc) \<Rightarrow> Inr (Some doc)
      | Inr None \<Rightarrow> first_found lookup qs)"

definition find_template ::
  "(template_key \<Rightarrow> MongoError + 't option) \<Rightarrow> string \<Rightarrow> string \<Rightarrow> string \<Rightarrow> string \<Rightarrow> string \<Rightarrow> RepoError + 't option" where
  "find_template lookup app process model code subcode =
     (case first_found lookup (fallback_queries app process model code subcode) of
        Inl e \<Rightarrow> Inl (translate_exc ''find_template'' e) | Inr d \<Rightarrow> Inr d)"

subsection \<open>What the driver promises\<close>

text \<open>
  \<open>docs\<close> reads the documents of a database state. The unique index on the scope triple
  (\<open>src/src/startup/repos.py\<close>) is what makes an insertion of a present scope raise.
\<close>

definition unique_scopes :: "MonitorProfile list \<Rightarrow> bool" where
  "unique_scopes ds = distinct (map p_scope ds)"

definition doc_at :: "MonitorProfile list \<Rightarrow> Scope \<Rightarrow> MonitorProfile option" where
  "doc_at ds sc = find (\<lambda>p. p_scope p = sc) ds"

definition mongo_reads_ok :: "'db collection \<Rightarrow> ('db \<Rightarrow> MonitorProfile list) \<Rightarrow> bool" where
  "mongo_reads_ok coll docs =
     ((\<forall>sc db d. find_one coll sc db = Inr d \<longrightarrow> d = doc_at (docs db) sc) \<and>
      (\<forall>scs db ds. find_any coll scs db = Inr ds \<longrightarrow>
         mset ds = mset (filter (\<lambda>p. p_scope p \<in> set scs) (docs db))) \<and>
      (\<forall>procs db ds. find_enabled coll procs db = Inr ds \<longrightarrow>
         mset ds = mset (filter (\<lambda>p. s_process (p_scope p) \<in> set procs \<and> p_enabled p) (docs db))))"

definition version_matches :: "int option \<Rightarrow> MonitorProfile \<Rightarrow> bool" where
  "version_matches v p = (case v of None \<Rightarrow> True | Some n \<Rightarrow> g_version (p_governance p) = n)"

definition replace_doc :: "MonitorProfile \<Rightarrow> MonitorProfile list \<Rightarrow> MonitorProfile list" where
  "replace_doc p ds = map (\<lambda>d. if p_scope d = p_scope p then p\<lparr>p_id := p_id d\<rparr> else d) ds"

definition mongo_writes_ok :: "'db collection \<Rightarrow> ('db \<Rightarrow> MonitorProfile list) \<Rightarrow> bool" where
  "mongo_writes_ok coll docs =
     ((\<forall>p db. case insert_one coll p db of
         Inl e \<Rightarrow> e = DuplicateKeyError \<longrightarrow> doc_at (docs db) (p_scope p) \<noteq> None
       | Inr (i, db') \<Rightarrow> doc_at (docs db) (p_scope p) = None \<and> docs db' = docs db @ [p\<lparr>p_id := Some i\<rparr>]) \<and>
      (\<forall>p db db'. replace_one coll (p_scope p) p db = Inr db' \<longrightarrow>
         (if doc_at (docs db) (p_scope p) = None
          then (\<exists>i. docs db' = docs db @ [p\<lparr>p_id := Some i\<rparr>]) else docs db' = replace_doc p (docs db))) \<and>
      (\<forall>p v db n db'. update_one coll (p_scope p) v p db = Inr (n, db') \<longrightarrow>
         (case doc_at (docs db) (p_scope p) of
            Some d \<Rightarrow> if version_matches (Some v) d then n = 1 \<and> docs db' = replace_doc p (docs db)
                      else n = 0 \<and> docs db' = docs db
          | None \<Rightarrow> n = 0 \<and> docs db' = docs db)) \<and>
      (\<forall>sc v db n db'. delete_one coll sc v db = Inr (n, db') \<longrightarrow>
         (case doc_at (docs db) sc of
            Some d \<Rightarrow> if version_matches v d then n = 1 \<and> docs db' = filter (\<lambda>q. p_scope q \<noteq> sc) (docs db)
                      else n = 0 \<and> docs db' = docs db
          | None \<Rightarrow> n = 0 \<and> docs db' = docs db)))"

subsection \<open>The order of the cascade\<close>

lemma dedupe_distinct: "distinct ts \<Longrightarrow> dedupe ts = ts"
  by (induction ts rule: rev_induct) (auto simp: dedupe_def)

lemma map_key_lookup:
  "map key (List.map_filter (\<lambda>t. find (\<lambda>d. key d = t) ds) ts) = filter (\<lambda>t. t \<in> key ` set ds) ts"
proof (induction ts)
  case (Cons t ts)
  show ?case
  proof (cases "find (\<lambda>d. key d = t) ds")
    case None
    with Cons show ?thesis by (auto simp: List.map_filter_def find_None_iff)
  next
    case (Some d)
    then have "key d = t" "d \<in> set ds" by (auto simp: find_Some_iff)
    with Cons Some show ?thesis by (auto simp: List.map_filter_def)
  qed
qed (simp add: List.map_filter_def)

lemma find_unique:
  "distinct (map key ds) \<Longrightarrow> d \<in> set ds \<Longrightarrow> find (\<lambda>x. key x = key d) ds = Some d"
  by (induction ds) force+

lemma find_Some_in: "find P ds = Some d \<Longrightarrow> d \<in> set ds \<and> P d"
  by (auto simp: find_Some_iff)

lemma find_unique_iff:
  assumes "distinct (map key ds)"
  shows "find (\<lambda>x. key x = t) ds = Some d \<longleftrightarrow> d \<in> set ds \<and> key d = t"
  using find_unique [OF assms, of d] by (auto dest: find_Some_in)

lemma mset_lookup:
  assumes "distinct (map key ds)" "distinct ts"
  shows "mset (List.map_filter (\<lambda>t. find (\<lambda>d. key d = t) ds) ts) = mset (filter (\<lambda>d. key d \<in> set ts) ds)"
proof (rule set_eq_iff_mset_eq_distinct [THEN iffD1])
  let ?l = "List.map_filter (\<lambda>t. find (\<lambda>d. key d = t) ds) ts"
  have "distinct (map key ?l)" using assms(2) by (simp add: map_key_lookup)
  then show "distinct ?l" by (simp add: distinct_map)
  show "distinct (filter (\<lambda>d. key d \<in> set ts) ds)"
    using assms(1) by (simp add: distinct_map)
  show "set ?l = set (filter (\<lambda>d. key d \<in> set ts) ds)"
    by (auto simp: set_map_filter_iff find_unique_iff [OF assms(1)])
qed

lemma cascade_triples_rank:
  "sorted_wrt (<) (map specificity_rank (cascade_triples p m e))" "distinct (cascade_triples p m e)"
  by (auto simp: cascade_triples_def dedupe_def specificity_rank_def mk_scope_def)

definition ancestors :: "MonitorProfile list \<Rightarrow> string \<Rightarrow> string \<Rightarrow> string \<Rightarrow> MonitorProfile list" where
  "ancestors ds p m e = List.map_filter (doc_at ds) (cascade_triples p m e)"

lemma ancestors_scopes:
  "map p_scope (ancestors ds p m e) = filter (\<lambda>t. t \<in> p_scope ` set ds) (cascade_triples p m e)"
  unfolding ancestors_def doc_at_def by (rule map_key_lookup)

lemma ancestors_sorted:
  "sorted_wrt (<) (map (\<lambda>p. specificity_rank (p_scope p)) (ancestors ds p m e))"
proof -
  have "map (\<lambda>p. specificity_rank (p_scope p)) (ancestors ds p m e) =
      map specificity_rank (filter (\<lambda>t. t \<in> p_scope ` set ds) (cascade_triples p m e))"
    unfolding ancestors_scopes [symmetric] by simp
  then show ?thesis
    using cascade_triples_rank(1) [of p m e] by (simp add: sorted_wrt_map sorted_wrt_filter)
qed

lemma sort_ancestors:
  assumes "unique_scopes ds" "mset qs = mset (filter (\<lambda>q. p_scope q \<in> set (cascade_triples p m e)) ds)"
  shows "sort_key (\<lambda>q. specificity_rank (p_scope q)) qs = ancestors ds p m e"
proof -
  let ?f = "\<lambda>q. specificity_rank (p_scope q)"
  have strict: "sorted_wrt (<) (map ?f (ancestors ds p m e))" by (rule ancestors_sorted)
  have "mset (ancestors ds p m e) = mset qs"
    using mset_lookup [of p_scope ds "cascade_triples p m e"] assms cascade_triples_rank(2)
    by (simp add: ancestors_def doc_at_def [abs_def] unique_scopes_def)
  moreover have "inj_on ?f (set (ancestors ds p m e))"
    using strict strict_sorted_iff [of "map ?f (ancestors ds p m e)"] by (simp add: distinct_map)
  moreover have "sorted (map ?f (ancestors ds p m e))"
    using strict strict_sorted_iff [of "map ?f (ancestors ds p m e)"] by simp
  ultimately show ?thesis
    by (metis (no_types, lifting) mset_eq_setD sort_key_inj_key_eq)
qed

text \<open>
  The documents collected for an equipment are its ancestors in the cascade, each once, from
  the global one to the most specific, whatever the order in which the driver returns them.
\<close>
theorem collect_scope_docs_ordered:
  assumes "mongo_reads_ok coll docs" "unique_scopes (docs (database r))"
    and "collect_scope_docs coll p m e r = Inr ps"
  shows "ps = ancestors (docs (database r)) p m e"
  using assms sort_ancestors [of "docs (database r)"]
  by (auto simp: collect_scope_docs_def mongo_reads_ok_def split: sum.splits)

subsection \<open>The cadence of the jobs\<close>


subsection \<open>Documents after a write\<close>

lemma doc_at_replace:
  "doc_at (replace_doc p ds) sc =
     (if sc = p_scope p then map_option (\<lambda>d. p\<lparr>p_id := p_id d\<rparr>) (doc_at ds sc) else doc_at ds sc)"
  by (induction ds) (auto simp: doc_at_def replace_doc_def)

lemma doc_at_append:
  "doc_at (ds @ [p]) sc =
     (case doc_at ds sc of Some d \<Rightarrow> Some d | None \<Rightarrow> if p_scope p = sc then Some p else None)"
  by (induction ds) (auto simp: doc_at_def)

lemma doc_at_None_iff: "doc_at ds sc = None \<longleftrightarrow> sc \<notin> p_scope ` set ds"
  by (auto simp: doc_at_def find_None_iff)

lemma unique_replace [simp]: "unique_scopes (replace_doc p ds) = unique_scopes ds"
proof -
  have "map p_scope (replace_doc p ds) = map p_scope ds" by (simp add: replace_doc_def)
  then show ?thesis by (simp add: unique_scopes_def)
qed

lemma unique_append: "unique_scopes ds \<Longrightarrow> doc_at ds (p_scope p) = None \<Longrightarrow> unique_scopes (ds @ [p])"
  by (auto simp: unique_scopes_def doc_at_None_iff)

lemma unique_filter: "unique_scopes ds \<Longrightarrow> unique_scopes (filter P ds)"
  by (simp add: unique_scopes_def distinct_map_filter)

lemma versioned_fields [simp]:
  "p_scope (versioned_doc p v now) = p_scope p"
  "g_version (p_governance (versioned_doc p v now)) = v"
  by (simp_all add: versioned_doc_def)

lemma mongo_insertD:
  assumes "mongo_writes_ok coll docs" "insert_one coll p db = Inr (i, db')"
  shows "doc_at (docs db) (p_scope p) = None" "docs db' = docs db @ [p\<lparr>p_id := Some i\<rparr>]"
proof -
  have "case insert_one coll p db of
      Inl e \<Rightarrow> e = DuplicateKeyError \<longrightarrow> doc_at (docs db) (p_scope p) \<noteq> None
    | Inr (i, db') \<Rightarrow> doc_at (docs db) (p_scope p) = None \<and> docs db' = docs db @ [p\<lparr>p_id := Some i\<rparr>]"
    using assms(1) unfolding mongo_writes_ok_def by blast
  then show "doc_at (docs db) (p_scope p) = None" "docs db' = docs db @ [p\<lparr>p_id := Some i\<rparr>]"
    by (simp_all add: assms(2))
qed

lemma mongo_replaceD:
  "mongo_writes_ok coll docs \<Longrightarrow> replace_one coll (p_scope p) p db = Inr db' \<Longrightarrow>
     if doc_at (docs db) (p_scope p) = None
     then (\<exists>i. docs db' = docs db @ [p\<lparr>p_id := Some i\<rparr>]) else docs db' = replace_doc p (docs db)"
  unfolding mongo_writes_ok_def by blast

lemma mongo_updateD:
  "mongo_writes_ok coll docs \<Longrightarrow> update_one coll (p_scope p) v p db = Inr (n, db') \<Longrightarrow>
     (case doc_at (docs db) (p_scope p) of
        Some d \<Rightarrow> if version_matches (Some v) d then n = 1 \<and> docs db' = replace_doc p (docs db)
                  else n = 0 \<and> docs db' = docs db
      | None \<Rightarrow> n = 0 \<and> docs db' = docs db)"
  unfolding mongo_writes_ok_def by blast

lemma mongo_deleteD:
  "mongo_writes_ok coll docs \<Longrightarrow> delete_one coll sc v db = Inr (n, db') \<Longrightarrow>
     (case doc_at (docs db) sc of
        Some d \<Rightarrow> if version_matches v d then n = 1 \<and> docs db' = filter (\<lambda>q. p_scope q \<noteq> sc) (docs db)
                  else n = 0 \<and> docs db' = docs db
      | None \<Rightarrow> n = 0 \<and> docs db' = docs db)"
  unfolding mongo_writes_ok_def by blast

lemma mongo_update_cases:
  assumes "mongo_writes_ok coll docs" "update_one coll (p_scope p) v p db = Inr (n, db')"
  obtains "n = 0" "docs db' = docs db" | "n = 1" "docs db' = replace_doc p (docs db)"
  using mongo_updateD [OF assms] that by (auto split: option.splits if_splits)

lemma mongo_delete_cases:
  assumes "mongo_writes_ok coll docs" "delete_one coll sc v db = Inr (n, db')"
  obtains "n = 0" "docs db' = docs db" | "n = 1" "docs db' = filter (\<lambda>q. p_scope q \<noteq> sc) (docs db)"
  using mongo_deleteD [OF assms] that by (auto split: option.splits if_splits)

text \<open>
  An edit with an expected version, on every branch: a missing document raises not-found and
  a stale version a conflict, both leaving the documents as they are; otherwise the document is
  replaced, its version goes up by one, no other document changes, and the cache is cleared.
\<close>
theorem replace_with_version_spec:
  assumes "mongo_reads_ok coll docs" "mongo_writes_ok coll docs"
    and "update_one coll (p_scope p) v (versioned_doc p (v + 1) now) (database r) = Inr (n, db')"
    and "find_one coll (p_scope p) db' = Inr found"
  shows "case doc_at (docs (database r)) (p_scope p) of
      None \<Rightarrow> fst (replace_with_version coll now p v r) = Inl (ProfileNotFoundError (p_scope p)) \<and>
        docs (database (snd (replace_with_version coll now p v r))) = docs (database r)
    | Some d \<Rightarrow>
        if g_version (p_governance d) \<noteq> v
        then fst (replace_with_version coll now p v r) = Inl (ProfileVersionConflictError (p_scope p) v) \<and>
          docs (database (snd (replace_with_version coll now p v r))) = docs (database r)
        else fst (replace_with_version coll now p v r) = Inr (v + 1) \<and>
          resolve_cache (snd (replace_with_version coll now p v r)) = Map.empty \<and>
          (\<forall>sc. doc_at (docs (database (snd (replace_with_version coll now p v r)))) sc =
             (if sc = p_scope p then Some ((versioned_doc p (v + 1) now)\<lparr>p_id := p_id d\<rparr>)
              else doc_at (docs (database r)) sc))"
proof -
  note upd = mongo_updateD [OF assms(2), of "versioned_doc p (v + 1) now" v "database r" n db']
  have "found = doc_at (docs db') (p_scope p)"
    using assms(1,4) by (simp add: mongo_reads_ok_def)
  with upd assms(3,4) show ?thesis
    by (auto simp: replace_with_version_def Let_def raise_write_conflict_def find_by_scope_def
        version_matches_def doc_at_replace split: option.splits if_splits)
qed

subsection \<open>The cache\<close>

definition plain_names :: "string \<Rightarrow> string \<Rightarrow> string \<Rightarrow> bool" where
  "plain_names p m e \<longleftrightarrow> CHR '':'' \<notin> set p \<and> CHR '':'' \<notin> set m \<and> CHR '':'' \<notin> set e"

lemma cache_key_inj:
  assumes "plain_names p m e" "plain_names p' m' e'"
  shows "cache_key p m e = cache_key p' m' e' \<longleftrightarrow> p = p' \<and> m = m' \<and> e = e'"
  using assms by (auto simp: cache_key_def plain_names_def separator_inj)

text \<open>Names that contain the separator may share a key.\<close>

lemma cache_key_collision: "cache_key ''A:B'' ''C'' ''D'' = cache_key ''A'' ''B:C'' ''D''"
  by (simp add: cache_key_def)

text \<open>Once a document matches, the fold no longer depends on the clock.\<close>

lemma fold_now_irrelevant:
  assumes "ps \<noteq> []"
  shows "fold_profiles now ps t = fold_profiles now' ps t"
proof -
  have "foldl (\<lambda>_ p. p_governance p) g ps = p_governance (last ps)" for g
    using assms by (induction ps rule: rev_induct) auto
  then show ?thesis by (simp add: fold_profiles_def)
qed

definition resolves_to :: "MonitorProfile list \<Rightarrow> string \<Rightarrow> string \<Rightarrow> string \<Rightarrow> MonitorProfile option \<Rightarrow> bool" where
  "resolves_to ds p m e res =
     (case res of
        None \<Rightarrow> ancestors ds p m e = []
      | Some eff \<Rightarrow> ancestors ds p m e \<noteq> [] \<and>
          fold_profiles 0 (ancestors ds p m e) (mk_scope p m e) = Inr eff)"

definition cache_coherent :: "('db \<Rightarrow> MonitorProfile list) \<Rightarrow> 'db ProfileRepository \<Rightarrow> bool" where
  "cache_coherent docs r =
     (\<forall>k prof. resolve_cache r k = Some prof \<longrightarrow>
        (\<exists>p m e. plain_names p m e \<and> k = cache_key p m e \<and> resolves_to (docs (database r)) p m e (Some prof)))"

definition repo_ok :: "('db \<Rightarrow> MonitorProfile list) \<Rightarrow> 'db ProfileRepository \<Rightarrow> bool" where
  "repo_ok docs r = (unique_scopes (docs (database r)) \<and> cache_coherent docs r)"

inductive repo_step :: "'db collection \<Rightarrow> 'db ProfileRepository \<Rightarrow> 'db ProfileRepository \<Rightarrow> bool" for coll where
  step_create: "repo_step coll r (snd (repo_create coll p r))"
| step_upsert: "repo_step coll r (snd (repo_upsert coll p r))"
| step_replace: "repo_step coll r (snd (replace_with_version coll now p v r))"
| step_delete: "repo_step coll r (snd (delete_by_scope coll sc v r))"
| step_resolve: "plain_names p m e \<Longrightarrow> repo_step coll r (fst (snd (resolve_profile coll now live p m e r)))"

lemma repo_ok_cleared: "unique_scopes (docs db) \<Longrightarrow> repo_ok docs \<lparr>database = db, resolve_cache = Map.empty\<rparr>"
  by (simp add: repo_ok_def cache_coherent_def)

lemma repo_ok_same_docs: "repo_ok docs r \<Longrightarrow> docs db' = docs (database r) \<Longrightarrow> repo_ok docs (r\<lparr>database := db'\<rparr>)"
  by (simp add: repo_ok_def cache_coherent_def)

lemma resolve_outcome:
  assumes "mongo_reads_ok coll docs" "repo_ok docs r" "plain_names p m e"
  shows "(case fst (resolve_profile coll now live p m e r) of Inl _ \<Rightarrow> True
      | Inr res \<Rightarrow> resolves_to (docs (database r)) p m e res) \<and>
    repo_ok docs (fst (snd (resolve_profile coll now live p m e r)))"
proof (cases "if live (cache_key p m e) then resolve_cache r (cache_key p m e) else None")
  case (Some prof)
  then have "resolve_cache r (cache_key p m e) = Some prof" by (simp split: if_splits)
  with assms(2,3) have "resolves_to (docs (database r)) p m e (Some prof)"
    by (auto simp: repo_ok_def cache_coherent_def dest!: cache_key_inj [THEN iffD1, rotated 2])
  with Some assms(2) show ?thesis by (simp add: resolve_profile_def)
next
  case miss: None
  show ?thesis
  proof (cases "collect_scope_docs coll p m e r")
    case (Inl x)
    with miss assms(2) show ?thesis by (simp add: resolve_profile_def)
  next
    case (Inr ps)
    then have ps: "ps = ancestors (docs (database r)) p m e"
      using assms(1,2) sort_ancestors [of "docs (database r)"]
      by (auto simp: collect_scope_docs_def mongo_reads_ok_def repo_ok_def split: sum.splits)
    show ?thesis
    proof (cases "ps = []")
      case True
      with miss Inr ps assms(2) show ?thesis by (simp add: resolve_profile_def resolves_to_def)
    next
      case False
      obtain eff where eff: "fold_profiles now ps (mk_scope p m e) = Inr eff"
        by (simp add: fold_profiles_eq)
      then have "resolves_to (docs (database r)) p m e (Some eff)"
        using False ps fold_now_irrelevant [OF False, of now _ 0] by (simp add: resolves_to_def)
      moreover from this have "repo_ok docs (r\<lparr>resolve_cache := (resolve_cache r)(cache_key p m e \<mapsto> eff)\<rparr>)"
        using assms(2,3) by (auto simp: repo_ok_def cache_coherent_def)
      ultimately show ?thesis
        using miss Inr False eff by (simp add: resolve_profile_def)
    qed
  qed
qed

lemma repo_step_ok:
  assumes reads: "mongo_reads_ok coll docs" and writes: "mongo_writes_ok coll docs"
  shows "repo_step coll r r' \<Longrightarrow> repo_ok docs r \<Longrightarrow> repo_ok docs r'"
proof (induction rule: repo_step.induct)
  case (step_create r p)
  then have "unique_scopes (docs (database r))" by (simp add: repo_ok_def)
  with step_create show ?case
    by (cases "insert_one coll p (database r)")
       (auto simp: repo_create_def mongo_insertD [OF writes] intro!: repo_ok_cleared unique_append)
next
  case (step_upsert r p)
  then have u: "unique_scopes (docs (database r))" by (simp add: repo_ok_def)
  show ?case
  proof (cases "replace_one coll (p_scope p) p (database r)")
    case (Inr db')
    from mongo_replaceD [OF writes Inr] u have "unique_scopes (docs db')"
      by (auto intro!: unique_append split: if_splits)
    with Inr show ?thesis by (simp add: repo_upsert_def repo_ok_cleared)
  qed (simp add: repo_upsert_def step_upsert)
next
  case (step_replace r now p v)
  then have u: "unique_scopes (docs (database r))" by (simp add: repo_ok_def)
  let ?p = "versioned_doc p (v + 1) now"
  show ?case
  proof (cases "update_one coll (p_scope p) v ?p (database r)")
    case (Inr res)
    then obtain n db' where res: "update_one coll (p_scope ?p) v ?p (database r) = Inr (n, db')"
      by (cases res) simp
    from mongo_update_cases [OF writes res] show ?thesis
      by cases (use res u step_replace in \<open>simp_all add: replace_with_version_def Let_def repo_ok_cleared repo_ok_same_docs\<close>)
  qed (simp add: replace_with_version_def Let_def step_replace)
next
  case (step_delete r sc v)
  then have u: "unique_scopes (docs (database r))" by (simp add: repo_ok_def)
  show ?case
  proof (cases "delete_one coll sc v (database r)")
    case (Inr res)
    then obtain n db' where res: "delete_one coll sc v (database r) = Inr (n, db')"
      by (cases res) simp
    from mongo_delete_cases [OF writes res] show ?thesis
      by cases (use res u step_delete in \<open>simp_all add: delete_by_scope_def repo_ok_cleared repo_ok_same_docs unique_filter\<close>)
  qed (simp add: delete_by_scope_def step_delete)
next
  case (step_resolve p m e r now live)
  with resolve_outcome [OF reads] show ?case by blast
qed


subsection \<open>Templates\<close>

lemma first_found_split:
  "first_found lookup qs = Inr (Some d) \<longleftrightarrow>
     (\<exists>pre q post. qs = pre @ q # post \<and> lookup q = Inr (Some d) \<and> (\<forall>x\<in>set pre. lookup x = Inr None))"
proof (induction qs)
  case (Cons q qs)
  show ?case
  proof (cases "lookup q = Inr None")
    case True
    then have "(\<exists>pre x post. q # qs = pre @ x # post \<and> lookup x = Inr (Some d) \<and> (\<forall>y\<in>set pre. lookup y = Inr None)) \<longleftrightarrow>
        (\<exists>pre x post. qs = pre @ x # post \<and> lookup x = Inr (Some d) \<and> (\<forall>y\<in>set pre. lookup y = Inr None))"
    proof (safe, goal_cases)
      case (1 pre x post)
      then show ?case by (cases pre) auto
    next
      case (2 pre x post)
      then show ?case by (intro exI [of _ "q # pre"]) auto
    qed
    with True Cons show ?thesis by simp
  next
    case False
    then have "(\<exists>pre x post. q # qs = pre @ x # post \<and> lookup x = Inr (Some d) \<and> (\<forall>y\<in>set pre. lookup y = Inr None)) \<longleftrightarrow>
        lookup q = Inr (Some d)"
    proof (safe, goal_cases)
      case (1 pre x post)
      then show ?case by (cases pre) auto
    next
      case 2
      then show ?case by (intro exI [of _ "[]"]) auto
    qed
    with False show ?thesis by (auto split: sum.splits option.splits)
  qed
qed simp

lemma first_found_None:
  "first_found lookup qs = Inr None \<longleftrightarrow> (\<forall>q\<in>set qs. lookup q = Inr None)"
  by (induction qs) (auto split: sum.splits option.splits)

text \<open>
  The template lookup returns the document of the most specific of the five keys that has one,
  and nothing exactly when none of the five has.
\<close>
theorem find_template_most_specific:
  "(find_template lookup app process model code subcode = Inr (Some d) \<longleftrightarrow>
      (\<exists>pre q post. fallback_queries app process model code subcode = pre @ q # post \<and>
         lookup q = Inr (Some d) \<and> (\<forall>x\<in>set pre. lookup x = Inr None))) \<and>
   (find_template lookup app process model code subcode = Inr None \<longleftrightarrow>
      (\<forall>q\<in>set (fallback_queries app process model code subcode). lookup q = Inr None))"
proof -
  let ?f = "first_found lookup (fallback_queries app process model code subcode)"
  have "find_template lookup app process model code subcode = Inr x \<longleftrightarrow> ?f = Inr x" for x
    by (simp add: find_template_def split: sum.splits)
  then show ?thesis by (simp only: first_found_split first_found_None simp_thms)
qed

theorem find_template_most_specific_witness:
  "find_template (\<lambda>q. if q = (''ARS'', ''_'', ''_'', ''RESOURCE_MONITOR'', ''_'') then Inr (Some (7 :: nat)) else Inr None)
     ''ARS'' ''ETCH'' ''M1'' ''RESOURCE_MONITOR'' ''CPU'' = Inr (Some 7)"
  by (subst find_template_most_specific [THEN conjunct1])
     (rule exI [of _ "take 3 (fallback_queries ''ARS'' ''ETCH'' ''M1'' ''RESOURCE_MONITOR'' ''CPU'')"],
      simp add: fallback_queries_def)

subsection \<open>A collection kept in a list\<close>

definition list_collection :: "MonitorProfile list collection" where
  "list_collection = \<lparr>
     insert_one = (\<lambda>p ds. if doc_at ds (p_scope p) = None then Inr (''oid'', ds @ [p\<lparr>p_id := Some ''oid''\<rparr>])
                          else Inl DuplicateKeyError),
     replace_one = (\<lambda>sc p ds. if doc_at ds sc = None then Inr (ds @ [p\<lparr>p_id := Some ''oid''\<rparr>])
                              else Inr (replace_doc p ds)),
     update_one = (\<lambda>sc v p ds. case doc_at ds sc of
         Some d \<Rightarrow> if version_matches (Some v) d then Inr (1, replace_doc p ds) else Inr (0, ds)
       | None \<Rightarrow> Inr (0, ds)),
     delete_one = (\<lambda>sc v ds. case doc_at ds sc of
         Some d \<Rightarrow> if version_matches v d then Inr (1, filter (\<lambda>q. p_scope q \<noteq> sc) ds) else Inr (0, ds)
       | None \<Rightarrow> Inr (0, ds)),
     find_one = (\<lambda>sc ds. Inr (doc_at ds sc)),
     find_any = (\<lambda>scs ds. Inr (filter (\<lambda>p. p_scope p \<in> set scs) ds)),
     find_enabled = (\<lambda>procs ds. Inr (filter (\<lambda>p. s_process (p_scope p) \<in> set procs \<and> p_enabled p) ds))\<rparr>"

lemma list_collection_ok:
  "mongo_reads_ok list_collection (\<lambda>ds. ds)" "mongo_writes_ok list_collection (\<lambda>ds. ds)"
  by (auto simp: mongo_reads_ok_def mongo_writes_ok_def list_collection_def split: option.splits)

definition sample_repo :: "MonitorProfile list ProfileRepository" where
  "sample_repo = \<lparr>database = [sample_profile], resolve_cache = Map.empty\<rparr>"

lemma sample_repo_unique: "unique_scopes (database sample_repo)"
  by (simp add: sample_repo_def unique_scopes_def)

theorem collect_scope_docs_ordered_witness:
  "collect_scope_docs list_collection ''ETCH'' ''M'' ''E1'' sample_repo =
     Inr (ancestors (database sample_repo) ''ETCH'' ''M'' ''E1'')"
proof -
  obtain ps where ps: "collect_scope_docs list_collection ''ETCH'' ''M'' ''E1'' sample_repo = Inr ps"
    by (simp add: collect_scope_docs_def list_collection_def)
  with collect_scope_docs_ordered [OF list_collection_ok(1) sample_repo_unique ps] show ?thesis by simp
qed

lemma sample_scope: "p_scope sample_profile = mk_scope wildcard wildcard wildcard"
  by (simp add: sample_defs mk_scope_def wildcard_def)

lemma sample_ancestors: "ancestors [sample_profile] ''ETCH'' ''M'' ''E1'' = [sample_profile]"
  by (simp add: ancestors_def cascade_triples_def dedupe_def doc_at_def sample_scope mk_scope_def wildcard_def
      List.map_filter_def)


lemma sample_rule_active:
  "fold_profiles 0 [sample_profile] (mk_scope ''ETCH'' ''M'' ''E1'') =
     Inr (sample_profile\<lparr>p_scope := mk_scope ''ETCH'' ''M'' ''E1''\<rparr>)"
  by (simp add: fold_profiles_eq sample_defs merge_measures_def merge_rules_def merge_notify_def dict_of_def
      bake_rule_def default_governance_def)


theorem replace_with_version_spec_witness:
  "fst (replace_with_version list_collection 5 sample_profile 1 sample_repo) = Inr 2"
proof -
  have d: "doc_at [sample_profile] (p_scope sample_profile) = Some sample_profile" by (simp add: doc_at_def)
  have v: "g_version (p_governance sample_profile) = 1" by (simp add: sample_defs default_governance_def)
  have "update_one list_collection (p_scope sample_profile) 1 (versioned_doc sample_profile (1 + 1) 5) (database sample_repo) =
      Inr (1, replace_doc (versioned_doc sample_profile (1 + 1) 5) [sample_profile])"
    by (simp add: list_collection_def sample_repo_def d version_matches_def v)
  from replace_with_version_spec [OF list_collection_ok this] show ?thesis
    by (simp add: list_collection_def sample_repo_def d v)
qed

end
