(* ===== verification/Threshold.thy ===== *)
theory Threshold
  imports Models
begin

text \<open>
  \<open>src/src/analyzer/threshold.py\<close>: evaluation of a rule over the facts computed for one
  (equipment, process) target. A fact value is \<open>float | None\<close>. Comparing a number with a string
  by an ordering operator raises \<open>TypeError\<close>, which is the only exception; the validators of
  \<open>Models\<close> exclude it.
\<close>

datatype EvalError = Type_error

record ThresholdBreach =
  t_eqp_id :: string
  t_proc :: string
  t_rule_id :: string
  t_fact :: string
  t_category :: string
  t_op :: Operator
  t_current_value :: "rat option"
  t_threshold_value :: Value
  t_severity :: Severity

text \<open>The table \<open>_NUMERIC_OPS\<close> applied to two Python values.\<close>

definition py_less :: "Value \<Rightarrow> Value \<Rightarrow> EvalError + bool" where
  "py_less a b =
     (case (a, b) of
        (Num x, Num y) \<Rightarrow> Inr (x < y)
      | (Str x, Str y) \<Rightarrow> Inr (x < y)
      | _ \<Rightarrow> Inl Type_error)"

definition py_less_eq :: "Value \<Rightarrow> Value \<Rightarrow> EvalError + bool" where
  "py_less_eq a b =
     (case (a, b) of
        (Num x, Num y) \<Rightarrow> Inr (x \<le> y)
      | (Str x, Str y) \<Rightarrow> Inr (x \<le> y)
      | _ \<Rightarrow> Inl Type_error)"

fun numeric_op :: "Operator \<Rightarrow> Value \<Rightarrow> Value \<Rightarrow> EvalError + bool" where
  "numeric_op OP_GE v t = py_less_eq t v"
| "numeric_op OP_GT v t = py_less t v"
| "numeric_op OP_LE v t = py_less_eq v t"
| "numeric_op OP_LT v t = py_less v t"
| "numeric_op OP_EQ v t = Inr (v = t)"
| "numeric_op OP_NE v t = Inr (v \<noteq> t)"
| "numeric_op OP_TREND v t = Inr (v = t)"

definition op_compare :: "Value option \<Rightarrow> Operator \<Rightarrow> Value \<Rightarrow> EvalError + bool" where
  "op_compare value op threshold =
     (if op = OP_TREND then Inr (value = Some threshold)
      else case value of None \<Rightarrow> Inr False | Some v \<Rightarrow> numeric_op op v threshold)"

text \<open>\<open>_worst\<close>; called on a non-empty list only.\<close>

definition worst :: "rat list \<Rightarrow> Operator \<Rightarrow> rat" where
  "worst vals op =
     (if op = OP_GE \<or> op = OP_GT then fold max (tl vals) (hd vals)
      else if op = OP_LE \<or> op = OP_LT then fold min (tl vals) (hd vals)
      else hd vals)"

definition present :: "rat option list \<Rightarrow> rat list" where
  "present vals = List.map_filter (\<lambda>v. v) vals"

definition head_opt :: "'a list \<Rightarrow> 'a option" where
  "head_opt xs = (case xs of [] \<Rightarrow> None | x # _ \<Rightarrow> Some x)"

definition quantified :: "Condition \<Rightarrow> nat \<Rightarrow> nat \<Rightarrow> bool" where
  "quantified c n present_n =
     (case c_quantifier c of
        Q_any \<Rightarrow> n \<ge> 1
      | Q_all \<Rightarrow> present_n > 0 \<and> n = present_n
      | Q_count \<Rightarrow> int n \<ge> (case c_count_min c of None \<Rightarrow> 0 | Some k \<Rightarrow> k))"

definition evaluate_condition ::
  "Condition \<Rightarrow> rat option list \<Rightarrow> EvalError + (bool \<times> rat option)" where
  "evaluate_condition c vals =
     bind_res
       (if c_op c = OP_TREND
        then filter_res (\<lambda>v. op_compare (map_option Num v) (c_op c) (c_value c)) vals
        else filter_res (\<lambda>v. op_compare (map_option Num v) (c_op c) (c_value c))
               (map Some (present vals)))
       (\<lambda>passing.
          if \<not> quantified c (length passing) (length (present vals))
          then Inr (False, head_opt (present vals))
          else Inr (True,
            (let numeric = present passing
             in if numeric \<noteq> [] then Some (worst numeric (c_op c))
                else (case passing of [] \<Rightarrow> None | v # _ \<Rightarrow> v))))"

definition evaluate_rule ::
  "Rule \<Rightarrow> (string, rat option list) dict \<Rightarrow> string \<Rightarrow> string \<Rightarrow> (string, string) dict
     \<Rightarrow> EvalError + ThresholdBreach option" where
  "evaluate_rule rule facts_by_ref eqp_id proc measure_category =
     bind_res
       (map_res (\<lambda>c. bind_res (evaluate_condition c (dict_get facts_by_ref (c_fact c) []))
                        (\<lambda>(passed, rep). Inr (c, passed, rep))) (r_when rule))
       (\<lambda>results.
          let flags = map (\<lambda>(c, p, rep). p) results;
              breached = (if r_combine rule = Combine_AND then list_all (\<lambda>p. p) flags
                          else list_ex (\<lambda>p. p) flags)
          in if \<not> breached \<or> results = [] then Inr None
             else
               (let trigger = (case find (\<lambda>(c, p, rep). p) results of
                                 Some r \<Rightarrow> r | None \<Rightarrow> hd results)
                in case trigger of (c, _, rep) \<Rightarrow>
                     Inr (Some \<lparr>t_eqp_id = eqp_id, t_proc = proc, t_rule_id = r_id rule,
                                t_fact = c_fact c,
                                t_category = dict_get measure_category
                                  (fst (str_partition CHR ''.'' (c_fact c))) [],
                                t_op = c_op c, t_current_value = rep,
                                t_threshold_value = c_value c,
                                t_severity = r_severity rule\<rparr>)))"

subsection \<open>What a condition means\<close>

fun cmp :: "Operator \<Rightarrow> rat \<Rightarrow> rat \<Rightarrow> bool" where
  "cmp OP_GE v t \<longleftrightarrow> v \<ge> t"
| "cmp OP_GT v t \<longleftrightarrow> v > t"
| "cmp OP_LE v t \<longleftrightarrow> v \<le> t"
| "cmp OP_LT v t \<longleftrightarrow> v < t"
| "cmp OP_EQ v t \<longleftrightarrow> v = t"
| "cmp OP_NE v t \<longleftrightarrow> v \<noteq> t"
| "cmp OP_TREND v t \<longleftrightarrow> False"

definition satisfies :: "Condition \<Rightarrow> rat \<Rightarrow> bool" where
  "satisfies c v \<longleftrightarrow> (\<exists>t. c_value c = Num t \<and> cmp (c_op c) v t)"

definition condition_holds :: "Condition \<Rightarrow> rat option list \<Rightarrow> bool" where
  "condition_holds c vals \<longleftrightarrow>
     (let vs = present vals in
      case c_quantifier c of
        Q_any \<Rightarrow> (\<exists>v\<in>set vs. satisfies c v)
      | Q_all \<Rightarrow> vs \<noteq> [] \<and> (\<forall>v\<in>set vs. satisfies c v)
      | Q_count \<Rightarrow> (\<exists>k. c_count_min c = Some k \<and> int (length (filter (satisfies c) vs)) \<ge> k))"

definition representative :: "Condition \<Rightarrow> rat option list \<Rightarrow> rat \<Rightarrow> bool" where
  "representative c vals v \<longleftrightarrow>
     v \<in> set (present vals) \<and> satisfies c v
     \<and> (\<forall>w\<in>set (present vals). satisfies c w \<longrightarrow>
          (c_op c \<in> {OP_GE, OP_GT} \<longrightarrow> w \<le> v) \<and> (c_op c \<in> {OP_LE, OP_LT} \<longrightarrow> v \<le> w))"

definition rule_fires :: "Rule \<Rightarrow> (string \<Rightarrow> rat option list) \<Rightarrow> bool" where
  "rule_fires r facts \<longleftrightarrow>
     (if r_combine r = Combine_AND then \<forall>c\<in>set (r_when r). condition_holds c (facts (c_fact c))
      else \<exists>c\<in>set (r_when r). condition_holds c (facts (c_fact c)))"

lemma numeric_op_Num [simp]: "op \<noteq> OP_TREND \<Longrightarrow> numeric_op op (Num v) (Num t) = Inr (cmp op v t)"
  by (cases op) (simp_all add: py_less_def py_less_eq_def)

lemma present_simps [simp]:
  "present [] = []"
  "present (None # vs) = present vs"
  "present (Some v # vs) = v # present vs"
  "present (map Some xs) = xs"
  by (simp_all add: present_def List.map_filter_def comp_def)

lemma set_present: "v \<in> set (present vals) \<longleftrightarrow> Some v \<in> set vals"
  by (auto simp: present_def set_map_filter_iff)

lemma present_Nil_iff: "present vals = [] \<longleftrightarrow> (\<forall>v\<in>set vals. v = None)"
proof (induction vals)
  case (Cons v vals)
  then show ?case by (cases v) auto
qed simp

lemma worst_high: "xs \<noteq> [] \<Longrightarrow> op \<in> {OP_GE, OP_GT} \<Longrightarrow> worst xs op = Max (set xs)"
  by (cases xs) (auto simp: worst_def Max.set_eq_fold [symmetric])

lemma worst_low: "xs \<noteq> [] \<Longrightarrow> op \<in> {OP_LE, OP_LT} \<Longrightarrow> worst xs op = Min (set xs)"
  by (cases xs) (auto simp: worst_def Min.set_eq_fold [symmetric])

lemma worst_in: "xs \<noteq> [] \<Longrightarrow> worst xs op \<in> set xs"
proof (cases "op \<in> {OP_GE, OP_GT}")
  case True
  then show "xs \<noteq> [] \<Longrightarrow> worst xs op \<in> set xs" by (simp add: worst_high)
next
  case False
  then show "xs \<noteq> [] \<Longrightarrow> worst xs op \<in> set xs"
    by (cases "op \<in> {OP_LE, OP_LT}") (simp add: worst_low, simp add: worst_def)
qed

text \<open>On a validated condition the filter keeps exactly the satisfying values.\<close>

lemma passing_numeric:
  assumes "wf_condition c" and "c_op c \<noteq> OP_TREND"
  shows "filter_res (\<lambda>v. op_compare (map_option Num v) (c_op c) (c_value c)) (map Some vs)
    = Inr (map Some (filter (satisfies c) vs))"
proof -
  from assms obtain t where t: "c_value c = Num t"
    by (cases "c_value c") (auto simp: wf_condition_def)
  have "filter_res (\<lambda>v. op_compare (map_option Num v) (c_op c) (c_value c)) (map Some vs)
      = Inr (filter (\<lambda>v. satisfies c (the v)) (map Some vs))"
    by (rule filter_res_Inr) (use assms(2) t in \<open>auto simp: op_compare_def satisfies_def\<close>)
  then show ?thesis by (simp add: filter_map comp_def)
qed

lemma passing_trend:
  assumes "wf_condition c" and "c_op c = OP_TREND"
  shows "filter_res (\<lambda>v. op_compare (map_option Num v) OP_TREND (c_value c)) vals = Inr []"
proof -
  from assms obtain s where "c_value c = Str s"
    by (cases "c_value c") (auto simp: wf_condition_def)
  then have "filter_res (\<lambda>v. op_compare (map_option Num v) OP_TREND (c_value c)) vals
      = Inr (filter (\<lambda>_. False) vals)"
    by (intro filter_res_Inr) (auto simp: op_compare_def)
  then show ?thesis by simp
qed

lemma satisfies_trend: "wf_condition c \<Longrightarrow> c_op c = OP_TREND \<Longrightarrow> \<not> satisfies c v"
  by (auto simp: satisfies_def)

lemma quantified_iff_holds:
  assumes "wf_condition c"
  shows "quantified c (length (filter (satisfies c) (present vals))) (length (present vals))
    \<longleftrightarrow> condition_holds c vals"
proof (cases "c_quantifier c")
  case Q_any
  then show ?thesis
    by (auto simp: quantified_def condition_holds_def Suc_le_eq filter_empty_conv)
next
  case Q_all
  then show ?thesis
    by (auto simp: quantified_def condition_holds_def Let_def length_filter_less filter_True
        intro: sym) (metis length_filter_less less_irrefl)
next
  case Q_count
  with assms show ?thesis
    by (auto simp: quantified_def condition_holds_def wf_condition_def)
qed

lemma holds_nonempty:
  assumes "wf_condition c" and "condition_holds c vals"
  shows "filter (satisfies c) (present vals) \<noteq> []"
proof (cases "c_quantifier c")
  case Q_count
  with assms obtain k where "c_count_min c = Some k" "k \<ge> 1"
    "int (length (filter (satisfies c) (present vals))) \<ge> k"
    by (auto simp: condition_holds_def wf_condition_def)
  then show ?thesis by auto
qed (use assms in \<open>auto simp: condition_holds_def filter_empty_conv neq_Nil_conv Let_def\<close>)

lemma worst_representative:
  assumes "filter (satisfies c) (present vals) \<noteq> []"
  shows "representative c vals (worst (filter (satisfies c) (present vals)) (c_op c))"
proof -
  let ?p = "filter (satisfies c) (present vals)"
  have "worst ?p (c_op c) \<in> set ?p" using assms by (rule worst_in)
  moreover have "w \<le> worst ?p (c_op c)" if "c_op c \<in> {OP_GE, OP_GT}" "w \<in> set ?p" for w
    unfolding worst_high [OF assms that(1)] using that(2) by (intro Max_ge) auto
  moreover have "worst ?p (c_op c) \<le> w" if "c_op c \<in> {OP_LE, OP_LT}" "w \<in> set ?p" for w
    unfolding worst_low [OF assms that(1)] using that(2) by (intro Min_le) auto
  ultimately show ?thesis by (simp add: representative_def)
qed

lemma evaluate_condition_eq:
  assumes "wf_condition c"
  shows "evaluate_condition c vals =
    Inr (if condition_holds c vals
         then (True, Some (worst (filter (satisfies c) (present vals)) (c_op c)))
         else (False, head_opt (present vals)))"
proof (cases "c_op c = OP_TREND")
  case True
  then have none: "filter (satisfies c) (present vals) = []"
    using assms by (simp add: satisfies_trend)
  then have "\<not> condition_holds c vals"
    using holds_nonempty [OF assms] by blast
  moreover from this have "\<not> quantified c 0 (length (present vals))"
    using quantified_iff_holds [OF assms, of vals] none by simp
  ultimately show ?thesis
    using True assms by (simp add: evaluate_condition_def passing_trend)
next
  case False
  then show ?thesis
    using assms quantified_iff_holds [OF assms, of vals] holds_nonempty [OF assms, of vals]
    by (simp add: evaluate_condition_def passing_numeric Let_def)
qed

text \<open>
  Evaluating a validated condition never raises and decides the quantified comparison: it
  passes exactly when some (\<open>any\<close>), all of at least one (\<open>all\<close>) or at least \<open>count_min\<close>
  (\<open>count\<close>) of the present values satisfy the operator; absent values count for nothing. When it
  passes, the value it reports is present, satisfies the operator, and is the most extreme of
  the satisfying values in the operator's direction.
\<close>

theorem evaluate_condition_correct:
  assumes "wf_condition c"
  shows "\<exists>rep. evaluate_condition c vals = Inr (condition_holds c vals, rep)
    \<and> (condition_holds c vals \<longrightarrow> (\<exists>v. rep = Some v \<and> representative c vals v))"
  using evaluate_condition_eq [OF assms, of vals] holds_nonempty [OF assms, of vals]
    worst_representative [of c vals]
  by auto

lemma evaluate_conditions:
  assumes "list_all wf_condition cs"
  shows "map_res (\<lambda>c. bind_res (evaluate_condition c (f c)) (\<lambda>(passed, rep). Inr (c, passed, rep))) cs
    = Inr (map (\<lambda>c. (c, condition_holds c (f c),
        if condition_holds c (f c) then Some (worst (filter (satisfies c) (present (f c))) (c_op c))
        else head_opt (present (f c)))) cs)"
  by (rule map_res_Inr) (use assms in \<open>auto simp: list_all_iff evaluate_condition_eq\<close>)

lemma find_map_flag:
  "find (\<lambda>(c, p, rep). p) (map (\<lambda>c. (c, P c, g c)) cs) = map_option (\<lambda>c. (c, P c, g c)) (find P cs)"
  by (induction cs) auto

lemma flags_map:
  "list_all (\<lambda>p. p) (map (\<lambda>(c, p, rep). p) (map (\<lambda>c. (c, P c, g c)) cs)) = list_all P cs"
  "list_ex (\<lambda>p. p) (map (\<lambda>(c, p, rep). p) (map (\<lambda>c. (c, P c, g c)) cs)) = list_ex P cs"
  by (induction cs) auto

lemma find_Some_ex: "(\<exists>x\<in>set xs. P x) \<Longrightarrow> \<exists>x. find P xs = Some x \<and> x \<in> set xs \<and> P x"
  by (induction xs) auto

text \<open>The breach that condition \<open>c\<close> of rule \<open>r\<close> gives rise to.\<close>

definition breach_of ::
  "Rule \<Rightarrow> Condition \<Rightarrow> (string, rat option list) dict \<Rightarrow> string \<Rightarrow> string \<Rightarrow> (string, string) dict
     \<Rightarrow> ThresholdBreach" where
  "breach_of r c facts eqp proc cat =
     \<lparr>t_eqp_id = eqp, t_proc = proc, t_rule_id = r_id r, t_fact = c_fact c,
      t_category = dict_get cat (fst (str_partition CHR ''.'' (c_fact c))) [], t_op = c_op c,
      t_current_value = Some (worst (filter (satisfies c) (present (dict_get facts (c_fact c) []))) (c_op c)),
      t_threshold_value = c_value c, t_severity = r_severity r\<rparr>"

lemma rule_fires_list:
  "rule_fires r (\<lambda>k. dict_get facts k []) \<longleftrightarrow>
     (if r_combine r = Combine_AND
      then list_all (\<lambda>c. condition_holds c (dict_get facts (c_fact c) [])) (r_when r)
      else list_ex (\<lambda>c. condition_holds c (dict_get facts (c_fact c) [])) (r_when r))"
  by (simp add: rule_fires_def list_all_iff list_ex_iff)

lemma rule_fires_trigger:
  assumes "wf_rule r" and "rule_fires r (\<lambda>k. dict_get facts k [])"
  obtains c where "find (\<lambda>c. condition_holds c (dict_get facts (c_fact c) [])) (r_when r) = Some c"
    "c \<in> set (r_when r)" "condition_holds c (dict_get facts (c_fact c) [])"
proof -
  from assms have "\<exists>c\<in>set (r_when r). condition_holds c (dict_get facts (c_fact c) [])"
    by (auto simp: rule_fires_def wf_rule_def neq_Nil_conv split: if_splits)
  from find_Some_ex [OF this] that show thesis by blast
qed

lemma evaluate_rule_silent:
  assumes "wf_rule r" and "\<not> rule_fires r (\<lambda>k. dict_get facts k [])"
  shows "evaluate_rule r facts eqp proc cat = Inr None"
proof -
  from assms(1) have wf: "list_all wf_condition (r_when r)" by (simp add: wf_rule_def)
  show ?thesis
    using assms(2)
    unfolding evaluate_rule_def evaluate_conditions [OF wf] bind_res_simps Let_def flags_map
      rule_fires_list
    by simp
qed

lemma evaluate_rule_breach:
  assumes "wf_rule r" and "rule_fires r (\<lambda>k. dict_get facts k [])"
    and c: "find (\<lambda>c. condition_holds c (dict_get facts (c_fact c) [])) (r_when r) = Some c"
      "condition_holds c (dict_get facts (c_fact c) [])"
  shows "evaluate_rule r facts eqp proc cat = Inr (Some (breach_of r c facts eqp proc cat))"
proof -
  from assms(1) have wf: "list_all wf_condition (r_when r)" and ne: "r_when r \<noteq> []"
    by (simp_all add: wf_rule_def)
  show ?thesis
    using assms(2) ne c
    unfolding evaluate_rule_def evaluate_conditions [OF wf] bind_res_simps Let_def flags_map
      find_map_flag rule_fires_list
    by (simp add: breach_of_def)
qed

text \<open>
  C6. Evaluating a validated rule never raises. It yields a breach exactly when the rule fires
  (all conditions under AND, some condition under OR); the breach names the target, the rule
  and its severity, and its fact, operator, threshold and current value come from one condition
  of the rule that holds, the value being a representative of that condition's satisfying values.
\<close>

theorem evaluate_rule_correct:
  assumes "wf_rule r"
  shows "\<exists>out. evaluate_rule r facts eqp proc cat = Inr out
    \<and> (out = None \<longleftrightarrow> \<not> rule_fires r (\<lambda>k. dict_get facts k []))
    \<and> (\<forall>b. out = Some b \<longrightarrow>
         t_eqp_id b = eqp \<and> t_proc b = proc \<and> t_rule_id b = r_id r \<and> t_severity b = r_severity r
         \<and> (\<exists>c\<in>set (r_when r). \<exists>v. t_fact b = c_fact c \<and> t_op b = c_op c
              \<and> t_threshold_value b = c_value c \<and> t_current_value b = Some v
              \<and> condition_holds c (dict_get facts (c_fact c) [])
              \<and> representative c (dict_get facts (c_fact c) []) v))"
proof (cases "rule_fires r (\<lambda>k. dict_get facts k [])")
  case False
  with evaluate_rule_silent [OF assms] show ?thesis by simp
next
  case True
  with assms obtain c where c: "find (\<lambda>c. condition_holds c (dict_get facts (c_fact c) [])) (r_when r) = Some c"
    "c \<in> set (r_when r)" "condition_holds c (dict_get facts (c_fact c) [])"
    by (rule rule_fires_trigger)
  from assms c(2) have "wf_condition c" by (simp add: wf_rule_def list_all_iff)
  with c(3) have "representative c (dict_get facts (c_fact c) [])
      (worst (filter (satisfies c) (present (dict_get facts (c_fact c) []))) (c_op c))"
    by (intro worst_representative holds_nonempty)
  with c evaluate_rule_breach [OF assms True c(1,3)] True show ?thesis
    by (simp add: breach_of_def) blast
qed

text \<open>
  A target that reported no data cannot raise an alert: if every fact the rule refers to is
  missing or holds only absent values, a validated rule does not fire, whatever its quantifiers
  and its combination.
\<close>
theorem no_data_no_breach:
  assumes "wf_rule r" and "\<forall>c\<in>set (r_when r). \<forall>v\<in>set (dict_get facts (c_fact c) []). v = None"
  shows "evaluate_rule r facts eqp proc cat = Inr None"
proof (rule evaluate_rule_silent [OF assms(1)], rule notI)
  assume "rule_fires r (\<lambda>k. dict_get facts k [])"
  with assms(1) obtain c where c: "c \<in> set (r_when r)" "condition_holds c (dict_get facts (c_fact c) [])"
    by (rule rule_fires_trigger)
  from assms(2) c(1) have "present (dict_get facts (c_fact c) []) = []"
    by (simp add: present_Nil_iff)
  moreover from assms(1) c(1) have "wf_condition c" by (simp add: wf_rule_def list_all_iff)
  ultimately show False using holds_nonempty [OF _ c(2)] by simp
qed

lemma sample_wf_rule: "wf_rule sample_rule"
  by (simp add: wf_rule_def wf_condition_def sample_rule_def)

theorem evaluate_condition_correct_witness:
  "\<exists>rep. evaluate_condition (hd (r_when sample_rule)) [None, Some 97, Some 10] = Inr (True, rep)"
  using evaluate_condition_correct [of "hd (r_when sample_rule)" "[None, Some 97, Some 10]"]
  by (auto simp: wf_condition_def sample_rule_def condition_holds_def satisfies_def)

theorem evaluate_rule_correct_witness:
  "\<exists>b. evaluate_rule sample_rule [(''disk.max'', [Some 97])] ''EQP1'' ''@system'' [] = Inr (Some b)
     \<and> t_severity b = CRITICAL"
  using evaluate_rule_correct [OF sample_wf_rule, of "[(''disk.max'', [Some 97])]" "''EQP1''" "''@system''" "[]"]
  by (auto simp: rule_fires_def sample_rule_def dict_get_def condition_holds_def satisfies_def)

theorem no_data_no_breach_witness:
  "evaluate_rule sample_rule [(''disk.max'', [None, None])] ''EQP1'' ''@system'' [] = Inr None"
  using no_data_no_breach [OF sample_wf_rule, of "[(''disk.max'', [None, None])]" "''EQP1''" "''@system''" "[]"]
  by (simp add: sample_rule_def dict_get_def)

end
