(* ===== verification/Cooldown.thy ===== *)
theory Cooldown
  imports Models
begin

text \<open>
  \<open>src/src/cache/cooldown.py\<close>: suppression of repeated alerts, in Redis with a local fall-back. The
  Redis client is an argument, the record \<open>redis\<close> of the commands the manager issues on a server
  state. The local cache maps a key to the time its entry expires; an entry may also have been
  evicted, which is an argument of a read.
\<close>

datatype RedisError = RedisConnectionError | RedisTimeoutError | RedisResponseError string

definition REDIS_UNAVAILABLE :: "RedisError list" where
  "REDIS_UNAVAILABLE = [RedisConnectionError, RedisTimeoutError]"

record 'r redis =
  rd_exists :: "string \<Rightarrow> 'r \<Rightarrow> RedisError + nat"
  rd_setex :: "string \<Rightarrow> int \<Rightarrow> 'r \<Rightarrow> RedisError + 'r"
  rd_delete :: "string \<Rightarrow> 'r \<Rightarrow> RedisError + 'r"
  rd_pipeline_exists :: "string list \<Rightarrow> 'r \<Rightarrow> RedisError + nat list"

definition LOCAL_TTL_SEC :: real where
  "LOCAL_TTL_SEC = 3600"

record 'r AlertCooldownManager =
  cd_local :: "string \<rightharpoonup> real"
  cd_redis :: 'r

record CooldownConfig =
  cd_debug_read_only :: bool
  cd_key_prefix :: string

type_synonym CooldownKey = "string \<times> string \<times> string \<times> string \<times> string"

definition cooldown_make_key :: "CooldownConfig \<Rightarrow> CooldownKey \<Rightarrow> string" where
  "cooldown_make_key cfg k =
     (case k of (process, eqp_id, proc, notify, severity) \<Rightarrow>
        cd_key_prefix cfg @ '':cooldown:'' @ process @ '':'' @ eqp_id @ '':'' @ proc @ '':'' @
        notify @ '':'' @ severity)"

text \<open>\<open>key in self._local\<close> at a time.\<close>

definition in_local :: "real \<Rightarrow> (string \<Rightarrow> bool) \<Rightarrow> string \<Rightarrow> 'r AlertCooldownManager \<Rightarrow> bool" where
  "in_local now evicted key m =
     (case cd_local m key of None \<Rightarrow> False | Some expires \<Rightarrow> now < expires \<and> \<not> evicted key)"

definition is_cooling_down ::
  "'r redis \<Rightarrow> CooldownConfig \<Rightarrow> real \<Rightarrow> (string \<Rightarrow> bool) \<Rightarrow> CooldownKey \<Rightarrow> 'r AlertCooldownManager \<Rightarrow>
     RedisError + bool" where
  "is_cooling_down rd cfg now evicted k m =
     (let key = cooldown_make_key cfg k
      in if cd_debug_read_only cfg then Inr (in_local now evicted key m)
         else (case rd_exists rd key (cd_redis m) of
                 Inr n \<Rightarrow> Inr (n > 0)
               | Inl e \<Rightarrow> if e \<in> set REDIS_UNAVAILABLE then Inr (in_local now evicted key m) else Inl e))"

definition set_cooldown ::
  "'r redis \<Rightarrow> CooldownConfig \<Rightarrow> real \<Rightarrow> CooldownKey \<Rightarrow> int \<Rightarrow> 'r AlertCooldownManager \<Rightarrow>
     (RedisError + unit) \<times> 'r AlertCooldownManager" where
  "set_cooldown rd cfg now k cooldown_minutes m =
     (let key = cooldown_make_key cfg k;
          ttl_sec = cooldown_minutes * 60;
          m1 = m\<lparr>cd_local := (cd_local m)(key \<mapsto> now + LOCAL_TTL_SEC)\<rparr>
      in if cd_debug_read_only cfg then (Inr (), m1)
         else (case rd_setex rd key ttl_sec (cd_redis m) of
                 Inr r' \<Rightarrow> (Inr (), m1\<lparr>cd_redis := r'\<rparr>)
               | Inl e \<Rightarrow> (if e \<in> set REDIS_UNAVAILABLE then Inr () else Inl e, m1)))"

definition clear_cooldown ::
  "'r redis \<Rightarrow> CooldownConfig \<Rightarrow> CooldownKey \<Rightarrow> 'r AlertCooldownManager \<Rightarrow>
     (RedisError + unit) \<times> 'r AlertCooldownManager" where
  "clear_cooldown rd cfg k m =
     (let key = cooldown_make_key cfg k;
          m1 = m\<lparr>cd_local := (cd_local m)(key := None)\<rparr>
      in if cd_debug_read_only cfg then (Inr (), m1)
         else (case rd_delete rd key (cd_redis m) of
                 Inr r' \<Rightarrow> (Inr (), m1\<lparr>cd_redis := r'\<rparr>)
               | Inl e \<Rightarrow> (if e \<in> set REDIS_UNAVAILABLE then Inr () else Inl e, m1)))"

text \<open>The dictionary comprehension over the checks, and the one over the zipped results.\<close>

definition local_batch ::
  "CooldownConfig \<Rightarrow> real \<Rightarrow> (string \<Rightarrow> bool) \<Rightarrow> CooldownKey list \<Rightarrow> 'r AlertCooldownManager \<Rightarrow>
     (CooldownKey, bool) dict" where
  "local_batch cfg now evicted checks m =
     dict_of (\<lambda>c. c) (\<lambda>c. in_local now evicted (cooldown_make_key cfg c) m) [] checks"

definition is_cooling_down_batch ::
  "'r redis \<Rightarrow> CooldownConfig \<Rightarrow> real \<Rightarrow> (string \<Rightarrow> bool) \<Rightarrow> CooldownKey list \<Rightarrow> 'r AlertCooldownManager \<Rightarrow>
     RedisError + (CooldownKey, bool) dict" where
  "is_cooling_down_batch rd cfg now evicted checks m =
     (if cd_debug_read_only cfg then Inr (local_batch cfg now evicted checks m)
      else (case rd_pipeline_exists rd (map (cooldown_make_key cfg) checks) (cd_redis m) of
              Inr results \<Rightarrow>
                if length checks \<noteq> length results then Inl (RedisResponseError ''zip strict'')
                else Inr (dict_of fst (\<lambda>cr. snd cr > 0) [] (zip checks results))
            | Inl e \<Rightarrow>
                if e \<in> set REDIS_UNAVAILABLE then Inr (local_batch cfg now evicted checks m) else Inl e))"

subsection \<open>Keys\<close>

definition plain_key :: "CooldownKey \<Rightarrow> bool" where
  "plain_key k \<longleftrightarrow>
     (case k of (a, b, c, d, e) \<Rightarrow>
        CHR '':'' \<notin> set a \<and> CHR '':'' \<notin> set b \<and> CHR '':'' \<notin> set c \<and> CHR '':'' \<notin> set d)"

text \<open>
  Different incidents have different keys: the stored key determines the process, the
  equipment or group, the EARS process, the channel and the severity, as long as none of the first
  four contains the separator.
\<close>
theorem cooldown_key_injective:
  assumes "plain_key k" "plain_key k'"
  shows "cooldown_make_key cfg k = cooldown_make_key cfg k' \<longleftrightarrow> k = k'"
  using assms
  by (cases k; cases k') (auto simp: cooldown_make_key_def plain_key_def separator_inj)

theorem cooldown_key_injective_witness:
  "cooldown_make_key \<lparr>cd_debug_read_only = False, cd_key_prefix = ''rms''\<rparr> (''ETCH'', ''E1'', ''@system'', ''default'', ''WARNING'') \<noteq>
   cooldown_make_key \<lparr>cd_debug_read_only = False, cd_key_prefix = ''rms''\<rparr> (''ETCH'', ''E1'', ''@system'', ''default'', ''CRITICAL'')"
  using cooldown_key_injective
    [of "(''ETCH'', ''E1'', ''@system'', ''default'', ''WARNING'')" "(''ETCH'', ''E1'', ''@system'', ''default'', ''CRITICAL'')"]
  by (simp add: plain_key_def)

subsection \<open>Suppression\<close>

text \<open>What Redis promises: a key just set exists until its time to live has passed.\<close>

definition redis_keeps :: "'r redis \<Rightarrow> ('r \<Rightarrow> 'r \<Rightarrow> bool) \<Rightarrow> bool" where
  "redis_keeps rd within_ttl =
     (\<forall>key ttl r r' later n. rd_setex rd key ttl r = Inr r' \<longrightarrow> within_ttl r' later \<longrightarrow>
        rd_exists rd key later = Inr n \<longrightarrow> n > 0)"

text \<open>
  No alert storm: after a cooldown was set, whether or not Redis took it, checking the same
  incident within the local time to live reports it as cooling down, provided Redis is either up
  both times or unreachable at the check.
\<close>
theorem set_cooldown_suppresses:
  assumes "redis_keeps rd within_ttl"
    and "set_cooldown rd cfg now k minutes m = (Inr (), m1)"
    and "cd_local m2 = cd_local m1" "later < now + LOCAL_TTL_SEC" "\<not> evicted (cooldown_make_key cfg k)"
    and "rd_exists rd (cooldown_make_key cfg k) (cd_redis m2) \<in> Inl ` set REDIS_UNAVAILABLE \<or>
         (\<exists>r'. rd_setex rd (cooldown_make_key cfg k) (minutes * 60) (cd_redis m) = Inr r' \<and>
               within_ttl r' (cd_redis m2) \<and> (\<exists>n. rd_exists rd (cooldown_make_key cfg k) (cd_redis m2) = Inr n))"
  shows "is_cooling_down rd cfg later evicted k m2 = Inr True"
proof -
  let ?key = "cooldown_make_key cfg k"
  have "cd_local m1 ?key = Some (now + LOCAL_TTL_SEC)"
    using assms(2) by (auto simp: set_cooldown_def Let_def split: sum.splits if_splits)
  then have loc: "in_local later evicted ?key m2"
    using assms(3,4,5) by (simp add: in_local_def)
  show ?thesis
    using assms(6)
  proof
    assume "rd_exists rd ?key (cd_redis m2) \<in> Inl ` set REDIS_UNAVAILABLE"
    with loc show ?thesis by (auto simp: is_cooling_down_def Let_def)
  next
    assume "\<exists>r'. rd_setex rd ?key (minutes * 60) (cd_redis m) = Inr r' \<and> within_ttl r' (cd_redis m2) \<and>
       (\<exists>n. rd_exists rd ?key (cd_redis m2) = Inr n)"
    with assms(1) obtain n where "rd_exists rd ?key (cd_redis m2) = Inr n" "n > 0"
      unfolding redis_keeps_def by blast
    with loc show ?thesis by (simp add: is_cooling_down_def Let_def)
  qed
qed

text \<open>A Redis that is a set of keys with no expiry, and one that is down.\<close>

definition set_redis :: "string set redis" where
  "set_redis = \<lparr>rd_exists = (\<lambda>k r. Inr (if k \<in> r then 1 else 0)), rd_setex = (\<lambda>k ttl r. Inr (insert k r)),
     rd_delete = (\<lambda>k r. Inr (r - {k})), rd_pipeline_exists = (\<lambda>ks r. Inr (map (\<lambda>k. if k \<in> r then 1 else 0) ks))\<rparr>"

definition sample_cooldown_cfg :: CooldownConfig where
  "sample_cooldown_cfg = \<lparr>cd_debug_read_only = False, cd_key_prefix = ''rms''\<rparr>"

definition sample_incident :: CooldownKey where
  "sample_incident = (''ETCH'', ''E1'', ''@system'', ''default'', ''WARNING'')"

theorem set_cooldown_suppresses_witness:
  "is_cooling_down set_redis sample_cooldown_cfg 60 (\<lambda>_. False) sample_incident
     (snd (set_cooldown set_redis sample_cooldown_cfg 0 sample_incident 30 \<lparr>cd_local = Map.empty, cd_redis = {}\<rparr>)) = Inr True"
proof (rule set_cooldown_suppresses [where within_ttl = "(=)" and now = 0 and minutes = 30
      and m = "\<lparr>cd_local = Map.empty, cd_redis = {}\<rparr>"])
  show "redis_keeps set_redis (=)" by (auto simp: redis_keeps_def set_redis_def)
qed (auto simp: set_redis_def sample_cooldown_cfg_def set_cooldown_def Let_def LOCAL_TTL_SEC_def)

text \<open>
  When Redis is unreachable while the cooldown is set but answers the check, the local entry is
  not consulted: the incident is reported as not cooling down although a live local entry exists.
\<close>
theorem local_entry_ignored_after_recovery:
  assumes "\<not> cd_debug_read_only cfg"
    and "rd_setex rd (cooldown_make_key cfg k) (minutes * 60) (cd_redis m) = Inl RedisConnectionError"
    and "rd_exists rd (cooldown_make_key cfg k) r2 = Inr 0"
  shows "(case set_cooldown rd cfg now k minutes m of
      (res, m1) \<Rightarrow> res = Inr () \<and> in_local now (\<lambda>_. False) (cooldown_make_key cfg k) m1 \<and>
        is_cooling_down rd cfg now (\<lambda>_. False) k (m1\<lparr>cd_redis := r2\<rparr>) = Inr False)"
  using assms
  by (simp add: set_cooldown_def is_cooling_down_def in_local_def Let_def REDIS_UNAVAILABLE_def LOCAL_TTL_SEC_def)

definition flaky_redis :: "bool redis" where
  "flaky_redis = \<lparr>rd_exists = (\<lambda>k up. if up then Inr 0 else Inl RedisConnectionError),
     rd_setex = (\<lambda>k ttl up. if up then Inr up else Inl RedisConnectionError),
     rd_delete = (\<lambda>k up. if up then Inr up else Inl RedisConnectionError),
     rd_pipeline_exists = (\<lambda>ks up. if up then Inr (map (\<lambda>_. 0) ks) else Inl RedisConnectionError)\<rparr>"

theorem local_entry_ignored_after_recovery_witness:
  "is_cooling_down flaky_redis sample_cooldown_cfg 0 (\<lambda>_. False) sample_incident
     ((snd (set_cooldown flaky_redis sample_cooldown_cfg 0 sample_incident 30 \<lparr>cd_local = Map.empty, cd_redis = False\<rparr>))
        \<lparr>cd_redis := True\<rparr>) = Inr False"
  using local_entry_ignored_after_recovery [where cfg = sample_cooldown_cfg and rd = flaky_redis and k = sample_incident
      and minutes = 30 and m = "\<lparr>cd_local = Map.empty, cd_redis = False\<rparr>" and ?r2.0 = True and now = 0]
  by (simp add: sample_cooldown_cfg_def flaky_redis_def split: prod.splits)

subsection \<open>The batch check\<close>

lemma last_with_zip:
  "length cs = length rs \<Longrightarrow> last_with fst c (zip cs (rs :: nat list)) = None \<longleftrightarrow> c \<notin> set cs"
  by (simp add: last_with_None_iff flip: set_map)

lemma map_of_local_batch:
  "map_of (local_batch cfg now ev checks m) c =
     (if c \<in> set checks then Some (in_local now ev (cooldown_make_key cfg c) m) else None)"
  by (auto simp: local_batch_def dict_simps last_with_None_iff split: option.splits dest: last_with_Some_in)

text \<open>What the pipeline promises: the answers the single commands would give.\<close>

definition pipeline_agrees :: "'r redis \<Rightarrow> bool" where
  "pipeline_agrees rd =
     (\<forall>keys r. rd_pipeline_exists rd keys r = map_res (\<lambda>key. rd_exists rd key r) keys)"

definition redis_up_for :: "'r redis \<Rightarrow> CooldownConfig \<Rightarrow> CooldownKey list \<Rightarrow> 'r \<Rightarrow> bool" where
  "redis_up_for rd cfg checks r =
     list_all (\<lambda>c. \<not> isl (rd_exists rd (cooldown_make_key cfg c) r)) checks"

definition redis_down_for :: "'r redis \<Rightarrow> CooldownConfig \<Rightarrow> CooldownKey list \<Rightarrow> 'r \<Rightarrow> bool" where
  "redis_down_for rd cfg checks r =
     list_all (\<lambda>c. rd_exists rd (cooldown_make_key cfg c) r \<in> Inl ` set REDIS_UNAVAILABLE) checks"

lemma map_res_up:
  "redis_up_for rd cfg checks r \<Longrightarrow>
     map_res (\<lambda>key. rd_exists rd key r) (map (cooldown_make_key cfg) checks) =
       Inr (map (\<lambda>c. projr (rd_exists rd (cooldown_make_key cfg c) r)) checks)"
  by (induction checks) (auto simp: redis_up_for_def split: sum.splits)

lemma map_res_down:
  "checks \<noteq> [] \<Longrightarrow> redis_down_for rd cfg checks r \<Longrightarrow>
     map_res (\<lambda>key. rd_exists rd key r) (map (cooldown_make_key cfg) checks) \<in> Inl ` set REDIS_UNAVAILABLE"
  by (cases checks) (auto simp: redis_down_for_def)

lemma zip_map_dict: "dict_of fst (\<lambda>cr. snd cr > 0) [] (zip cs (map f cs)) = dict_of (\<lambda>c. c) (\<lambda>c. f c > (0 :: nat)) [] cs"
  by (induction cs rule: rev_induct) (auto simp: dict_of_def)

lemma batch_lookup:
  "map_of (dict_of (\<lambda>c. c) f [] cs) c = (if c \<in> set cs then Some (f c) else None)"
  by (auto simp: dict_simps last_with_None_iff split: option.splits dest: last_with_Some_in)

text \<open>
  The batch check is the single check on each incident, in one round trip: it answers for
  exactly the incidents asked, each with the answer the single check gives, whether Redis is up,
  down, or bypassed in debug mode.
\<close>
theorem batch_agrees_with_single:
  assumes "pipeline_agrees rd" "checks \<noteq> []"
    and "cd_debug_read_only cfg \<or> redis_up_for rd cfg checks (cd_redis m) \<or> redis_down_for rd cfg checks (cd_redis m)"
  shows "\<exists>d. is_cooling_down_batch rd cfg now ev checks m = Inr d \<and>
     (\<forall>c. map_of d c = (if c \<in> set checks then Some (projr (is_cooling_down rd cfg now ev c m)) else None)) \<and>
     (\<forall>c\<in>set checks. \<not> isl (is_cooling_down rd cfg now ev c m))"
proof -
  have fallback: "\<exists>d. Inr (local_batch cfg now ev checks m) = (Inr d :: RedisError + _) \<and>
     (\<forall>c. map_of d c = (if c \<in> set checks then Some (projr (is_cooling_down rd cfg now ev c m)) else None)) \<and>
     (\<forall>c\<in>set checks. \<not> isl (is_cooling_down rd cfg now ev c m))"
    if "\<And>c. c \<in> set checks \<Longrightarrow> is_cooling_down rd cfg now ev c m = Inr (in_local now ev (cooldown_make_key cfg c) m)"
    using that by (auto simp: map_of_local_batch)
  consider "cd_debug_read_only cfg"
    | "\<not> cd_debug_read_only cfg" "redis_up_for rd cfg checks (cd_redis m)"
    | "\<not> cd_debug_read_only cfg" "redis_down_for rd cfg checks (cd_redis m)"
    using assms(3) by blast
  then show ?thesis
  proof cases
    case 1
    then show ?thesis
      using fallback by (simp add: is_cooling_down_batch_def is_cooling_down_def)
  next
    case 2
    let ?f = "\<lambda>c. projr (rd_exists rd (cooldown_make_key cfg c) (cd_redis m))"
    have "is_cooling_down_batch rd cfg now ev checks m = Inr (dict_of (\<lambda>c. c) (\<lambda>c. ?f c > 0) [] checks)"
      using 2 assms(1) map_res_up [OF 2(2)]
      by (simp add: is_cooling_down_batch_def pipeline_agrees_def zip_map_dict)
    moreover have "is_cooling_down rd cfg now ev c m = Inr (?f c > 0)" if "c \<in> set checks" for c
      using 2 that by (auto simp: is_cooling_down_def Let_def redis_up_for_def list_all_iff split: sum.splits)
    ultimately show ?thesis by (simp add: batch_lookup)
  next
    case 3
    then have single: "is_cooling_down rd cfg now ev c m = Inr (in_local now ev (cooldown_make_key cfg c) m)"
      if "c \<in> set checks" for c
      using that by (auto simp: is_cooling_down_def Let_def redis_down_for_def list_all_iff)
    have "is_cooling_down_batch rd cfg now ev checks m = Inr (local_batch cfg now ev checks m)"
      using 3 assms(1) map_res_down [OF assms(2) 3(2)]
      by (auto simp: is_cooling_down_batch_def pipeline_agrees_def)
    then show ?thesis using fallback [OF single] by simp
  qed
qed

theorem batch_agrees_with_single_witness:
  "is_cooling_down_batch set_redis sample_cooldown_cfg 0 (\<lambda>_. False) [sample_incident] \<lparr>cd_local = Map.empty, cd_redis = {}\<rparr> =
     Inr [(sample_incident, False)]"
proof -
  have agrees: "pipeline_agrees set_redis" by (simp add: pipeline_agrees_def set_redis_def)
  have up: "redis_up_for set_redis sample_cooldown_cfg [sample_incident] {}"
    by (simp add: redis_up_for_def set_redis_def)
  have batch: "is_cooling_down_batch set_redis sample_cooldown_cfg 0 (\<lambda>_. False) [sample_incident] \<lparr>cd_local = Map.empty, cd_redis = {}\<rparr> =
      Inr [(sample_incident, False)]"
    by (simp add: is_cooling_down_batch_def set_redis_def sample_cooldown_cfg_def dict_of_def)
  from batch_agrees_with_single [OF agrees _ disjI2 [OF disjI1], of "[sample_incident]" sample_cooldown_cfg
      "\<lparr>cd_local = Map.empty, cd_redis = {}\<rparr>" 0 "\<lambda>_. False"] up batch
  show ?thesis by simp
qed

end
