(* ===== verification/Body_Renderer.thy ===== *)
theory Body_Renderer
  imports Py_Strings "HOL-Library.Product_Lexorder"
begin

text \<open>
  \<open>src/src/alert/tokens.py\<close> and \<open>src/src/alert/body_renderer.py\<close>: the token catalogue and the renderer of
  the alert mail's body and subject. Text is a list of UTF-8 code units: every pattern the
  renderer looks for is ASCII, so search and replacement act on code units as on characters, and
  the byte cap is the length of the list.
\<close>

subsection \<open>Values and their text\<close>

datatype TokenValue = TNone | TStr string | TInt int | TFloat rat

text \<open>
  \<open>str(float)\<close>. A float stands for the decimal its shortest text denotes, which keeps the order of
  floats. The text is positional between \<open>1e-4\<close> and \<open>1e16\<close> and has an exponent outside; a float has
  fewer than 400 decimal places, which bounds the loops.
\<close>

fun frac_digits :: "nat \<Rightarrow> rat \<Rightarrow> string" where
  "frac_digits 0 r = []"
| "frac_digits (Suc n) r =
     (if r = 0 then []
      else digit_char (nat \<lfloor>r * 10\<rfloor>) # frac_digits n (r * 10 - of_int \<lfloor>r * 10\<rfloor>))"

definition max_places :: nat where
  "max_places = 400"

fun scale10 :: "nat \<Rightarrow> rat \<Rightarrow> int \<Rightarrow> rat \<times> int" where
  "scale10 0 m e = (m, e)"
| "scale10 (Suc n) m e =
     (if m \<ge> 10 then scale10 n (m / 10) (e + 1) else if m < 1 then scale10 n (m * 10) (e - 1) else (m, e))"

definition exponent_str :: "int \<Rightarrow> string" where
  "exponent_str e =
     (if e < 0 then ''-'' else ''+'') @
     (let d = str_of_nat (nat \<bar>e\<bar>) in if length d = 1 then ''0'' @ d else d)"

definition float_str :: "rat \<Rightarrow> string" where
  "float_str q =
     (let a = \<bar>q\<bar>;
          sign = (if q < 0 then ''-'' else [])
      in if a = 0 \<or> (1 / 10000 \<le> a \<and> a < 10 ^ 16)
         then (let f = frac_digits max_places (a - of_int \<lfloor>a\<rfloor>)
               in sign @ str_of_int \<lfloor>a\<rfloor> @ ''.'' @ (if f = [] then ''0'' else f))
         else (case scale10 max_places a 0 of (m, e) \<Rightarrow>
                 (let f = frac_digits max_places (m - of_int \<lfloor>m\<rfloor>)
                  in sign @ str_of_int \<lfloor>m\<rfloor> @ (if f = [] then [] else ''.'' @ f) @ ''e'' @ exponent_str e)))"

definition py_str :: "TokenValue \<Rightarrow> string" where
  "py_str v = (case v of TNone \<Rightarrow> ''None'' | TStr s \<Rightarrow> s | TInt i \<Rightarrow> str_of_int i | TFloat q \<Rightarrow> float_str q)"

definition format_value :: "TokenValue \<Rightarrow> string" where
  "format_value raw = (if raw = TNone then ''-'' else py_str raw)"

subsection \<open>Tokens\<close>

datatype EscapeContext = Ctx_text | Ctx_url

definition SCALAR_TOKENS :: "(string, EscapeContext) dict" where
  "SCALAR_TOKENS =
     [(''@Severity'', Ctx_text), (''@Category'', Ctx_text), (''@Fact'', Ctx_text),
      (''@CurrentValue'', Ctx_text), (''@Threshold'', Ctx_text), (''@Operator'', Ctx_text),
      (''@WindowMin'', Ctx_text), (''@Timestamp'', Ctx_text), (''@Process'', Ctx_text),
      (''@GroupBy'', Ctx_text), (''@GroupValue'', Ctx_text), (''@AffectedCount'', Ctx_text),
      (''@AffectedEquipment'', Ctx_text), (''@GrafanaUrl'', Ctx_url), (''@Hostname'', Ctx_text),
      (''@Model'', Ctx_text), (''@Line'', Ctx_text), (''@IP'', Ctx_text), (''@CODE'', Ctx_text)]"

definition ROW_TOKENS :: "(string, EscapeContext) dict" where
  "ROW_TOKENS =
     [(''@Row.Index'', Ctx_text), (''@Row.EqpId'', Ctx_text), (''@Row.CurrentValue'', Ctx_text),
      (''@Row.Threshold'', Ctx_text), (''@Row.Severity'', Ctx_text), (''@Row.Fact'', Ctx_text),
      (''@Row.Category'', Ctx_text), (''@Row.Operator'', Ctx_text), (''@Row.Model'', Ctx_text),
      (''@Row.Line'', Ctx_text), (''@Row.IP'', Ctx_text), (''@Row.Proc'', Ctx_text)]"

definition TOKEN_CONTEXT :: "(string, EscapeContext) dict" where
  "TOKEN_CONTEXT = SCALAR_TOKENS @ ROW_TOKENS"

type_synonym token_map = "(string, TokenValue) dict"

definition is_alpha :: "char \<Rightarrow> bool" where
  "is_alpha c = ((65 \<le> char_code c \<and> char_code c \<le> 90) \<or> (97 \<le> char_code c \<and> char_code c \<le> 122))"

text \<open>What \<open>(?:Row\.)?[A-Za-z]+\<close> matches at the start of the text after an \<open>@\<close>; empty: no match.\<close>

definition token_tail :: "string \<Rightarrow> string" where
  "token_tail s =
     (if starts_with s ''Row.'' \<and> takeWhile is_alpha (drop 4 s) \<noteq> []
      then ''Row.'' @ takeWhile is_alpha (drop 4 s) else takeWhile is_alpha s)"

subsection \<open>Escaping\<close>

definition TRUNCATE_MARKER :: string where
  "TRUNCATE_MARKER =
    ''<!-- truncated -->''"

definition ERB_START :: string where
  "ERB_START =
    ''<!--@EachEquipment-->''"

definition ERB_END :: string where
  "ERB_END =
    ''<!--@EndEachEquipment-->''"

definition DEFAULT_TITLE :: string where
  "DEFAULT_TITLE =
    ''[EARS] '' @ [CHR 0xEC, CHR 0x9E, CHR 0x90, CHR 0xEC, CHR 0x9B, CHR 0x90] @ '' '' @
    [CHR 0xEB, CHR 0xAA, CHR 0xA8, CHR 0xEB, CHR 0x8B, CHR 0x88, CHR 0xED, CHR 0x84, CHR 0xB0, CHR 0xEB, CHR 0xA7, CHR 0x81] @
    '' '' @ [CHR 0xEC, CHR 0x95, CHR 0x8C, CHR 0xEB, CHR 0xA6, CHR 0xBC]"

definition DEFAULT_BODY :: string where
  "DEFAULT_BODY =
    ''<h3>[@Category] @Severity '' @ [CHR 0xEC, CHR 0x9E, CHR 0x84, CHR 0xEA, CHR 0xB3, CHR 0x84] @ '' '' @
    [CHR 0xEC, CHR 0xB4, CHR 0x88, CHR 0xEA, CHR 0xB3, CHR 0xBC] @ ''</h3><p>'' @
    [CHR 0xEA, CHR 0xB3, CHR 0xB5, CHR 0xEC, CHR 0xA0, CHR 0x95] @ '' @Process '' @ [CHR 0xC2, CHR 0xB7] @
    '' '' @ [CHR 0xEC, CHR 0xB5, CHR 0x9C, CHR 0xEA, CHR 0xB7, CHR 0xBC] @ '' @WindowMin'' @
    [CHR 0xEB, CHR 0xB6, CHR 0x84] @ '' '' @ [CHR 0xC2, CHR 0xB7] @ '' @Timestamp</p><p>'' @
    [CHR 0xEC, CHR 0x98, CHR 0x81, CHR 0xED, CHR 0x96, CHR 0xA5] @ '' '' @
    [CHR 0xEC, CHR 0x9E, CHR 0xA5, CHR 0xEB, CHR 0xB9, CHR 0x84] @ '' @AffectedCount'' @
    [CHR 0xEB, CHR 0x8C, CHR 0x80] @ ''</p><table border='' @ [CHR 0x22] @ ''1'' @ [CHR 0x22] @
    '' cellpadding='' @ [CHR 0x22] @ ''4'' @ [CHR 0x22] @ ''><tr><th>'' @
    [CHR 0xEC, CHR 0x9E, CHR 0xA5, CHR 0xEB, CHR 0xB9, CHR 0x84] @ ''</th><th>'' @
    [CHR 0xEC, CHR 0xA7, CHR 0x80, CHR 0xED, CHR 0x91, CHR 0x9C] @ ''</th><th>'' @
    [CHR 0xED, CHR 0x98, CHR 0x84, CHR 0xEC, CHR 0x9E, CHR 0xAC, CHR 0xEA, CHR 0xB0, CHR 0x92] @
    ''</th><th>'' @ [CHR 0xEC, CHR 0x9E, CHR 0x84, CHR 0xEA, CHR 0xB3, CHR 0x84] @ ''</th><th>'' @
    [CHR 0xEC, CHR 0x8B, CHR 0xAC, CHR 0xEA, CHR 0xB0, CHR 0x81, CHR 0xEB, CHR 0x8F, CHR 0x84] @
    ''</th></tr><!--@EachEquipment--><tr><td>@Row.EqpId</td><td>@Row.Fact</td><td>@Row.CurrentValue</td><td>@Row.Threshold</td><td>@Row.Severity</td></tr><!--@EndEachEquipment--></table>''"

definition RESERVED_AKKA_TOKEN :: string where
  "RESERVED_AKKA_TOKEN = ''@HttpWebServerAddress''"

definition RESERVED_AKKA_NEUTRAL :: string where
  "RESERVED_AKKA_NEUTRAL = ''&#64;HttpWebServerAddress''"

text \<open>\<open>html.escape(s, quote=True)\<close>; it replaces the ampersand first.\<close>

definition html_escape :: "string \<Rightarrow> string" where
  "html_escape s =
     str_replace [CHR 0x27] ''&#x27;'' (str_replace [CHR 0x22] ''&quot;''
       (str_replace ''>'' ''&gt;'' (str_replace ''<'' ''&lt;'' (str_replace ''&'' ''&amp;'' s))))"

definition escape_text :: "TokenValue \<Rightarrow> string" where
  "escape_text raw = str_replace RESERVED_AKKA_TOKEN RESERVED_AKKA_NEUTRAL (html_escape (format_value raw))"

definition falsy :: "TokenValue \<Rightarrow> bool" where
  "falsy v = (v = TNone \<or> v = TStr [] \<or> v = TInt 0 \<or> v = TFloat 0)"

definition escape_url :: "TokenValue \<Rightarrow> string" where
  "escape_url raw =
     (if falsy raw then []
      else let s = py_str raw
           in if \<not> (starts_with s ''http://'' \<or> starts_with s ''https://'') then []
              else str_replace [CHR 0x22] ''&quot;'' s)"

definition render_token :: "string \<Rightarrow> token_map \<Rightarrow> string" where
  "render_token token value_map =
     (case map_of value_map token of
        None \<Rightarrow> []
      | Some v \<Rightarrow> if map_of TOKEN_CONTEXT token = Some Ctx_url then escape_url v else escape_text v)"

subsection \<open>Substitution\<close>

text \<open>\<open>_TOKEN_RE.sub(repl, text)\<close>.\<close>

function token_sub :: "(string \<Rightarrow> string) \<Rightarrow> string \<Rightarrow> string" where
  "token_sub repl [] = []"
| "token_sub repl (c # cs) =
     (if c = CHR ''@'' \<and> token_tail cs \<noteq> []
      then repl (c # token_tail cs) @ token_sub repl (drop (length (token_tail cs)) cs)
      else c # token_sub repl cs)"
  by pat_completeness auto
termination
  by (relation "measure (\<lambda>(_, s). length s)") auto

definition substitute :: "string \<Rightarrow> token_map \<Rightarrow> bool \<Rightarrow> string" where
  "substitute text value_map only_provided =
     token_sub
       (\<lambda>token. if map_of TOKEN_CONTEXT token = None then token
                else if only_provided \<and> map_of value_map token = None then token
                else render_token token value_map)
       text"

subsection \<open>Equipment repeat block\<close>

text \<open>\<open>_ERB_BLOCK_RE.sub("", text)\<close>: a start marker up to the first end marker after it.\<close>

function drop_blocks :: "string \<Rightarrow> string" where
  "drop_blocks text =
     (case split_first ERB_START text of
        None \<Rightarrow> text
      | Some (pre, rest) \<Rightarrow>
          (case split_first ERB_END rest of
             None \<Rightarrow> text
           | Some (_, post) \<Rightarrow> pre @ drop_blocks post))"
  by auto
termination
proof (relation "measure length")
  fix src pre rest inner post x y
  assume "split_first ERB_START src = Some x" "(pre, rest) = x" "split_first ERB_END rest = Some y" "(inner, post) = y"
  then have "src = pre @ ERB_START @ rest" "rest = inner @ ERB_END @ post"
    by (auto dest: split_first_append)
  then show "(post, src) \<in> measure length" by (simp add: ERB_START_def)
qed simp

declare drop_blocks.simps [simp del]

definition drop_markers :: "string \<Rightarrow> string" where
  "drop_markers text = str_replace ERB_END [] (str_replace ERB_START [] text)"

definition strip_erb :: "string \<Rightarrow> string" where
  "strip_erb text = drop_markers (drop_blocks text)"

definition has_marker :: "string \<Rightarrow> bool" where
  "has_marker text = (occurs_in ERB_START text \<or> occurs_in ERB_END text)"

text \<open>\<open>rows[:n]\<close>.\<close>

definition py_slice_to :: "int \<Rightarrow> 'a list \<Rightarrow> 'a list" where
  "py_slice_to n xs = take (nat (if n < 0 then int (length xs) + n else n)) xs"

definition row_piece :: "string \<Rightarrow> nat \<times> token_map \<Rightarrow> string" where
  "row_piece inner ir = (case ir of (i, row) \<Rightarrow> substitute inner (AList.update ''@Row.Index'' (TInt (int i)) row) True)"

definition overflow_line :: "string \<Rightarrow> nat \<Rightarrow> string" where
  "overflow_line overflow_text remaining =
     (if remaining = 0 then [] else str_replace ''@RemainingCount'' (str_of_nat remaining) overflow_text)"

definition expand_erb :: "string \<Rightarrow> token_map list \<Rightarrow> int option \<Rightarrow> string \<Rightarrow> string" where
  "expand_erb template rows row_limit overflow_text =
     (let unbalanced = (if has_marker template then strip_erb template else template)
      in case split_first ERB_START template of
           None \<Rightarrow> unbalanced
         | Some (pre, rest) \<Rightarrow>
             (case split_first ERB_END rest of
                None \<Rightarrow> unbalanced
              | Some (inner, post) \<Rightarrow>
                  (let capped = (case row_limit of None \<Rightarrow> rows | Some n \<Rightarrow> py_slice_to n rows);
                       remaining = length rows - length capped;
                       pieces = map (row_piece inner) (enumerate 1 capped);
                       overflow = overflow_line overflow_text remaining;
                       extra = has_marker pre \<or> has_marker post;
                       pre = (if extra then strip_erb pre else pre);
                       post = (if extra then strip_erb post else post);
                       result = pre @ concat pieces @ overflow @ post
                   in if has_marker result then drop_markers result else result)))"

subsection \<open>Truncation\<close>

text \<open>
  \<open>bytes[:n].decode("utf-8", errors="ignore")\<close> of valid UTF-8: an incomplete last sequence goes.
\<close>

definition is_continuation :: "char \<Rightarrow> bool" where
  "is_continuation c = (128 \<le> char_code c \<and> char_code c < 192)"

definition sequence_length :: "char \<Rightarrow> nat" where
  "sequence_length c = (if char_code c < 128 then 1 else if char_code c < 224 then 2 else if char_code c < 240 then 3 else 4)"

definition decode_ignore :: "string \<Rightarrow> string" where
  "decode_ignore bs =
     (case dropWhile is_continuation (rev bs) of
        [] \<Rightarrow> []
      | c # cs \<Rightarrow>
          if sequence_length c = Suc (length (takeWhile is_continuation (rev bs))) then bs else rev cs)"

definition truncate_to_bytes :: "string \<Rightarrow> int \<Rightarrow> string" where
  "truncate_to_bytes text byte_cap =
     (let budget = max 0 (byte_cap - int (length TRUNCATE_MARKER))
      in decode_ignore (take (nat budget) text) @ TRUNCATE_MARKER)"

subsection \<open>Rows, title, body\<close>

definition severity_rank :: "string \<Rightarrow> nat" where
  "severity_rank s = (if s = ''CRITICAL'' then 0 else if s = ''WARNING'' then 1 else 99)"

text \<open>
  The sort key; the infinity of a row without a number is the second component, which stands before
  the value.
\<close>

definition row_sort_key :: "token_map \<Rightarrow> nat \<times> bool \<times> rat \<times> string" where
  "row_sort_key row =
     (severity_rank (py_upper (py_str (dict_get row ''@Row.Severity'' (TStr [])))),
      (case map_of row ''@Row.CurrentValue'' of
         Some (TInt i) \<Rightarrow> (False, - of_int i, py_str (dict_get row ''@Row.EqpId'' (TStr [])))
       | Some (TFloat q) \<Rightarrow> (False, - q, py_str (dict_get row ''@Row.EqpId'' (TStr [])))
       | _ \<Rightarrow> (True, 0, py_str (dict_get row ''@Row.EqpId'' (TStr [])))))"

definition order_rows :: "token_map list \<Rightarrow> token_map list" where
  "order_rows rows = sort_key row_sort_key rows"

definition render_title :: "string \<Rightarrow> token_map \<Rightarrow> string" where
  "render_title title_template scalars =
     (let tpl = (if title_template = [] then DEFAULT_TITLE else title_template);
          rendered = token_sub
            (\<lambda>token. if map_of TOKEN_CONTEXT token = None then token
                     else case map_of scalars token of None \<Rightarrow> [] | Some v \<Rightarrow> format_value v) tpl
      in py_strip (str_replace '':'' '' '' rendered))"

definition render_body ::
  "string \<Rightarrow> token_map \<Rightarrow> token_map list \<Rightarrow> int option \<Rightarrow> string \<Rightarrow> int option \<Rightarrow> string" where
  "render_body template_html scalars rows row_limit overflow_text byte_cap =
     (let out = substitute (expand_erb template_html rows row_limit overflow_text) scalars False
      in case byte_cap of
           None \<Rightarrow> out
         | Some cap \<Rightarrow> if int (length out) > cap then truncate_to_bytes out cap else out)"

subsection \<open>Escaping loses nothing and injects nothing\<close>

definition escape_char :: "char \<Rightarrow> string" where
  "escape_char c =
     (if c = CHR ''&'' then ''&amp;'' else if c = CHR ''<'' then ''&lt;'' else if c = CHR ''>'' then ''&gt;''
      else if c = CHR 0x22 then ''&quot;'' else if c = CHR 0x27 then ''&#x27;'' else [c])"

lemma html_escape_chars: "html_escape s = concat (map escape_char s)"
  unfolding html_escape_def str_replace_char
  by (induction s) (auto simp: escape_char_def)

text \<open>What a mail client shows for escaped text: the entities the renderer writes, decoded.\<close>

definition entities :: "(string \<times> char) list" where
  "entities = [(''&amp;'', CHR ''&''), (''&lt;'', CHR ''<''), (''&gt;'', CHR ''>''), (''&quot;'', CHR 0x22),
     (''&#x27;'', CHR 0x27), (''&#64;'', CHR ''@'')]"

function decode_entities :: "string \<Rightarrow> string" where
  "decode_entities [] = []"
| "decode_entities (c # cs) =
     (case find (\<lambda>(e, _). starts_with (c # cs) e) entities of
        Some (e, x) \<Rightarrow> x # decode_entities (drop (length e) (c # cs))
      | None \<Rightarrow> c # decode_entities cs)"
  by pat_completeness auto
termination
proof (relation "measure length")
  fix c :: char and cs and y e x
  assume "find (\<lambda>(e, _). starts_with (c # cs) e) entities = Some y" "(e, x) = y"
  then have "(e, x) \<in> set entities" by (metis (lifting) find_Some_iff nth_mem)
  then show "(drop (length e) (c # cs), c # cs) \<in> measure length" by (auto simp: entities_def)
qed simp_all

declare decode_entities.simps(2) [simp del]

lemma starts_with_Cons: "starts_with (c # cs) (d # ds) \<longleftrightarrow> c = d \<and> starts_with cs ds"
  by (auto simp: starts_with_def)

lemma starts_with_Nil: "starts_with s []"
  by (simp add: starts_with_def)

lemmas entity_simps = entities_def starts_with_Cons starts_with_Nil

lemma decode_plain: "c \<noteq> CHR ''&'' \<Longrightarrow> decode_entities (c # cs) = c # decode_entities cs"
  by (simp add: entity_simps decode_entities.simps(2))

lemma decode_escape_char: "decode_entities (escape_char c @ s) = c # decode_entities s"
  by (simp add: escape_char_def entity_simps decode_entities.simps(2))

lemma decode_html_escape: "decode_entities (html_escape s @ t) = s @ decode_entities t"
  by (induction s) (auto simp: html_escape_chars decode_escape_char)

text \<open>Replacing a pattern by a text that decodes the same way.\<close>

lemma starts_with_append:
  assumes "x \<notin> set e"
  shows "starts_with (u @ x # v) e \<longleftrightarrow> starts_with u e"
  using assms
proof (induction e arbitrary: u)
  case (Cons d e)
  then show ?case by (cases u) (auto simp: starts_with_def)
qed (simp add: starts_with_def)

lemma starts_with_entity:
  assumes "x = CHR ''@'' \<or> x = CHR ''&''" "u \<noteq> []" "(e, y) \<in> set entities"
  shows "starts_with (u @ x # v) e \<longleftrightarrow> starts_with u e"
proof -
  obtain c cs where u: "u = c # cs" using assms(2) by (cases u) auto
  have "x \<notin> set (tl e)" "e \<noteq> []" using assms(1,3) by (auto simp: entities_def)
  then obtain d ds where "e = d # ds" "x \<notin> set ds" by (cases e) auto
  then show ?thesis by (simp add: u starts_with_Cons starts_with_append)
qed

lemma decode_append:
  assumes "x = CHR ''@'' \<or> x = CHR ''&''"
  shows "decode_entities (u @ x # v) = decode_entities u @ decode_entities (x # v)"
proof (induction u rule: decode_entities.induct)
  case (2 c cs)
  have find: "find (\<lambda>(e, _). starts_with ((c # cs) @ x # v) e) entities =
      find (\<lambda>(e, _). starts_with (c # cs) e) entities"
    using starts_with_entity [OF assms, of "c # cs"] by (intro find_cong) auto
  show ?case
  proof (cases "find (\<lambda>(e, _). starts_with (c # cs) e) entities")
    case None
    with 2(1) [OF None] find show ?thesis by (simp add: decode_entities.simps(2) [of c])
  next
    case (Some ey)
    obtain e y where ey: "ey = (e, y)" by (cases ey)
    with Some have "starts_with (c # cs) e" by (auto simp: find_Some_iff)
    then have "length e \<le> length (c # cs)" by (metis starts_with_iff length_append le_add1)
    then have "drop (length e) ((c # cs) @ x # v) = drop (length e) (c # cs) @ x # v"
      unfolding drop_append by simp
    with 2(2) [OF Some ey [symmetric]] find Some ey show ?thesis
      by (simp add: decode_entities.simps(2) [of c])
  qed
qed simp

lemma decode_reserved:
  "decode_entities (a @ RESERVED_AKKA_NEUTRAL @ t) = decode_entities (a @ RESERVED_AKKA_TOKEN @ t)"
  using decode_append [of "CHR ''&''" a] decode_append [of "CHR ''@''" a]
  by (simp add: RESERVED_AKKA_NEUTRAL_def RESERVED_AKKA_TOKEN_def entity_simps decode_plain
      decode_entities.simps(2) [of "CHR ''&''"])

lemma decode_after_token:
  "decode_entities (a @ RESERVED_AKKA_TOKEN @ t) = decode_entities (a @ RESERVED_AKKA_TOKEN) @ decode_entities t"
  using decode_append [of "CHR ''@''" a]
  by (simp add: RESERVED_AKKA_TOKEN_def decode_plain)

lemma decode_replace_reserved:
  "decode_entities (str_replace RESERVED_AKKA_TOKEN RESERVED_AKKA_NEUTRAL s) = decode_entities s"
proof (induction "length s" arbitrary: s rule: less_induct)
  case less
  have nonempty: "RESERVED_AKKA_TOKEN \<noteq> []" by (simp add: RESERVED_AKKA_TOKEN_def)
  show ?case
  proof (cases "split_first RESERVED_AKKA_TOKEN s")
    case None
    then show ?thesis by (simp add: str_replace_absent occurs_in_def)
  next
    case (Some ab)
    obtain a b where ab: "ab = (a, b)" by (cases ab)
    have s: "s = a @ RESERVED_AKKA_TOKEN @ b" using split_first_append Some ab by blast
    have "str_replace RESERVED_AKKA_TOKEN RESERVED_AKKA_NEUTRAL s =
        a @ RESERVED_AKKA_NEUTRAL @ str_replace RESERVED_AKKA_TOKEN RESERVED_AKKA_NEUTRAL b"
      using Some ab nonempty by (simp add: str_replace.simps [of _ _ s])
    moreover have "decode_entities (str_replace RESERVED_AKKA_TOKEN RESERVED_AKKA_NEUTRAL b) = decode_entities b"
      using s nonempty by (intro less) simp
    ultimately show ?thesis
      unfolding s by (metis decode_after_token decode_reserved)
  qed
qed

lemma set_str_replace: "set (str_replace pat by_text s) \<subseteq> set s \<union> set by_text"
proof (induction "length s" arbitrary: s rule: less_induct)
  case less
  show ?case
  proof (cases "pat = [] \<or> split_first pat s = None")
    case True
    then show ?thesis by (auto simp: str_replace.simps [of pat by_text s])
  next
    case False
    then obtain a b where ab: "split_first pat s = Some (a, b)" "pat \<noteq> []" by auto
    with less [of b] split_first_shorter [OF ab] have "set (str_replace pat by_text b) \<subseteq> set b \<union> set by_text" by simp
    moreover have "str_replace pat by_text s = a @ by_text @ str_replace pat by_text b"
      using ab by (simp add: str_replace.simps [of pat by_text s])
    moreover have "set s = set a \<union> set pat \<union> set b" using split_first_append [OF ab(1)] by auto
    ultimately show ?thesis by auto
  qed
qed

text \<open>A pattern whose first character recurs neither in it nor in the replacement is gone afterwards.\<close>

lemma split_first_least:
  "split_first pat s = Some (a, b) \<Longrightarrow> s = x @ pat @ y \<Longrightarrow> length a \<le> length x"
proof (induction s arbitrary: a x)
  case (Cons c s)
  show ?case
  proof (cases x)
    case Nil
    with Cons.prems(2) have "starts_with (c # s) pat" by (simp add: starts_with_def)
    with Cons.prems(1) show ?thesis by simp
  next
    case (Cons d x')
    with Cons.prems Cons.IH [of _ x'] show ?thesis by (auto split: if_splits)
  qed
qed (auto split: if_splits)

lemma first_piece_clean:
  assumes "split_first pat s = Some (a, b)" "pat \<noteq> []"
  shows "\<not> occurs_in pat a"
proof
  assume "occurs_in pat a"
  then obtain x y where "a = x @ pat @ y" by (auto simp: occurs_in_iff)
  moreover from this have "s = x @ pat @ (y @ pat @ b)" using split_first_append [OF assms(1)] by simp
  from split_first_least [OF assms(1) this] have "length a \<le> length x" .
  ultimately show False using assms(2) by simp
qed

lemma replacement_removes:
  assumes "c \<notin> set p" "c \<notin> set (d # ds)" "d \<notin> set p"
  shows "\<not> occurs_in (c # p) (str_replace (c # p) (d # ds) s)"
proof (induction "length s" arbitrary: s rule: less_induct)
  case less
  show ?case
  proof (cases "split_first (c # p) s")
    case None
    then show ?thesis by (simp add: str_replace_absent occurs_in_def)
  next
    case (Some ab)
    obtain a b where ab: "split_first (c # p) s = Some (a, b)" using Some by (cases ab) simp
    define t where "t = str_replace (c # p) (d # ds) b"
    have out: "str_replace (c # p) (d # ds) s = a @ (d # ds) @ t"
      using ab by (simp add: str_replace.simps [of _ _ s] t_def)
    have IH: "\<not> occurs_in (c # p) t"
      unfolding t_def using split_first_shorter [OF ab] by (intro less) simp
    have clean: "\<not> occurs_in (c # p) a" using first_piece_clean [OF ab] by simp
    show ?thesis
    proof
      assume "occurs_in (c # p) (str_replace (c # p) (d # ds) s)"
      then obtain x y where xy: "a @ (d # ds) @ t = x @ c # p @ y" unfolding out occurs_in_iff by auto
      then consider (before) z where "a = x @ c # z" "z @ (d # ds) @ t = p @ y"
        | (after) z where "x = a @ (d # ds) @ z"
        using assms(2) by (fastforce simp: append_eq_append_conv2 append_eq_Cons_conv Cons_eq_append_conv)
      then show False
      proof cases
        case before
        then consider z' where "z = p @ z'" | p' where "p = z @ d # p'"
          by (auto simp: append_eq_append_conv2 append_eq_Cons_conv Cons_eq_append_conv)
        then show False
          using before clean assms(3) by cases (auto simp: occurs_in_iff)
      next
        case after
        with xy have "t = z @ (c # p) @ y" by simp
        with IH show False by (auto simp: occurs_in_iff)
      qed
    qed
  qed
qed

text \<open>
  C31. A text token shows its value and nothing else: the rendered text has no character that could open
  or close a tag or an attribute, never contains the placeholder the mail server substitutes, and
  a mail client that decodes it shows exactly the text of the value.
\<close>
theorem escape_text_faithful:
  "decode_entities (escape_text v) = format_value v \<and>
   set (escape_text v) \<inter> {CHR ''<'', CHR ''>'', CHR 0x22, CHR 0x27} = {} \<and>
   \<not> occurs_in RESERVED_AKKA_TOKEN (escape_text v)"
proof -
  have "decode_entities (escape_text v) = format_value v"
    using decode_html_escape [of "format_value v" "[]"] by (simp add: escape_text_def decode_replace_reserved)
  moreover have "set (html_escape s) \<inter> {CHR ''<'', CHR ''>'', CHR 0x22, CHR 0x27} = {}" for s
    by (auto simp: html_escape_chars escape_char_def split: if_splits)
  then have "set (escape_text v) \<inter> {CHR ''<'', CHR ''>'', CHR 0x22, CHR 0x27} = {}"
    unfolding escape_text_def
    using set_str_replace [of RESERVED_AKKA_TOKEN RESERVED_AKKA_NEUTRAL "html_escape (format_value v)"]
    by (fastforce simp: RESERVED_AKKA_NEUTRAL_def)
  moreover have "\<not> occurs_in RESERVED_AKKA_TOKEN (escape_text v)"
    unfolding escape_text_def RESERVED_AKKA_TOKEN_def RESERVED_AKKA_NEUTRAL_def
    by (rule replacement_removes) simp_all
  ultimately show ?thesis by blast
qed

subsection \<open>Subject line\<close>

lemma set_py_strip: "set (py_strip s) \<subseteq> set s"
  by (auto simp: py_strip_def py_lstrip_def dest!: set_dropWhileD)

lemma py_strip_idem: "py_strip (py_strip s) = py_strip s"
proof (cases "py_lstrip s")
  case Nil
  then have "py_strip s = []" by (simp add: py_strip_def)
  moreover have "py_strip [] = []" by (simp add: py_strip_def py_lstrip_def)
  ultimately show ?thesis by simp
next
  case (Cons c cs)
  have c: "\<not> is_space c"
    using Cons hd_dropWhile [of is_space s] by (simp add: py_lstrip_def)
  have "\<exists>u. rev (dropWhile is_space (rev (c # cs))) = c # u"
    using c by (auto simp: dropWhile_append intro!: exI [of _ "rev (dropWhile is_space (rev cs))"])
  then obtain u where u: "py_strip s = c # u" unfolding py_strip_def Cons by blast
  then have "dropWhile is_space (rev (c # cs)) = rev (c # u)" unfolding py_strip_def Cons by (simp add: rev_swap)
  then have "dropWhile is_space (rev (c # u)) = rev (c # u)" by (metis dropWhile_idem)
  then show ?thesis unfolding u using c by (simp add: py_strip_def py_lstrip_def)
qed

lemma title_no_colon: "CHR '':'' \<notin> set (render_title tpl scalars)"
proof -
  have "CHR '':'' \<notin> set (str_replace '':'' '' '' s)" for s by (auto simp: str_replace_char)
  then show ?thesis unfolding render_title_def Let_def using set_py_strip by blast
qed

text \<open>
  The subject never contains the colon at which the mail server separates subject and body, whatever
  the template and the values hold, and has no white space at its ends.
\<close>
theorem render_title_no_colon:
  "CHR '':'' \<notin> set (render_title tpl scalars) \<and> py_strip (render_title tpl scalars) = render_title tpl scalars"
  by (simp add: title_no_colon) (simp add: render_title_def Let_def py_strip_idem)

subsection \<open>Byte cap\<close>

lemma length_decode_ignore: "length (decode_ignore bs) \<le> length bs"
proof -
  have "length cs < length bs" if "dropWhile is_continuation (rev bs) = c # cs" for c cs
    using that length_dropWhile_le [of is_continuation "rev bs"] by simp
  then show ?thesis by (fastforce simp: decode_ignore_def split: list.splits)
qed

lemma truncate_capped:
  "int (length (truncate_to_bytes out cap)) \<le> max cap (int (length TRUNCATE_MARKER))"
proof -
  let ?n = "nat (max 0 (cap - int (length TRUNCATE_MARKER)))"
  have "length (decode_ignore (take ?n out)) \<le> ?n"
    using length_decode_ignore [of "take ?n out"] by simp
  then show ?thesis by (simp add: truncate_to_bytes_def)
qed

lemma body_capped:
  "int (length (render_body tpl scalars rows row_limit ovf (Some cap))) \<le> max cap (int (length TRUNCATE_MARKER))"
  using truncate_capped by (auto simp: render_body_def Let_def le_max_iff_disj)

text \<open>
  A capped body is never longer than the cap, or than the truncation marker when the cap is
  smaller than that; a body within the cap is not touched.
\<close>
theorem render_body_capped:
  "int (length (render_body tpl scalars rows row_limit ovf (Some cap))) \<le> max cap (int (length TRUNCATE_MARKER)) \<and>
   (cap < int (length (render_body tpl scalars rows row_limit ovf None)) \<or>
      render_body tpl scalars rows row_limit ovf (Some cap) = render_body tpl scalars rows row_limit ovf None)"
  using body_capped by (auto simp: render_body_def Let_def)

subsection \<open>Repeat block\<close>

lemma split_first_clean:
  assumes "c \<notin> set p" "\<not> occurs_in (c # p) a"
  shows "split_first (c # p) (a @ (c # p) @ b) = Some (a, b)"
  using assms(2)
proof (induction a)
  case Nil
  then show ?case by (simp add: starts_with_def)
next
  case (Cons d a)
  have "\<not> starts_with (d # a @ (c # p) @ b) (c # p)"
  proof
    assume "starts_with (d # a @ (c # p) @ b) (c # p)"
    then obtain t where t: "d = c" "a @ (c # p) @ b = p @ t" by (auto simp: starts_with_iff)
    then consider z where "a = p @ z" | z where "p = a @ c # z"
      by (auto simp: append_eq_append_conv2 Cons_eq_append_conv append_eq_Cons_conv)
    then show False
    proof cases
      case 1
      with t(1) Cons.prems show False by (auto simp: occurs_in_iff intro: exI [of _ "[]"])
    qed (use assms(1) in auto)
  qed
  moreover have "\<not> occurs_in (c # p) a"
    using Cons.prems by (auto simp: occurs_in_iff) (metis append_Cons)
  ultimately show ?case using Cons.IH by simp
qed

lemma split_markers:
  "\<not> occurs_in ERB_START pre \<Longrightarrow> split_first ERB_START (pre @ ERB_START @ rest) = Some (pre, rest)"
  "\<not> occurs_in ERB_END inner \<Longrightarrow> split_first ERB_END (inner @ ERB_END @ post) = Some (inner, post)"
  unfolding ERB_START_def ERB_END_def by (rule split_first_clean; simp)+

text \<open>
  A template with one repeat block renders the text around the block unchanged, one copy of the
  block per row in order, numbered from one, up to the row limit, and the overflow line with the
  number of rows left out exactly when there are any.
\<close>
theorem expand_single_block:
  assumes "\<not> has_marker pre" "\<not> has_marker inner" "\<not> has_marker post" "0 \<le> limit"
    and out: "out = pre @ concat (map (row_piece inner) (enumerate 1 (take (nat limit) rows))) @
      (if length rows \<le> nat limit then []
       else str_replace ''@RemainingCount'' (str_of_nat (length rows - nat limit)) overflow) @ post"
    and "\<not> has_marker out"
  shows "expand_erb (pre @ ERB_START @ inner @ ERB_END @ post) rows (Some limit) overflow = out"
proof -
  have "split_first ERB_START (pre @ ERB_START @ inner @ ERB_END @ post) = Some (pre, inner @ ERB_END @ post)"
    "split_first ERB_END (inner @ ERB_END @ post) = Some (inner, post)"
    using split_markers assms(1,2) by (auto simp: has_marker_def)
  moreover have "overflow_line overflow (length rows - length (take (nat limit) rows)) =
      (if length rows \<le> nat limit then []
       else str_replace ''@RemainingCount'' (str_of_nat (length rows - nat limit)) overflow)"
    by (auto simp: overflow_line_def)
  ultimately show ?thesis
    using assms by (simp add: expand_erb_def Let_def py_slice_to_def)
qed

definition sample_row :: "string \<Rightarrow> token_map" where
  "sample_row eqp = [(''@Row.EqpId'', TStr eqp)]"

theorem expand_single_block_witness:
  "expand_erb (''<ul>'' @ ERB_START @ ''<li>@Row.Index @Row.EqpId</li>'' @ ERB_END @ ''</ul>'')
     [sample_row ''A<1'', sample_row ''B''] (Some 1) ''and @RemainingCount more'' =
   ''<ul><li>1 A&lt;1</li>and 1 more</ul>''"
proof (rule expand_single_block)
  show "\<not> has_marker ''<ul>''" by code_simp
  show "\<not> has_marker ''<li>@Row.Index @Row.EqpId</li>''" by code_simp
  show "\<not> has_marker ''</ul>''" by code_simp
  show "(0::int) \<le> 1" by simp
  show "''<ul><li>1 A&lt;1</li>and 1 more</ul>'' =
      ''<ul>'' @ concat (map (row_piece ''<li>@Row.Index @Row.EqpId</li>'')
        (enumerate 1 (take (nat 1) [sample_row ''A<1'', sample_row ''B'']))) @
      (if length [sample_row ''A<1'', sample_row ''B''] \<le> nat 1 then []
       else str_replace ''@RemainingCount'' (str_of_nat (length [sample_row ''A<1'', sample_row ''B''] - nat 1))
              ''and @RemainingCount more'') @ ''</ul>''"
    by code_simp
  show "\<not> has_marker ''<ul><li>1 A&lt;1</li>and 1 more</ul>''" by code_simp
qed

text \<open>
  The scalar pass runs over the expanded block, so a token spelled inside a row's data is replaced
  once more; and removing markers once can uncover another one.
\<close>
lemma row_data_reinterpreted:
  "render_body (ERB_START @ ''@Row.EqpId'' @ ERB_END) [(''@Process'', TStr ''ETCH'')] [sample_row ''@Process'']
     None [] None = ''ETCH''"
  by code_simp

lemma nested_marker_survives:
  "expand_erb (''<!--@Each'' @ ERB_START @ ''Equipment-->'') [] None [] = ERB_START"
  by code_simp

subsection \<open>Row order\<close>

text \<open>
  Ordering the rows loses and adds none, puts every row before the rows of a lower severity and,
  within a severity, before the rows with a smaller current value or none.
\<close>
theorem order_rows_worst_first:
  "mset (order_rows rows) = mset rows \<and>
   sorted_wrt (\<lambda>r s. fst (row_sort_key r) < fst (row_sort_key s) \<or>
       fst (row_sort_key r) = fst (row_sort_key s) \<and> snd (row_sort_key r) \<le> snd (row_sort_key s)) (order_rows rows)"
proof -
  have "sorted_wrt (\<lambda>r s. row_sort_key r \<le> row_sort_key s) (order_rows rows)"
    using sorted_sort_key [of row_sort_key rows] unfolding order_rows_def sorted_map .
  then show ?thesis
    by (auto simp: order_rows_def less_eq_prod_def less_le elim: sorted_wrt_mono_rel [rotated])
qed

end
