(* ===== verification/Json.thy ===== *)
theory Json
  imports Py_Strings
begin

text \<open>
  JSON values as Python holds them after \<open>json.loads\<close>, and the two ways the sources read a
  dictionary: \<open>d.get(k, default)\<close> and \<open>d[k]\<close>. Reading from a value that is not a dictionary raises,
  as in Python.
\<close>

datatype json =
    JNull | JBool bool | JNum rat | JStr string | JArr "json list" | JObj "(string \<times> json) list"

datatype JsonError = AttributeError | KeyError string | TypeError

definition jget :: "json \<Rightarrow> string \<Rightarrow> json \<Rightarrow> JsonError + json" where
  "jget d k dflt =
     (case d of JObj kvs \<Rightarrow> Inr (dict_get kvs k dflt) | _ \<Rightarrow> Inl AttributeError)"

definition jindex :: "json \<Rightarrow> string \<Rightarrow> JsonError + json" where
  "jindex d k =
     (case d of
        JObj kvs \<Rightarrow> (case map_of kvs k of None \<Rightarrow> Inl (KeyError k) | Some v \<Rightarrow> Inr v)
      | _ \<Rightarrow> Inl TypeError)"

definition jhas :: "json \<Rightarrow> string \<Rightarrow> bool" where
  "jhas d k = (case d of JObj kvs \<Rightarrow> map_of kvs k \<noteq> None | _ \<Rightarrow> False)"

definition jlist :: "json \<Rightarrow> JsonError + json list" where
  "jlist d = (case d of JArr xs \<Rightarrow> Inr xs | _ \<Rightarrow> Inl TypeError)"

definition jstring :: "json \<Rightarrow> JsonError + string" where
  "jstring d = (case d of JStr s \<Rightarrow> Inr s | _ \<Rightarrow> Inl TypeError)"

lemma jget_JObj [simp]: "jget (JObj kvs) k d = Inr (dict_get kvs k d)"
  by (simp add: jget_def)

lemma jhas_JObj [simp]: "jhas (JObj kvs) k \<longleftrightarrow> map_of kvs k \<noteq> None"
  by (simp add: jhas_def)

lemma jlist_JArr [simp]: "jlist (JArr xs) = Inr xs"
  by (simp add: jlist_def)

lemma jstring_JStr [simp]: "jstring (JStr s) = Inr s"
  by (simp add: jstring_def)

lemma jindex_JObj: "map_of kvs k = Some v \<Longrightarrow> jindex (JObj kvs) k = Inr v"
  by (simp add: jindex_def)

end
