(* ===== verification/Es_Queries.thy ===== *)
theory Es_Queries
  imports Json Models
begin

text \<open>
  \<open>src/src/es/queries.py\<close>: the index names covering a time window and the search body of one
  measure. A \<open>datetime\<close> is the number of microseconds since the epoch in UTC; the calendar is the
  proleptic Gregorian one of Python's \<open>datetime\<close>.
\<close>

subsection \<open>Calendar\<close>

definition day_of :: "datetime \<Rightarrow> int" where
  "day_of t = t div (86400 * 1000000)"

definition minutes :: "int \<Rightarrow> int" where
  "minutes n = n * 60 * 1000000"

text \<open>Year, month and day of a day number.\<close>

definition civil_of_day :: "int \<Rightarrow> int \<times> int \<times> int" where
  "civil_of_day day =
     (let z = day + 719468;
          era = z div 146097;
          doe = z mod 146097;
          yoe = (doe - doe div 1460 + doe div 36524 - doe div 146096) div 365;
          doy = doe - (365 * yoe + yoe div 4 - yoe div 100);
          mp = (5 * doy + 2) div 153;
          d = doy - (153 * mp + 2) div 5 + 1;
          m = (if mp < 10 then mp + 3 else mp - 9)
      in (yoe + era * 400 + (if m \<le> 2 then 1 else 0), m, d))"

definition two_digits :: "int \<Rightarrow> string" where
  "two_digits n = (if n < 10 then ''0'' @ str_of_int n else str_of_int n)"

definition four_digits :: "int \<Rightarrow> string" where
  "four_digits n =
     (if n < 10 then ''000'' else if n < 100 then ''00'' else if n < 1000 then ''0'' else []) @ str_of_int n"

definition six_digits :: "int \<Rightarrow> string" where
  "six_digits n = (let s = str_of_int n in replicate (6 - length s) (CHR ''0'') @ s)"

text \<open>\<open>strftime("%Y.%m.%d")\<close> and \<open>isoformat()\<close> of an aware UTC time.\<close>

definition date_with :: "char \<Rightarrow> int \<Rightarrow> string" where
  "date_with sep day =
     (case civil_of_day day of (y, m, d) \<Rightarrow> four_digits y @ [sep] @ two_digits m @ [sep] @ two_digits d)"

definition isoformat :: "datetime \<Rightarrow> string" where
  "isoformat t =
     (let us = t mod (86400 * 1000000);
          sec = us div 1000000;
          frac = us mod 1000000
      in date_with (CHR ''-'') (day_of t) @ ''T'' @ two_digits (sec div 3600) @ '':'' @
         two_digits (sec div 60 mod 60) @ '':'' @ two_digits (sec mod 60) @
         (if frac = 0 then [] else ''.'' @ six_digits frac) @ ''+00:00'')"

subsection \<open>Fields\<close>

definition TS_FIELD :: string where "TS_FIELD = ''EARS_TIMESTAMP''"
definition VALUE_FIELD :: string where "VALUE_FIELD = ''EARS_VALUE''"
definition CATEGORY_FIELD :: string where "CATEGORY_FIELD = ''EARS_CATEGORY''"
definition METRIC_FIELD :: string where "METRIC_FIELD = ''EARS_METRIC''"
definition PROC_FIELD :: string where "PROC_FIELD = ''EARS_PROCNAME''"
definition EQP_FIELD :: string where "EQP_FIELD = ''EARS_EQPID''"

text \<open>The keyword suffix is the only setting the builder reads.\<close>

definition keyword_field :: "string \<Rightarrow> string \<Rightarrow> string" where
  "keyword_field base es_keyword_suffix = base @ es_keyword_suffix"

subsection \<open>Index range\<close>

definition index_name :: "string \<Rightarrow> int \<Rightarrow> string" where
  "index_name proc day = proc @ ''_all-'' @ date_with (CHR ''.'') day"

text \<open>The days whose indexes are named, and the comma-separated pattern.\<close>

definition index_days :: "datetime \<Rightarrow> int \<Rightarrow> int list" where
  "index_days now time_range_minutes =
     (let start = now - minutes time_range_minutes
      in if day_of start = day_of now then [day_of now] else [day_of start, day_of now])"

definition resolve_index_range :: "string \<Rightarrow> int \<Rightarrow> datetime \<Rightarrow> string" where
  "resolve_index_range process time_range_minutes now =
     str_join '','' (map (index_name (py_lower process)) (index_days now time_range_minutes))"

subsection \<open>Search body\<close>

text \<open>A numeral written into a body.\<close>

definition jint :: "int \<Rightarrow> json" where
  "jint n = JNum (of_int n)"

definition optional_number :: "rat option \<Rightarrow> json" where
  "optional_number v = (case v of None \<Rightarrow> JNull | Some q \<Rightarrow> JNum q)"

definition fact_sub_agg :: "Fact \<Rightarrow> json option" where
  "fact_sub_agg f =
     (case agg_strategy (f_type f) of
        STAT \<Rightarrow>
          map_option (\<lambda>agg. JObj [(agg, JObj [(''field'', JStr VALUE_FIELD)])]) (STAT_AGG_NAME (f_type f))
      | PERCENTILES \<Rightarrow>
          map_option (\<lambda>pct. JObj [(''percentiles'', JObj [(''field'', JStr VALUE_FIELD),
             (''percents'', JArr [jint (int pct)])])]) (PERCENTILE_OF_FACT (f_type f))
      | TOP_HITS \<Rightarrow>
          Some (JObj [(''top_hits'', JObj [(''size'', jint 1),
             (''sort'', JArr [JObj [(TS_FIELD, JObj [(''order'', JStr ''desc'')])]]),
             (''_source'', JArr [JStr VALUE_FIELD])])])
      | FILTER_RANGE \<Rightarrow>
          Some (JObj [(''filter'', JObj [(''range'', JObj [(VALUE_FIELD,
             JObj [(if f_direction f = Some Dir_above then ''gte'' else ''lte'', optional_number (f_over f))])])])])
      | _ \<Rightarrow> None)"

definition build_fact_sub_aggs :: "Fact list \<Rightarrow> (string, json) dict" where
  "build_fact_sub_aggs facts =
     foldl (\<lambda>sub f. case fact_sub_agg f of None \<Rightarrow> sub | Some agg \<Rightarrow> AList.update (fact_name (f_type f)) agg sub)
       [] facts"

definition build_time_range_filter :: "datetime \<Rightarrow> int \<Rightarrow> json" where
  "build_time_range_filter now window_minutes =
     JObj [(''range'', JObj [(TS_FIELD, JObj
       [(''gte'', JStr (isoformat (now - minutes window_minutes))),
        (''lte'', JStr (isoformat now)),
        (''format'', JStr ''strict_date_optional_time'')])])]"

definition TERMS_AGG_SIZE :: int where "TERMS_AGG_SIZE = 30000"
definition METRIC_TERMS_SIZE :: int where "METRIC_TERMS_SIZE = 1000"
definition PROC_TERMS_SIZE :: int where "PROC_TERMS_SIZE = 1000"

definition terms_agg :: "string \<Rightarrow> int \<Rightarrow> json \<Rightarrow> json" where
  "terms_agg field sz inner =
     JObj [(''terms'', JObj [(''field'', JStr field), (''size'', jint sz)]), (''aggs'', inner)]"

definition strings_json :: "string list \<Rightarrow> json" where
  "strings_json xs = JArr (map JStr xs)"

definition build_metric_aggregation_query ::
  "string \<Rightarrow> datetime \<Rightarrow> int \<Rightarrow> string \<Rightarrow> string list \<Rightarrow> string \<Rightarrow> Fact list \<Rightarrow> bool \<Rightarrow> string list \<Rightarrow> json" where
  "build_metric_aggregation_query kw now window_minutes category metrics proc facts expand_instance eqp_ids =
     (let cat_field = keyword_field CATEGORY_FIELD kw;
          metric_field = keyword_field METRIC_FIELD kw;
          proc_field = keyword_field PROC_FIELD kw;
          eqp_field = keyword_field EQP_FIELD kw;
          leaf = JObj (build_fact_sub_aggs facts);
          inner1 = (if expand_instance
                    then JObj [(''by_metric'', terms_agg metric_field METRIC_TERMS_SIZE leaf)] else leaf);
          inner2 = (if proc = wildcard
                    then JObj [(''by_proc'', terms_agg proc_field PROC_TERMS_SIZE inner1)] else inner1);
          filters =
            [build_time_range_filter now window_minutes,
             JObj [(''term'', JObj [(cat_field, JStr category)])]] @
            (if metrics \<noteq> [] then [JObj [(''terms'', JObj [(metric_field, strings_json metrics)])]] else []) @
            (if proc \<noteq> wildcard then [JObj [(''term'', JObj [(proc_field, JStr proc)])]] else []) @
            (if eqp_ids \<noteq> [] then [JObj [(''terms'', JObj [(eqp_field, strings_json eqp_ids)])]] else [])
      in JObj
           [(''size'', jint 0),
            (''query'', JObj [(''bool'', JObj [(''filter'', JArr filters)])]),
            (''aggs'', JObj [(''by_eqp'', terms_agg eqp_field TERMS_AGG_SIZE inner2)])])"

subsection \<open>Coverage of the window\<close>

lemma day_of_mono: "s \<le> t \<Longrightarrow> day_of s \<le> day_of t"
  by (simp add: day_of_def zdiv_mono1)

text \<open>
  The named indexes cover the query window when it crosses at most one UTC midnight: the day of
  every instant in the window is one of the named days, and every named day meets the window.
\<close>
theorem index_days_cover:
  assumes "0 \<le> n" "day_of now \<le> day_of (now - minutes n) + 1"
    and "now - minutes n \<le> t" "t \<le> now"
  shows "day_of t \<in> set (index_days now n) \<and>
     set (index_days now n) \<subseteq> day_of ` {now - minutes n..now}"
proof
  have "day_of (now - minutes n) \<le> day_of t" "day_of t \<le> day_of now"
    using assms(3,4) by (simp_all add: day_of_mono)
  with assms(2) show "day_of t \<in> set (index_days now n)"
    by (auto simp: index_days_def Let_def)
  have "now - minutes n \<le> now" using assms(3,4) by simp
  then show "set (index_days now n) \<subseteq> day_of ` {now - minutes n..now}"
    by (auto simp: index_days_def Let_def)
qed

theorem index_days_cover_witness:
  "day_of 86400000001 \<in> set (index_days 86400000002 15)"
  using index_days_cover [of 15 86400000002 86400000001]
  by (simp add: day_of_def minutes_def)

text \<open>
  A window that crosses two midnights leaves a day out: with a window of two days the index of
  the day in the middle is not named, so its samples are not searched.
\<close>
theorem index_days_gap:
  assumes "day_of (now - minutes n) + 1 < day_of now"
  shows "day_of (now - minutes n) + 1 \<notin> set (index_days now n) \<and>
     (\<exists>t. now - minutes n \<le> t \<and> t \<le> now \<and> day_of t = day_of (now - minutes n) + 1)"
proof
  show "day_of (now - minutes n) + 1 \<notin> set (index_days now n)"
    using assms by (auto simp: index_days_def Let_def)
  let ?d = "day_of (now - minutes n) + 1"
  let ?t = "?d * (86400 * 1000000)"
  have "day_of ?t = ?d" by (simp add: day_of_def)
  moreover have "now - minutes n \<le> ?t"
    unfolding day_of_def using div_mult_mod_eq [of "now - minutes n" "86400 * 1000000"]
      pos_mod_bound [of "86400 * 1000000" "now - minutes n"] by (simp add: algebra_simps)
  moreover have "?t \<le> now"
  proof -
    have "?d \<le> day_of now" using assms by simp
    then have "?t \<le> day_of now * (86400 * 1000000)" by simp
    also have "\<dots> \<le> now"
      unfolding day_of_def using div_mult_mod_eq [of now "86400 * 1000000"]
        pos_mod_sign [of "86400 * 1000000" now] by (simp add: algebra_simps)
    finally show ?thesis .
  qed
  ultimately show "\<exists>t. now - minutes n \<le> t \<and> t \<le> now \<and> day_of t = ?d" by blast
qed

theorem index_days_gap_witness: "1 \<notin> set (index_days (3 * 86400000000) (3 * 1440))"
  using index_days_gap [of "3 * 86400000000" "3 * 1440"] by (simp add: day_of_def minutes_def)

lemma known_days: "date_with (CHR ''.'') 0 = ''1970.01.01''" "date_with (CHR ''-'') 20514 = ''2026-03-02''"
  by code_simp+

end
