(* ===== verification/Alert_Builder.thy ===== *)
theory Alert_Builder
  imports Body_Renderer Threshold Es_Queries Cooldown
begin

text \<open>
  \<open>src/src/alert/models.py\<close> and \<open>src/src/analyzer/alert_builder.py\<close>: the mail request with its wire
  form, and its construction from a breach, the equipment document and the notify channel. A
  Mongo document of equipment is a dictionary of strings; a mail template is a dictionary of JSON
  values, since its columns are not validated.
\<close>

subsection \<open>Request\<close>

record EmailAlertRequest =
  hostname :: string
  ip :: string
  app :: string
  process :: string
  eqp_model :: string
  line :: string
  code :: string
  subcode :: string
  variables :: "(string, string) dict"
  rendered_body :: "string option"
  title :: "string option"
  email_category :: "string option"
  display_id :: "string option"

definition optional_entry :: "string \<Rightarrow> string option \<Rightarrow> (string, json) dict" where
  "optional_entry k v = (case v of None \<Rightarrow> [] | Some s \<Rightarrow> [(k, JStr s)])"

definition to_payload :: "EmailAlertRequest \<Rightarrow> (string, json) dict" where
  "to_payload r =
     [(''hostname'', JStr (hostname r)), (''ip'', JStr (ip r)), (''app'', JStr (app r)),
      (''process'', JStr (process r)), (''model'', JStr (eqp_model r)), (''line'', JStr (line r)),
      (''code'', JStr (code r)), (''subcode'', JStr (subcode r)),
      (''variables'', JObj (map (\<lambda>(k, v). (k, JStr v)) (variables r)))] @
     optional_entry ''renderedBody'' (rendered_body r) @ optional_entry ''title'' (title r) @
     optional_entry ''emailCategory'' (email_category r) @ optional_entry ''displayId'' (display_id r)"

subsection \<open>Values\<close>

datatype AlertError = DecimalInvalidOperation

definition severity_name :: "Severity \<Rightarrow> string" where
  "severity_name s = (case s of WARNING \<Rightarrow> ''WARNING'' | CRITICAL \<Rightarrow> ''CRITICAL'')"

definition group_by_name :: "GroupBy \<Rightarrow> string" where
  "group_by_name g = (case g of By_eqp \<Rightarrow> ''eqp'' | By_model \<Rightarrow> ''model'' | By_process \<Rightarrow> ''process'')"

text \<open>
  \<open>Decimal(str(v)).quantize(Decimal("0.1"), rounding=ROUND_HALF_UP)\<close>: halves go away from zero, and
  a result of more than 28 digits raises.
\<close>

definition round_tenths :: "rat \<Rightarrow> int" where
  "round_tenths q = (if q < 0 then - \<lfloor>- q * 10 + 1 / 2\<rfloor> else \<lfloor>q * 10 + 1 / 2\<rfloor>)"

definition round_display :: "rat option \<Rightarrow> AlertError + rat option" where
  "round_display value =
     (case value of
        None \<Rightarrow> Inr None
      | Some q \<Rightarrow>
          if \<bar>round_tenths q\<bar> \<ge> 10 ^ 28 then Inl DecimalInvalidOperation
          else Inr (Some (of_int (round_tenths q) / 10)))"

definition number_token :: "rat option \<Rightarrow> TokenValue" where
  "number_token v = (case v of None \<Rightarrow> TNone | Some q \<Rightarrow> TFloat q)"

definition value_token :: "Value \<Rightarrow> TokenValue" where
  "value_token v = (case v of Num q \<Rightarrow> TFloat q | Str s \<Rightarrow> TStr s)"

definition string_token :: "string option \<Rightarrow> TokenValue" where
  "string_token v = (case v of None \<Rightarrow> TNone | Some s \<Rightarrow> TStr s)"

text \<open>\<open>x or y\<close> for strings.\<close>

definition str_or :: "string option \<Rightarrow> string \<Rightarrow> string" where
  "str_or x y = (case x of None \<Rightarrow> y | Some s \<Rightarrow> if s = [] then y else s)"

type_synonym eqp_doc = "(string, string) dict"

subsection \<open>Keys and codes\<close>

definition make_cooldown_key :: "string \<Rightarrow> ThresholdBreach \<Rightarrow> string \<Rightarrow> string option \<Rightarrow> CooldownKey" where
  "make_cooldown_key process_name breach notify_name group_value =
     (process_name, str_or group_value (t_eqp_id breach), t_proc breach, notify_name,
      severity_name (t_severity breach))"

definition resolve_group_value :: "GroupBy \<Rightarrow> ThresholdBreach \<Rightarrow> eqp_doc \<Rightarrow> string \<Rightarrow> string" where
  "resolve_group_value group_by breach eqp_info process_name =
     (case group_by of
        By_model \<Rightarrow> dict_get eqp_info ''eqpModel'' []
      | By_process \<Rightarrow> process_name
      | By_eqp \<Rightarrow> t_eqp_id breach)"

definition build_email_category :: "string \<Rightarrow> GroupBy \<Rightarrow> string \<Rightarrow> string option \<Rightarrow> string option" where
  "build_email_category process_name group_by model email_group =
     (case email_group of
        None \<Rightarrow> None
      | Some g \<Rightarrow>
          if g = [] then None
          else Some (''EMAIL-'' @ process_name @ ''-'' @ (if group_by = By_process then ''ALL'' else model) @ ''-'' @ g))"

definition resolve_code_subcode :: "NotifyChannel \<Rightarrow> ThresholdBreach \<Rightarrow> string \<times> string" where
  "resolve_code_subcode notify breach =
     (n_email_code notify,
      str_or (n_email_subcode notify) (py_upper (t_category breach) @ ''_'' @ severity_name (t_severity breach)))"

subsection \<open>Body\<close>

record AlertSettings =
  grafana_base_url :: string
  grafana_dashboard_uid :: string
  rms_custom_body_enabled :: bool
  email_app_name :: string
  rms_erb_row_limit :: int
  rms_body_byte_cap :: int

definition DEFAULT_OVERFLOW :: string where
  "DEFAULT_OVERFLOW =
    ''<tr><td colspan='' @ [CHR 0x22] @ ''99'' @ [CHR 0x22] @ ''>'' @ [CHR 0xEC, CHR 0x99, CHR 0xB8] @
    '' @RemainingCount'' @ [CHR 0xEB, CHR 0x8C, CHR 0x80] @ '' '' @ [CHR 0xEB, CHR 0x8D, CHR 0x94] @
    '' '' @
    [CHR 0xEC, CHR 0x9E, CHR 0x88, CHR 0xEC, CHR 0x8A, CHR 0xB5, CHR 0xEB, CHR 0x8B, CHR 0x88, CHR 0xEB, CHR 0x8B, CHR 0xA4, CHR 0xE2, CHR 0x80, CHR 0xA6] @
    ''</td></tr>''"

definition fmt_timestamp :: "datetime option \<Rightarrow> string option" where
  "fmt_timestamp ts =
     (case ts of
        None \<Rightarrow> None
      | Some t \<Rightarrow>
          (let kst = t + minutes (9 * 60);
               sec = kst mod (86400 * 1000000) div 1000000
           in Some (date_with (CHR ''-'') (day_of kst) @ '' '' @ two_digits (sec div 3600) @ '':'' @
                two_digits (sec div 60 mod 60) @ '' KST'')))"

definition build_scalars ::
  "ThresholdBreach \<Rightarrow> eqp_doc \<Rightarrow> string \<Rightarrow> NotifyChannel \<Rightarrow> int \<Rightarrow> string list option \<Rightarrow> datetime option \<Rightarrow>
     string \<Rightarrow> string \<Rightarrow> string \<Rightarrow> string \<Rightarrow> AlertError + token_map" where
  "build_scalars breach eqp_info process_name notify window_minutes affected timestamp code_text subcode_text
      category grafana_url =
     bind_res (round_display (t_current_value breach))
       (\<lambda>current. Inr
         [(''@Severity'', TStr (severity_name (t_severity breach))),
          (''@Category'', TStr category),
          (''@Fact'', TStr (t_fact breach)),
          (''@CurrentValue'', number_token current),
          (''@Threshold'', value_token (t_threshold_value breach)),
          (''@Operator'', TStr (op_name (t_op breach))),
          (''@WindowMin'', TInt window_minutes),
          (''@Timestamp'', string_token (fmt_timestamp timestamp)),
          (''@Process'', TStr process_name),
          (''@GroupBy'', TStr (group_by_name (n_group_by notify))),
          (''@GroupValue'', TStr (resolve_group_value (n_group_by notify) breach eqp_info process_name)),
          (''@AffectedCount'', (case affected of None \<Rightarrow> TNone | Some es \<Rightarrow> TInt (int (length es)))),
          (''@AffectedEquipment'',
             (case affected of None \<Rightarrow> TNone | Some es \<Rightarrow> if es = [] then TNone else TStr (str_join '', '' es))),
          (''@GrafanaUrl'', TStr grafana_url),
          (''@Hostname'', TStr (t_eqp_id breach)),
          (''@Model'', TStr (dict_get eqp_info ''eqpModel'' [])),
          (''@Line'', TStr (dict_get eqp_info ''line'' [])),
          (''@IP'', TStr (dict_get eqp_info ''ipAddr'' [])),
          (''@CODE'', TStr (if subcode_text = [] then code_text else code_text @ ''-'' @ subcode_text))])"

definition build_row :: "(string, eqp_doc) dict \<Rightarrow> ThresholdBreach \<Rightarrow> AlertError + token_map" where
  "build_row eqp_lookup m =
     (let info = dict_get eqp_lookup (t_eqp_id m) []
      in bind_res (round_display (t_current_value m))
           (\<lambda>current. Inr
             [(''@Row.EqpId'', TStr (t_eqp_id m)),
              (''@Row.CurrentValue'', number_token current),
              (''@Row.Threshold'', value_token (t_threshold_value m)),
              (''@Row.Severity'', TStr (severity_name (t_severity m))),
              (''@Row.Fact'', TStr (t_fact m)),
              (''@Row.Category'', TStr (py_upper (t_category m))),
              (''@Row.Operator'', TStr (op_name (t_op m))),
              (''@Row.Model'', TStr (dict_get info ''eqpModel'' [])),
              (''@Row.Line'', TStr (dict_get info ''line'' [])),
              (''@Row.IP'', TStr (dict_get info ''ipAddr'' [])),
              (''@Row.Proc'', TStr (t_proc m))]))"

definition build_rows ::
  "ThresholdBreach \<Rightarrow> ThresholdBreach list option \<Rightarrow> (string, eqp_doc) dict \<Rightarrow> AlertError + token_map list" where
  "build_rows breach members eqp_lookup =
     (let breaches = (case members of None \<Rightarrow> [breach] | Some ms \<Rightarrow> if ms = [] then [breach] else ms)
      in bind_res (map_res (build_row eqp_lookup) breaches) (\<lambda>rows. Inr (order_rows rows)))"

text \<open>Truth of a JSON value, and the template columns. A column that is not text makes the renderer raise.\<close>

definition jtruthy :: "json \<Rightarrow> bool" where
  "jtruthy j = (case j of JNull \<Rightarrow> False | JBool b \<Rightarrow> b | JNum q \<Rightarrow> q \<noteq> 0 | JStr s \<Rightarrow> s \<noteq> []
     | JArr xs \<Rightarrow> xs \<noteq> [] | JObj kvs \<Rightarrow> kvs \<noteq> [])"

definition template_column :: "(string, json) dict option \<Rightarrow> string \<Rightarrow> string \<Rightarrow> string option" where
  "template_column template column dflt =
     (case template of
        None \<Rightarrow> Some dflt
      | Some kvs \<Rightarrow>
          (let v = dict_get kvs column JNull
           in if \<not> jtruthy v then Some dflt else case v of JStr s \<Rightarrow> Some s | _ \<Rightarrow> None))"

definition render_custom_body ::
  "(string, json) dict option \<Rightarrow> token_map \<Rightarrow> token_map list \<Rightarrow> AlertSettings \<Rightarrow> string \<times> string" where
  "render_custom_body template scalars rows settings =
     (let body = (\<lambda>h. render_body h scalars rows (Some (rms_erb_row_limit settings)) DEFAULT_OVERFLOW
                        (Some (rms_body_byte_cap settings)))
      in case (template_column template ''html'' DEFAULT_BODY, template_column template ''title'' []) of
           (Some h, Some tt) \<Rightarrow> (body h, render_title tt scalars)
         | _ \<Rightarrow> (body DEFAULT_BODY, render_title [] scalars))"

subsection \<open>Request construction\<close>

definition grafana_link :: "AlertSettings \<Rightarrow> string \<Rightarrow> string \<Rightarrow> string" where
  "grafana_link settings eqp_id process_name =
     (if grafana_base_url settings \<noteq> [] \<and> grafana_dashboard_uid settings \<noteq> []
      then grafana_base_url settings @ ''/d/'' @ grafana_dashboard_uid settings @ ''?var-eqpId='' @ eqp_id @
           ''&var-process='' @ process_name
      else [])"

definition build_alert_request ::
  "ThresholdBreach \<Rightarrow> eqp_doc \<Rightarrow> string \<Rightarrow> AlertSettings \<Rightarrow> NotifyChannel \<Rightarrow> int \<Rightarrow> string list option \<Rightarrow>
     ThresholdBreach list option \<Rightarrow> (string, eqp_doc) dict \<Rightarrow> datetime option \<Rightarrow> (string, json) dict option \<Rightarrow>
     string option \<Rightarrow> string option \<Rightarrow> AlertError + EmailAlertRequest" where
  "build_alert_request breach eqp_info process_name settings notify window_minutes affected members eqp_lookup
      timestamp template category_id headline =
     (let category = py_upper (t_category breach);
          (code_text, subcode_text) = resolve_code_subcode notify breach;
          grafana_url = grafana_link settings (t_eqp_id breach) process_name
      in bind_res (round_display (t_current_value breach)) (\<lambda>current.
         let vars =
               [(''Severity'', severity_name (t_severity breach)), (''Category'', category),
                (''MetricName'', t_fact breach), (''CurrentValue'', py_str (number_token current)),
                (''Threshold'', py_str (value_token (t_threshold_value breach))),
                (''WindowMin'', str_of_int window_minutes), (''GrafanaUrl'', grafana_url)] @
               (case affected of None \<Rightarrow> []
                | Some es \<Rightarrow> [(''AffectedEquipment'', str_join '', '' es), (''AffectedCount'', str_of_nat (length es))]);
             request = (\<lambda>body subject.
               \<lparr>hostname = t_eqp_id breach, ip = dict_get eqp_info ''ipAddr'' [], app = email_app_name settings,
                process = process_name, eqp_model = dict_get eqp_info ''eqpModel'' [],
                line = dict_get eqp_info ''line'' [], code = code_text, subcode = subcode_text, variables = vars,
                rendered_body = body, title = subject, email_category = category_id, display_id = headline\<rparr>)
         in if rms_custom_body_enabled settings
            then bind_res (build_scalars breach eqp_info process_name notify window_minutes affected timestamp
                             code_text subcode_text category grafana_url)
                   (\<lambda>scalars. bind_res (build_rows breach members eqp_lookup)
                      (\<lambda>rows. case render_custom_body template scalars rows settings of
                                (body, subject) \<Rightarrow> Inr (request (Some body) (Some subject))))
            else Inr (request None None)))"

subsection \<open>Wire form\<close>

text \<open>
  What the mail server reads from the body, field by field, as the docstring of
  \<open>EmailAlertRequest\<close> gives its case class: nine mandatory fields and four optional ones.
\<close>

definition read_text :: "(string, json) dict \<Rightarrow> string \<Rightarrow> string option" where
  "read_text d k = (case map_of d k of Some (JStr s) \<Rightarrow> Some s | _ \<Rightarrow> None)"

definition read_variables :: "(string, json) dict \<Rightarrow> (string, string) dict option" where
  "read_variables d =
     (case map_of d ''variables'' of
        Some (JObj kvs) \<Rightarrow>
          those (map (\<lambda>(k, v). case v of JStr s \<Rightarrow> Some (k, s) | _ \<Rightarrow> None) kvs)
      | _ \<Rightarrow> None)"

definition read_payload :: "(string, json) dict \<Rightarrow> EmailAlertRequest option" where
  "read_payload d =
     (case (map (read_text d) [''hostname'', ''ip'', ''app'', ''process'', ''model'', ''line'', ''code'', ''subcode''],
            read_variables d) of
        ([Some h, Some i, Some a, Some p, Some m, Some l, Some c, Some sc], Some vars) \<Rightarrow>
          Some \<lparr>hostname = h, ip = i, app = a, process = p, eqp_model = m, line = l, code = c, subcode = sc,
                variables = vars, rendered_body = read_text d ''renderedBody'', title = read_text d ''title'',
                email_category = read_text d ''emailCategory'', display_id = read_text d ''displayId''\<rparr>
      | _ \<Rightarrow> None)"

lemma those_strings: "those (map ((\<lambda>(k, v). case v of JStr s \<Rightarrow> Some (k, s) | _ \<Rightarrow> None) \<circ> (\<lambda>(k, v). (k, JStr v))) kvs) = Some kvs"
  by (induction kvs) auto

text \<open>
  The mail server reads back the request that was built: every field of the wire form is found
  under its name, the optional ones exactly when they were set.
\<close>
theorem payload_roundtrip: "read_payload (to_payload r) = Some r"
proof -
  have "read_variables (to_payload r) = Some (variables r)"
    by (simp add: read_variables_def to_payload_def those_strings)
  moreover have "map (read_text (to_payload r)) [''hostname'', ''ip'', ''app'', ''process'', ''model'', ''line'', ''code'', ''subcode''] =
      [Some (hostname r), Some (ip r), Some (app r), Some (process r), Some (eqp_model r), Some (line r),
       Some (code r), Some (subcode r)]"
    by (simp add: read_text_def to_payload_def)
  moreover have "read_text (to_payload r) ''renderedBody'' = rendered_body r" "read_text (to_payload r) ''title'' = title r"
    "read_text (to_payload r) ''emailCategory'' = email_category r" "read_text (to_payload r) ''displayId'' = display_id r"
    by (simp_all add: read_text_def to_payload_def optional_entry_def map_add_def split: option.splits)
  ultimately show ?thesis by (simp add: read_payload_def)
qed

subsection \<open>Rounding\<close>

lemma round_tenths_near: "\<bar>of_int (round_tenths q) / 10 - q\<bar> \<le> 1 / 20"
proof -
  have near: "\<bar>of_int \<lfloor>x * 10 + 1 / 2\<rfloor> / 10 - x\<bar> \<le> 1 / 20" for x :: rat
    using of_int_floor_le [of "x * 10 + 1 / 2"] real_of_int_floor_gt_diff_one
      floor_correct [of "x * 10 + 1 / 2"] by (auto simp: abs_if field_simps)
  show ?thesis
    using near [of q] near [of "- q"] by (auto simp: round_tenths_def abs_if split: if_splits)
qed

text \<open>
  The value shown in a mail is the measured one to the nearest tenth, a half going away from zero;
  it raises only for values of 28 digits.
\<close>
theorem round_display_nearest:
  assumes "\<bar>q\<bar> < 10 ^ 26"
  shows "\<exists>n. round_display (Some q) = Inr (Some (of_int n / 10)) \<and> \<bar>of_int n / 10 - q\<bar> \<le> 1 / 20 \<and>
     (\<forall>m. \<bar>of_int m / 10 - q\<bar> = 1 / 20 \<longrightarrow> \<bar>m\<bar> \<le> \<bar>n\<bar>)"
proof -
  let ?n = "round_tenths q"
  have near: "\<bar>of_int ?n / 10 - q\<bar> \<le> 1 / 20" by (rule round_tenths_near)
  have "\<bar>of_int ?n :: rat\<bar> < 10 ^ 28"
    using near assms by (auto simp: abs_if split: if_splits)
  then have "of_int \<bar>?n\<bar> < (of_int (10 ^ 28) :: rat)" by simp
  then have "\<bar>?n\<bar> < 10 ^ 28" by (simp only: of_int_less_iff)
  moreover have "\<bar>m\<bar> \<le> \<bar>?n\<bar>" if half: "\<bar>of_int m / 10 - q\<bar> = 1 / 20" for m
  proof -
    consider (up) "q = (of_int m - 1 / 2) / 10" | (down) "q = (of_int m + 1 / 2) / 10"
      using half by (auto simp: abs_if field_simps split: if_splits)
    then show ?thesis
    proof cases
      case up
      then have "q * 10 + 1 / 2 = of_int m" "- q * 10 + 1 / 2 = of_int (1 - m)" by simp_all
      then have "?n = (if q < 0 then m - 1 else m)" unfolding round_tenths_def by (simp only: floor_of_int) simp
      moreover have "q < 0 \<Longrightarrow> m \<le> 0" using up by (simp add: field_simps)
      ultimately show ?thesis by auto
    next
      case down
      then have "q * 10 + 1 / 2 = of_int (m + 1)" "- q * 10 + 1 / 2 = of_int (- m)" by simp_all
      then have "?n = (if q < 0 then m else m + 1)" unfolding round_tenths_def by (simp only: floor_of_int) simp
      moreover have "\<not> q < 0 \<Longrightarrow> 0 \<le> m" using down by (simp add: field_simps)
      ultimately show ?thesis by auto
    qed
  qed
  ultimately show ?thesis using near by (auto simp: round_display_def)
qed

subsection \<open>The request\<close>

definition displayable :: "rat option \<Rightarrow> bool" where
  "displayable v = (case v of None \<Rightarrow> True | Some q \<Rightarrow> \<bar>round_tenths q\<bar> < 10 ^ 28)"

lemma round_display_Inr: "displayable v \<Longrightarrow> \<exists>w. round_display v = Inr w"
  by (auto simp: displayable_def round_display_def split: option.splits)

lemma round_display_cases: "round_display v = Inr w \<Longrightarrow> displayable v"
  by (auto simp: displayable_def round_display_def split: option.splits if_splits)

lemma build_row_Inr: "displayable (t_current_value m) \<Longrightarrow> \<exists>r. build_row lookup m = Inr r"
  using round_display_Inr by (fastforce simp: build_row_def Let_def)

lemma map_res_exists: "(\<And>x. x \<in> set xs \<Longrightarrow> \<exists>y. f x = Inr y) \<Longrightarrow> \<exists>ys. map_res f xs = Inr ys \<and> length ys = length xs"
  by (induction xs) fastforce+

lemma build_rows_Inr:
  assumes "displayable (t_current_value breach)" "\<forall>m\<in>set ms. displayable (t_current_value m)"
  shows "\<exists>rows. build_rows breach (Some ms) lookup = Inr rows \<and> length rows = length (if ms = [] then [breach] else ms)"
  using map_res_exists [of "if ms = [] then [breach] else ms" "build_row lookup"] build_row_Inr assms
  by (fastforce simp: build_rows_def Let_def order_rows_def split: if_splits)

lemma render_custom_body_bounds:
  assumes "render_custom_body template scalars rows settings = (body, subject)"
  shows "int (length body) \<le> max (rms_body_byte_cap settings) (int (length TRUNCATE_MARKER)) \<and> CHR '':'' \<notin> set subject"
  using assms body_capped title_no_colon
  by (auto simp: render_custom_body_def Let_def split: option.splits)

lemma build_request_ok:
  assumes "displayable (t_current_value breach)" "\<forall>m\<in>set ms. displayable (t_current_value m)"
  shows "\<exists>r. build_alert_request breach eqp_info proc_name settings notify window affected (Some ms) lookup
        timestamp template category_id headline = Inr r \<and>
     hostname r = t_eqp_id breach \<and> process r = proc_name \<and>
     (code r, subcode r) = resolve_code_subcode notify breach \<and>
     email_category r = category_id \<and> display_id r = headline \<and>
     (if rms_custom_body_enabled settings
      then (\<exists>body subject. rendered_body r = Some body \<and> title r = Some subject \<and>
             int (length body) \<le> max (rms_body_byte_cap settings) (int (length TRUNCATE_MARKER)) \<and>
             CHR '':'' \<notin> set subject)
      else rendered_body r = None \<and> title r = None)"
proof -
  obtain current where cur: "round_display (t_current_value breach) = Inr current"
    using round_display_Inr [OF assms(1)] by blast
  obtain cd sc where codes: "resolve_code_subcode notify breach = (cd, sc)" by fastforce
  obtain rows where rows: "build_rows breach (Some ms) lookup = Inr rows"
    using build_rows_Inr [OF assms] by blast
  obtain scalars where scal: "build_scalars breach eqp_info proc_name notify window affected timestamp cd sc
      (py_upper (t_category breach)) (grafana_link settings (t_eqp_id breach) proc_name) = Inr scalars"
    by (simp add: build_scalars_def cur)
  obtain body subject where out: "render_custom_body template scalars rows settings = (body, subject)" by fastforce
  show ?thesis
    using render_custom_body_bounds [OF out]
    by (simp add: build_alert_request_def Let_def codes cur rows scal out)
qed

text \<open>
  Building a request raises for no breach whose values have fewer than 28 digits. The request names
  the equipment, its process and the code pair the template was looked up with; it carries a
  rendered body and a subject exactly when the feature is on, the body within the byte cap and the
  subject free of the separator.
\<close>
theorem build_alert_request_shape:
  assumes "displayable (t_current_value breach)" "\<forall>m\<in>set ms. displayable (t_current_value m)"
  shows "\<exists>r. build_alert_request breach eqp_info proc_name settings notify window affected (Some ms) lookup
        timestamp template category_id headline = Inr r \<and>
     hostname r = t_eqp_id breach \<and> process r = proc_name \<and>
     (code r, subcode r) = resolve_code_subcode notify breach \<and>
     email_category r = category_id \<and> display_id r = headline \<and>
     (if rms_custom_body_enabled settings
      then (\<exists>body subject. rendered_body r = Some body \<and> title r = Some subject \<and>
             int (length body) \<le> max (rms_body_byte_cap settings) (int (length TRUNCATE_MARKER)) \<and>
             CHR '':'' \<notin> set subject)
      else rendered_body r = None \<and> title r = None)"
  by (rule build_request_ok [OF assms])

definition sample_breach :: ThresholdBreach where
  "sample_breach = \<lparr>t_eqp_id = ''E1'', t_proc = ''@system'', t_rule_id = ''cpu-high'', t_fact = ''cpu.max'',
     t_category = ''cpu'', t_op = OP_GE, t_current_value = Some (9535 / 100), t_threshold_value = Num 90,
     t_severity = CRITICAL\<rparr>"

definition sample_alert_settings :: AlertSettings where
  "sample_alert_settings = \<lparr>grafana_base_url = ''http://grafana:3000'', grafana_dashboard_uid = [],
     rms_custom_body_enabled = True, email_app_name = ''ARS'', rms_erb_row_limit = 50, rms_body_byte_cap = 256000\<rparr>"

definition sample_request :: EmailAlertRequest where
  "sample_request = \<lparr>hostname = ''E1'', ip = ''10.0.0.1'', app = ''ARS'', process = ''ETCH'', eqp_model = ''M1'',
     line = ''L1'', code = ''RESOURCE_MONITOR'', subcode = ''CPU_CRITICAL'', variables = [(''Severity'', ''CRITICAL'')],
     rendered_body = None, title = None, email_category = None, display_id = None\<rparr>"

lemma sample_displayable: "displayable (t_current_value sample_breach)"
  by code_simp

theorem build_alert_request_shape_witness:
  "\<exists>r. build_alert_request sample_breach [] ''ETCH'' sample_alert_settings sample_channel 5 None
      (Some [sample_breach]) [] None None None None = Inr r \<and> hostname r = ''E1''"
  using build_alert_request_shape [OF sample_displayable, of "[sample_breach]"] sample_displayable
  by (fastforce simp: sample_breach_def)

theorem round_display_nearest_witness:
  "\<exists>n. round_display (Some (9535 / 100)) = Inr (Some (of_int n / 10)) \<and> \<bar>of_int n / 10 - 9535 / 100 :: rat\<bar> \<le> 1 / 20 \<and>
     954 \<le> \<bar>n\<bar>"
proof -
  have "\<bar>9535 / 100 :: rat\<bar> < 10 ^ 26" by simp
  from round_display_nearest [OF this] obtain n where
    "round_display (Some (9535 / 100)) = Inr (Some (of_int n / 10))" "\<bar>of_int n / 10 - 9535 / 100 :: rat\<bar> \<le> 1 / 20"
    "\<forall>m. \<bar>of_int m / 10 - 9535 / 100 :: rat\<bar> = 1 / 20 \<longrightarrow> \<bar>m\<bar> \<le> \<bar>n\<bar>" by blast
  moreover from this(3) have "\<bar>954\<bar> \<le> \<bar>n\<bar>" by (rule allE [of _ 954]) simp
  ultimately show ?thesis by auto
qed

end
