(* ===== verification/Email_Client.thy ===== *)
theory Email_Client
  imports Alert_Builder
begin

text \<open>
  \<open>src/src/alert/email_client.py\<close>: the HTTP client of the mail server with its bounded list of lost
  mails. What the HTTP library does with a request is an argument, one outcome per class of
  exception the client distinguishes, as is the text \<open>str()\<close> gives for a decoded reply field.
\<close>

subsection \<open>State\<close>

datatype PostOutcome =
    PostTimeout string | PostConnectError string | PostStatusError nat string | PostInvalidJson string
  | PostOtherError string | PostReply json

datatype ClientError = HttpxError string | StartupHealthCheckFailed

record OutboxEntry =
  ob_ts :: real
  ob_reason :: string
  ob_detail :: string
  ob_payload :: "(string, json) dict"

record EmailAlertClient =
  http_client :: bool
  outbox :: "OutboxEntry list"

definition OUTBOX_MAXLEN :: nat where
  "OUTBOX_MAXLEN = 1000"

definition SUCCESS_RESULT :: string where
  "SUCCESS_RESULT = ''success''"

definition new_EmailAlertClient :: EmailAlertClient where
  "new_EmailAlertClient = \<lparr>http_client = False, outbox = []\<rparr>"

text \<open>\<open>deque(maxlen=n).append\<close>.\<close>

definition deque_append :: "nat \<Rightarrow> 'a list \<Rightarrow> 'a \<Rightarrow> 'a list" where
  "deque_append n xs x = drop (length xs + 1 - n) (xs @ [x])"

subsection \<open>Operations\<close>

definition health_check :: "bool \<Rightarrow> EmailAlertClient \<Rightarrow> bool" where
  "health_check head_answers c = (http_client c \<and> head_answers)"

definition email_connect :: "bool \<Rightarrow> bool \<Rightarrow> EmailAlertClient \<Rightarrow> (ClientError + unit) \<times> EmailAlertClient" where
  "email_connect debug_read_only head_answers c =
     (let c1 = c\<lparr>http_client := True\<rparr>
      in if debug_read_only then (Inr (), c1)
         else if \<not> health_check head_answers c1 then (Inl StartupHealthCheckFailed, c1)
         else (Inr (), c1))"

definition email_close :: "EmailAlertClient \<Rightarrow> EmailAlertClient" where
  "email_close c = c\<lparr>http_client := False\<rparr>"

definition record_outbox_failure ::
  "bool \<Rightarrow> real \<Rightarrow> EmailAlertRequest \<Rightarrow> string \<Rightarrow> string \<Rightarrow> EmailAlertClient \<Rightarrow> EmailAlertClient" where
  "record_outbox_failure debug_read_only now request reason detail c =
     (if debug_read_only then c
      else c\<lparr>outbox := deque_append OUTBOX_MAXLEN (outbox c)
               \<lparr>ob_ts = now, ob_reason = reason, ob_detail = take 500 detail, ob_payload = to_payload request\<rparr>\<rparr>)"

definition reply_field :: "json \<Rightarrow> string \<Rightarrow> json" where
  "reply_field data k = (case data of JObj kvs \<Rightarrow> dict_get kvs k (JStr []) | _ \<Rightarrow> JStr [])"

definition reply_success :: "json \<Rightarrow> bool" where
  "reply_success data = (case reply_field data ''result'' of JStr s \<Rightarrow> py_lower s = SUCCESS_RESULT | _ \<Rightarrow> False)"

definition send_alert ::
  "bool \<Rightarrow> (json \<Rightarrow> string) \<Rightarrow> ((string, json) dict \<Rightarrow> PostOutcome) \<Rightarrow> real \<Rightarrow> EmailAlertRequest \<Rightarrow> EmailAlertClient \<Rightarrow>
     (ClientError + bool) \<times> EmailAlertClient" where
  "send_alert debug_read_only show_json post now request c =
     (let failed = (\<lambda>reason detail. (Inr False, record_outbox_failure debug_read_only now request reason detail c))
      in if debug_read_only then (Inr True, c)
         else if \<not> http_client c then failed ''not_connected'' []
         else case post (to_payload request) of
                PostTimeout e \<Rightarrow> failed ''timeout'' e
              | PostConnectError e \<Rightarrow> failed ''connect_error'' e
              | PostStatusError status body \<Rightarrow>
                  failed ''http_error'' (''status='' @ str_of_nat status @ '' body='' @ take 200 body)
              | PostInvalidJson e \<Rightarrow> failed ''invalid_response'' e
              | PostOtherError e \<Rightarrow> (Inl (HttpxError e), c)
              | PostReply data \<Rightarrow>
                  if reply_success data then (Inr True, c)
                  else failed ''app_failure''
                    (''result='' @ show_json (reply_field data ''result'') @ '' message='' @
                     show_json (reply_field data ''message'')))"

definition get_outbox_snapshot :: "EmailAlertClient \<Rightarrow> OutboxEntry list" where
  "get_outbox_snapshot c = outbox c"

subsection \<open>A send and its trace\<close>

lemma deque_append_last: "deque_append n xs x = drop (length (xs @ [x]) - n) (xs @ [x])"
  by (simp add: deque_append_def)

lemma deque_append_drop:
  assumes "0 < n"
  shows "deque_append n (drop (length h - n) h) x = drop (length (h @ [x]) - n) (h @ [x])"
  using assms by (cases "length h \<le> n") (auto simp: deque_append_def Suc_diff_le)



subsection \<open>The outbox keeps the newest losses\<close>

text \<open>A history of sends: each with its time, its request and what the HTTP library did.\<close>

type_synonym send = "real \<times> EmailAlertRequest \<times> ((string, json) dict \<Rightarrow> PostOutcome)"

definition send_all :: "(json \<Rightarrow> string) \<Rightarrow> send list \<Rightarrow> EmailAlertClient \<Rightarrow> EmailAlertClient" where
  "send_all show_json sends c =
     foldl (\<lambda>c (now, request, post). snd (send_alert False show_json post now request c)) c sends"

text \<open>The abstract outbox: the record of every lost mail, unbounded.\<close>

definition loss_of :: "(json \<Rightarrow> string) \<Rightarrow> EmailAlertClient \<Rightarrow> send \<Rightarrow> OutboxEntry list" where
  "loss_of show_json c s =
     (case s of (now, request, post) \<Rightarrow>
        (case send_alert False show_json post now request (c\<lparr>outbox := []\<rparr>) of
           (_, c') \<Rightarrow> outbox c'))"

lemma send_alert_outbox:
  "http_client (snd (send_alert False show_json post now request c)) = http_client c"
  "outbox (snd (send_alert False show_json post now request c)) =
     foldl (deque_append OUTBOX_MAXLEN) (outbox c) (loss_of show_json c (now, request, post))"
  by (auto simp: send_alert_def loss_of_def Let_def record_outbox_failure_def deque_append_def OUTBOX_MAXLEN_def
      split: PostOutcome.splits)

lemma loss_of_cong: "http_client c = http_client c' \<Longrightarrow> loss_of show_json c s = loss_of show_json c' s"
  by (cases s) (auto simp: loss_of_def send_alert_def Let_def record_outbox_failure_def split: PostOutcome.splits)

lemma foldl_deque_append:
  "0 < n \<Longrightarrow> foldl (deque_append n) (drop (length h - n) h) xs = drop (length (h @ xs) - n) (h @ xs)"
proof (induction xs arbitrary: h)
  case (Cons x xs)
  from Cons.IH [of "h @ [x]"] Cons.prems show ?case by (simp add: deque_append_drop)
qed simp

text \<open>
  The outbox refines the unbounded list of losses: after any sequence of sends of a new, connected
  client it holds exactly the last thousand lost mails, oldest first.
\<close>
theorem outbox_keeps_newest:
  "outbox (send_all show_json sends (new_EmailAlertClient\<lparr>http_client := True\<rparr>)) =
     (let losses = concat (map (loss_of show_json (new_EmailAlertClient\<lparr>http_client := True\<rparr>)) sends)
      in drop (length losses - OUTBOX_MAXLEN) losses)"
proof -
  let ?c = "new_EmailAlertClient\<lparr>http_client := True\<rparr>"
  have "http_client (send_all show_json sends ?c) \<and>
      outbox (send_all show_json sends ?c) =
        (let losses = concat (map (loss_of show_json ?c) sends) in drop (length losses - OUTBOX_MAXLEN) losses)"
  proof (induction sends rule: rev_induct)
    case Nil
    then show ?case by (simp add: send_all_def new_EmailAlertClient_def)
  next
    case (snoc s sends)
    obtain now request post where s: "s = (now, request, post)" by (cases s)
    let ?d = "send_all show_json sends ?c"
    let ?h = "concat (map (loss_of show_json ?c) sends)"
    have step: "send_all show_json (sends @ [s]) ?c = snd (send_alert False show_json post now request ?d)"
      by (simp add: send_all_def s)
    have "loss_of show_json ?d s = loss_of show_json ?c s"
      using snoc by (intro loss_of_cong) simp
    then show ?case
      unfolding step send_alert_outbox using snoc foldl_deque_append [of OUTBOX_MAXLEN ?h "loss_of show_json ?c s"]
      by (simp add: s OUTBOX_MAXLEN_def Let_def)
  qed
  then show ?thesis by blast
qed

end
