(* ===== verification/Dispatch.thy ===== *)
theory Dispatch
  imports Email_Client Repository
begin

text \<open>
  \<open>AnalysisEngine._dispatch\<close> of \<open>src/src/analyzer/engine.py\<close>: fired breaches are grouped by their
  cooldown key, one mail is sent per group that is not cooling down, and a group whose mail was
  taken starts to cool down. The calls that leave the process are arguments, the record \<open>services\<close>
  over a world; what the dispatch does is also written to a log of events.
\<close>

subsection \<open>State and services\<close>

datatype EngineError =
    RepoFailure RepoError | EsFailure string | ParseFailure JsonError | EvalFailure EvalError
  | AlertFailure AlertError | RedisFailure RedisError | MailFailure ClientError | KeyFailure string

record Pending =
  pe_breach :: ThresholdBreach
  pe_notify_name :: string
  pe_channel :: NotifyChannel
  pe_window_minutes :: int

type_synonym template_doc = "(string, json) dict"

record 'w services =
  sv_cooling :: "CooldownKey list \<Rightarrow> 'w \<Rightarrow> EngineError + (CooldownKey, bool) dict"
  sv_find_template :: "string \<Rightarrow> string \<Rightarrow> string \<Rightarrow> string \<Rightarrow> string \<Rightarrow> EngineError + template_doc option"
  sv_send_alert :: "EmailAlertRequest \<Rightarrow> 'w \<Rightarrow> (EngineError + bool) \<times> 'w"
  sv_set_cooldown :: "CooldownKey \<Rightarrow> int \<Rightarrow> 'w \<Rightarrow> (EngineError + unit) \<times> 'w"

datatype AlertEvent =
    AlertSuppressed string string string
  | SendCalled CooldownKey EmailAlertRequest "EngineError + bool"
  | CooldownSet CooldownKey int
  | AlertSent string string

subsection \<open>Grouping\<close>

text \<open>\<open>d.setdefault(k, []).append(v)\<close>.\<close>

definition setdefault_append :: "('k, 'v list) dict \<Rightarrow> 'k \<Rightarrow> 'v \<Rightarrow> ('k, 'v list) dict" where
  "setdefault_append d k v = (if map_of d k = None then d @ [(k, [v])] else dict_append d k v)"

definition group_of :: "string \<Rightarrow> (string, eqp_doc) dict \<Rightarrow> Pending \<Rightarrow> (CooldownKey \<times> string) option" where
  "group_of proc_name eqp_lookup p =
     (case map_of eqp_lookup (t_eqp_id (pe_breach p)) of
        None \<Rightarrow> None
      | Some eqp_info \<Rightarrow>
          (let gv = resolve_group_value (n_group_by (pe_channel p)) (pe_breach p) eqp_info proc_name
           in Some (make_cooldown_key proc_name (pe_breach p) (pe_notify_name p) (Some gv), gv)))"

type_synonym grouping = "(CooldownKey, Pending list) dict \<times> (CooldownKey, string) dict"

definition add_to_group :: "string \<Rightarrow> (string, eqp_doc) dict \<Rightarrow> grouping \<Rightarrow> Pending \<Rightarrow> grouping" where
  "add_to_group proc_name eqp_lookup g p =
     (case group_of proc_name eqp_lookup p of
        None \<Rightarrow> g
      | Some (key, gv) \<Rightarrow> (setdefault_append (fst g) key p, AList.update key gv (snd g)))"

definition group_pending :: "string \<Rightarrow> (string, eqp_doc) dict \<Rightarrow> Pending list \<Rightarrow> grouping" where
  "group_pending proc_name eqp_lookup pending = foldl (add_to_group proc_name eqp_lookup) ([], []) pending"

subsection \<open>One mail per group\<close>

definition suppressed_events :: "string \<Rightarrow> Pending list \<Rightarrow> AlertEvent list" where
  "suppressed_events proc_name members =
     map (\<lambda>m. AlertSuppressed proc_name (t_fact (pe_breach m)) (severity_name (t_severity (pe_breach m)))) members"

definition breaching_eqps :: "Pending list \<Rightarrow> string list" where
  "breaching_eqps members = sort (remdups (map (\<lambda>m. t_eqp_id (pe_breach m)) members))"

definition group_template ::
  "'w services \<Rightarrow> AlertSettings \<Rightarrow> string \<Rightarrow> eqp_doc \<Rightarrow> NotifyChannel \<Rightarrow> ThresholdBreach \<Rightarrow>
     EngineError + template_doc option" where
  "group_template sv settings proc_name rep_info channel breach =
     (if rms_custom_body_enabled settings
      then (case resolve_code_subcode channel breach of (c, sc) \<Rightarrow>
              sv_find_template sv (email_app_name settings) proc_name (dict_get rep_info ''eqpModel'' []) c sc)
      else Inr None)"

definition group_request ::
  "'w services \<Rightarrow> AlertSettings \<Rightarrow> string \<Rightarrow> (string, eqp_doc) dict \<Rightarrow> datetime \<Rightarrow> string \<Rightarrow> Pending list \<Rightarrow>
     EngineError + EmailAlertRequest" where
  "group_request sv settings proc_name eqp_lookup now group_value members =
     (let channel = pe_channel (hd members);
          eqps = breaching_eqps members;
          rep_eqp = hd eqps;
          rep = (case find (\<lambda>m. t_eqp_id (pe_breach m) = rep_eqp) members of Some m \<Rightarrow> m | None \<Rightarrow> hd members);
          grouped = (n_group_by channel \<noteq> By_eqp)
      in case map_of eqp_lookup rep_eqp of
           None \<Rightarrow> Inl (KeyFailure rep_eqp)
         | Some rep_info \<Rightarrow>
             bind_res (group_template sv settings proc_name rep_info channel (pe_breach rep))
               (\<lambda>template.
                  case build_alert_request (pe_breach rep) rep_info proc_name settings channel (pe_window_minutes rep)
                         (if grouped then Some eqps else None) (Some (map pe_breach members)) eqp_lookup (Some now)
                         template
                         (build_email_category proc_name (n_group_by channel) (dict_get rep_info ''eqpModel'' [])
                            (n_email_group channel))
                         (if grouped then Some group_value else None) of
                    Inl e \<Rightarrow> Inl (AlertFailure e)
                  | Inr r \<Rightarrow> Inr r))"

definition dispatch_group ::
  "'w services \<Rightarrow> AlertSettings \<Rightarrow> string \<Rightarrow> (string, eqp_doc) dict \<Rightarrow> datetime \<Rightarrow> (CooldownKey, bool) dict \<Rightarrow>
     (CooldownKey, string) dict \<Rightarrow> CooldownKey \<times> Pending list \<Rightarrow> 'w \<Rightarrow> (EngineError + unit) \<times> 'w \<times> AlertEvent list" where
  "dispatch_group sv settings proc_name eqp_lookup now cooling group_values grp w =
     (case grp of (key, members) \<Rightarrow>
        if dict_get cooling key False then (Inr (), w, suppressed_events proc_name members)
        else
          (case group_request sv settings proc_name eqp_lookup now (dict_get group_values key []) members of
             Inl e \<Rightarrow> (Inl e, w, [])
           | Inr alert \<Rightarrow>
               (case sv_send_alert sv alert w of
                  (Inl e, w1) \<Rightarrow> (Inl e, w1, [SendCalled key alert (Inl e)])
                | (Inr False, w1) \<Rightarrow> (Inr (), w1, [SendCalled key alert (Inr False)])
                | (Inr True, w1) \<Rightarrow>
                    (let mins = n_cooldown_minutes (pe_channel (hd members))
                     in case sv_set_cooldown sv key mins w1 of
                          (Inl e, w2) \<Rightarrow> (Inl e, w2, [SendCalled key alert (Inr True), CooldownSet key mins])
                        | (Inr _, w2) \<Rightarrow>
                            (Inr (), w2, [SendCalled key alert (Inr True), CooldownSet key mins, AlertSent (code alert) (subcode alert)])))))"

fun dispatch_groups ::
  "(CooldownKey \<times> Pending list \<Rightarrow> 'w \<Rightarrow> (EngineError + unit) \<times> 'w \<times> AlertEvent list) \<Rightarrow>
     (CooldownKey \<times> Pending list) list \<Rightarrow> 'w \<Rightarrow> (EngineError + unit) \<times> 'w \<times> AlertEvent list" where
  "dispatch_groups one [] w = (Inr (), w, [])"
| "dispatch_groups one (g # gs) w =
     (case one g w of
        (Inl e, w1, evs) \<Rightarrow> (Inl e, w1, evs)
      | (Inr _, w1, evs) \<Rightarrow>
          (case dispatch_groups one gs w1 of (r, w2, evs') \<Rightarrow> (r, w2, evs @ evs')))"

definition dispatch ::
  "'w services \<Rightarrow> AlertSettings \<Rightarrow> string \<Rightarrow> Pending list \<Rightarrow> (string, eqp_doc) dict \<Rightarrow> datetime \<Rightarrow> 'w \<Rightarrow>
     (EngineError + unit) \<times> 'w \<times> AlertEvent list" where
  "dispatch sv settings proc_name pending eqp_lookup now w =
     (case group_pending proc_name eqp_lookup pending of (groups, group_values) \<Rightarrow>
        if groups = [] then (Inr (), w, [])
        else (case sv_cooling sv (map fst groups) w of
                Inl e \<Rightarrow> (Inl e, w, [])
              | Inr cooling \<Rightarrow>
                  dispatch_groups (dispatch_group sv settings proc_name eqp_lookup now cooling group_values) groups w))"

subsection \<open>Groups\<close>

declare split_paired_All [simp del] split_paired_Ex [simp del]

lemma map_of_setdefault_append:
  "map_of (setdefault_append d k v) k' =
     (if k' = k then Some ((case map_of d k of None \<Rightarrow> [] | Some vs \<Rightarrow> vs) @ [v]) else map_of d k')"
  by (auto simp: setdefault_append_def map_of_dict_append map_add_def split: option.splits)

lemma keys_setdefault_append:
  "map fst (setdefault_append d k v) = (if k \<in> set (map fst d) then map fst d else map fst d @ [k])"
  by (auto simp: setdefault_append_def keys_dict_append map_of_eq_None_iff)

definition key_of :: "string \<Rightarrow> (string, eqp_doc) dict \<Rightarrow> Pending \<Rightarrow> CooldownKey option" where
  "key_of proc_name eqp_lookup p = map_option fst (group_of proc_name eqp_lookup p)"

definition members_of :: "string \<Rightarrow> (string, eqp_doc) dict \<Rightarrow> Pending list \<Rightarrow> CooldownKey \<Rightarrow> Pending list" where
  "members_of proc_name eqp_lookup pending key = filter (\<lambda>p. key_of proc_name eqp_lookup p = Some key) pending"

lemma group_pending_snoc:
  "group_pending n l (ps @ [p]) = add_to_group n l (group_pending n l ps) p"
  by (simp add: group_pending_def)

lemma grouping_exact:
  "distinct (map fst (fst (group_pending n l ps))) \<and>
   (\<forall>key. map_of (fst (group_pending n l ps)) key =
      (if members_of n l ps key = [] then None else Some (members_of n l ps key)))"
proof (induction ps rule: rev_induct)
  case Nil
  then show ?case by (simp add: group_pending_def members_of_def)
next
  case (snoc p ps)
  show ?case
  proof (cases "group_of n l p")
    case None
    then have "members_of n l (ps @ [p]) key = members_of n l ps key" for key
      by (simp add: members_of_def key_of_def)
    with snoc None show ?thesis by (simp add: group_pending_snoc add_to_group_def)
  next
    case (Some kg)
    obtain k gv where kg: "kg = (k, gv)" by (cases kg)
    have "key_of n l p = Some k" using Some kg by (simp add: key_of_def)
    then have mem: "members_of n l (ps @ [p]) key = members_of n l ps key @ (if key = k then [p] else [])" for key
      by (simp add: members_of_def)
    have step: "fst (group_pending n l (ps @ [p])) = setdefault_append (fst (group_pending n l ps)) k p"
      using Some kg by (simp add: group_pending_snoc add_to_group_def)
    have look: "map_of (fst (group_pending n l ps)) key =
        (if members_of n l ps key = [] then None else Some (members_of n l ps key))" for key
      using snoc by blast
    show ?thesis
      unfolding step mem map_of_setdefault_append keys_setdefault_append look
      using conjunct1 [OF snoc] by (simp del: split_paired_All)
  qed
qed

lemmas grouping_distinct = grouping_exact [THEN conjunct1]
lemmas grouping_lookup = grouping_exact [THEN conjunct2, rule_format]

lemma group_members:
  assumes "(key, members) \<in> set (fst (group_pending n l ps))"
  shows "members = members_of n l ps key" "members \<noteq> []"
proof -
  have "map_of (fst (group_pending n l ps)) key = Some members"
    using assms grouping_distinct by (intro map_of_is_SomeI)
  then show "members = members_of n l ps key" "members \<noteq> []"
    unfolding grouping_lookup by (simp_all split: if_splits)
qed

lemma group_keys: "set (map fst (fst (group_pending n l ps))) = {key. members_of n l ps key \<noteq> []}"
proof (rule set_eqI)
  fix key
  show "key \<in> set (map fst (fst (group_pending n l ps))) \<longleftrightarrow> key \<in> {key. members_of n l ps key \<noteq> []}"
    using grouping_lookup [of n l ps key] map_of_eq_None_iff [of "fst (group_pending n l ps)" key]
    by (simp split: if_splits)
qed

subsection \<open>What one group does when every service answers\<close>

definition services_up :: "'w services \<Rightarrow> bool" where
  "services_up sv \<longleftrightarrow>
     (\<forall>a p m c sc. \<exists>t. sv_find_template sv a p m c sc = Inr t) \<and>
     (\<forall>r w. \<exists>b w'. sv_send_alert sv r w = (Inr b, w')) \<and>
     (\<forall>k m w. \<exists>w'. sv_set_cooldown sv k m w = (Inr (), w'))"

lemma services_upD:
  assumes "services_up sv"
  shows "\<exists>t. sv_find_template sv a p m c sc = Inr t" "\<exists>b w'. sv_send_alert sv r w = (Inr b, w')"
    "\<exists>w'. sv_set_cooldown sv k mins w = (Inr (), w')"
  using assms unfolding services_up_def by blast+

definition known :: "(string, eqp_doc) dict \<Rightarrow> Pending \<Rightarrow> bool" where
  "known eqp_lookup p \<longleftrightarrow> map_of eqp_lookup (t_eqp_id (pe_breach p)) \<noteq> None"

definition shown :: "Pending \<Rightarrow> bool" where
  "shown p \<longleftrightarrow> displayable (t_current_value (pe_breach p))"

text \<open>
  The log of one group: a suppression per member while it cools down; otherwise one mail naming
  the smallest breaching equipment and, exactly when the mail was taken, the start of the cooldown.
\<close>

definition group_log :: "string \<Rightarrow> (CooldownKey, bool) dict \<Rightarrow> CooldownKey \<times> Pending list \<Rightarrow> AlertEvent list \<Rightarrow> bool" where
  "group_log proc_name cooling grp evs \<longleftrightarrow>
     (case grp of (key, members) \<Rightarrow>
        if dict_get cooling key False then evs = suppressed_events proc_name members
        else (\<exists>r b. hostname r = Min ((\<lambda>m. t_eqp_id (pe_breach m)) ` set members) \<and>
               (display_id r \<noteq> None \<longleftrightarrow> n_group_by (pe_channel (hd members)) \<noteq> By_eqp) \<and>
               evs = SendCalled key r (Inr b) #
                 (if b then [CooldownSet key (n_cooldown_minutes (pe_channel (hd members))), AlertSent (code r) (subcode r)]
                  else [])))"

lemma hd_sort_Min:
  fixes xs :: "'a :: linorder list"
  assumes "xs \<noteq> []"
  shows "hd (sort xs) = Min (set xs)"
proof -
  obtain y ys where ys: "sort xs = y # ys" using assms by (cases "sort xs") (auto simp flip: set_empty)
  have "sorted (y # ys)" by (metis ys sorted_sort)
  moreover have "set xs = set (y # ys)" by (metis ys set_sort)
  ultimately show ?thesis by (auto simp: ys intro!: Min_eqI [symmetric])
qed

lemma hd_breaching_eqps:
  assumes "members \<noteq> []"
  shows "hd (breaching_eqps members) = Min ((\<lambda>m. t_eqp_id (pe_breach m)) ` set members)"
  using assms hd_sort_Min [of "remdups (map (\<lambda>m. t_eqp_id (pe_breach m)) members)"]
  by (simp add: breaching_eqps_def)

lemma group_template_up: "services_up sv \<Longrightarrow> \<exists>t. group_template sv settings n info channel b = Inr t"
  by (cases "resolve_code_subcode channel b"; cases "rms_custom_body_enabled settings")
    (simp_all add: group_template_def services_upD(1))

lemma group_request_up:
  assumes "services_up sv" "members \<noteq> []" "\<forall>m\<in>set members. known eqp_lookup m \<and> shown m"
  shows "\<exists>r. group_request sv settings proc_name eqp_lookup now gv members = Inr r \<and>
     hostname r = Min ((\<lambda>m. t_eqp_id (pe_breach m)) ` set members) \<and>
     (display_id r \<noteq> None \<longleftrightarrow> n_group_by (pe_channel (hd members)) \<noteq> By_eqp)"
proof -
  let ?eqp = "hd (breaching_eqps members)"
  have "?eqp \<in> (\<lambda>m. t_eqp_id (pe_breach m)) ` set members"
    using assms(2) by (simp add: hd_breaching_eqps)
  then obtain m0 where "m0 \<in> set members" "t_eqp_id (pe_breach m0) = ?eqp" by auto
  then obtain rep where rep: "find (\<lambda>m. t_eqp_id (pe_breach m) = ?eqp) members = Some rep"
    "rep \<in> set members" "t_eqp_id (pe_breach rep) = ?eqp"
    using find_Some_ex [of members "\<lambda>m. t_eqp_id (pe_breach m) = ?eqp"] by blast
  obtain info where info: "map_of eqp_lookup ?eqp = Some info"
    using assms(3) rep by (auto simp: known_def)
  obtain template where "group_template sv settings proc_name info (pe_channel (hd members)) (pe_breach rep) = Inr template"
    using group_template_up [OF assms(1)] by blast
  moreover have "\<forall>b\<in>set (map pe_breach members). displayable (t_current_value b)"
    "displayable (t_current_value (pe_breach rep))"
    using assms(3) rep(2) by (auto simp: shown_def)
  ultimately show ?thesis
    using build_request_ok [of "pe_breach rep" "map pe_breach members" info proc_name settings "pe_channel (hd members)"
        "pe_window_minutes rep"
        "if n_group_by (pe_channel (hd members)) \<noteq> By_eqp then Some (breaching_eqps members) else None" eqp_lookup
        "Some now" template
        "build_email_category proc_name (n_group_by (pe_channel (hd members))) (dict_get info ''eqpModel'' [])
           (n_email_group (pe_channel (hd members)))"
        "if n_group_by (pe_channel (hd members)) \<noteq> By_eqp then Some gv else None"]
      rep info hd_breaching_eqps [OF assms(2)]
    by (fastforce simp: group_request_def Let_def)
qed

lemma dispatch_group_up:
  assumes "services_up sv" "members \<noteq> []" "\<forall>m\<in>set members. known eqp_lookup m \<and> shown m"
  shows "\<exists>w' evs. dispatch_group sv settings proc_name eqp_lookup now cooling gvs (key, members) w = (Inr (), w', evs) \<and>
     group_log proc_name cooling (key, members) evs"
proof (cases "dict_get cooling key False")
  case True
  then show ?thesis by (simp add: dispatch_group_def group_log_def)
next
  case False
  obtain r where r: "group_request sv settings proc_name eqp_lookup now (dict_get gvs key []) members = Inr r"
    "hostname r = Min ((\<lambda>m. t_eqp_id (pe_breach m)) ` set members)"
    "display_id r \<noteq> None \<longleftrightarrow> n_group_by (pe_channel (hd members)) \<noteq> By_eqp"
    using group_request_up [OF assms] by blast
  obtain b w1 where send: "sv_send_alert sv r w = (Inr b, w1)" using services_upD(2) [OF assms(1)] by blast
  obtain w2 where cd: "sv_set_cooldown sv key (n_cooldown_minutes (pe_channel (hd members))) w1 = (Inr (), w2)"
    using services_upD(3) [OF assms(1)] by blast
  show ?thesis
    using False r by (cases b) (auto simp: dispatch_group_def group_log_def send cd Let_def)
qed

lemma dispatch_groups_up:
  assumes "\<And>g w. g \<in> set gs \<Longrightarrow> \<exists>w' evs. one g w = (Inr (), w', evs) \<and> P g evs"
  shows "\<exists>w' logs. dispatch_groups one gs w = (Inr (), w', concat logs) \<and> list_all2 P gs logs"
  using assms
proof (induction gs arbitrary: w)
  case (Cons g gs)
  obtain w1 evs where g: "one g w = (Inr (), w1, evs)" "P g evs" using Cons.prems by (meson list.set_intros(1))
  obtain w2 logs where "dispatch_groups one gs w1 = (Inr (), w2, concat logs)" "list_all2 P gs logs"
    using Cons.IH [of w1] Cons.prems by (meson list.set_intros(2))
  with g show ?case by (intro exI [of _ w2] exI [of _ "evs # logs"]) simp
qed simp

lemma members_known:
  "m \<in> set (members_of n l ps key) \<Longrightarrow> known l m \<and> m \<in> set ps"
  by (auto simp: members_of_def key_of_def group_of_def known_def split: option.splits)

lemma dispatch_logs:
  assumes "services_up sv" "\<forall>p\<in>set pending. shown p"
    and "sv_cooling sv (map fst (fst (group_pending n l pending))) w = Inr cooling"
  shows "\<exists>w' logs. dispatch sv settings n pending l now w = (Inr (), w', concat logs) \<and>
     list_all2 (group_log n cooling) (fst (group_pending n l pending)) logs"
proof -
  let ?groups = "fst (group_pending n l pending)"
  let ?one = "dispatch_group sv settings n l now cooling (snd (group_pending n l pending))"
  have "\<exists>w' evs. ?one g w = (Inr (), w', evs) \<and> group_log n cooling g evs" if g: "g \<in> set ?groups" for g w
  proof -
    obtain key members where km: "g = (key, members)" by (cases g)
    note members = group_members [OF g [unfolded km]]
    have "\<forall>m\<in>set members. known l m \<and> shown m"
      using members(1) members_known assms(2) by blast
    from dispatch_group_up [OF assms(1) members(2) this] show ?thesis unfolding km .
  qed
  from dispatch_groups_up [of ?groups ?one "group_log n cooling", OF this]
  have "\<exists>w' logs. dispatch_groups ?one ?groups w = (Inr (), w', concat logs) \<and> list_all2 (group_log n cooling) ?groups logs"
    by blast
  then show ?thesis
    using assms(3) by (cases "?groups = []") (auto simp: dispatch_def split_def)
qed

subsection \<open>One mail per incident\<close>

definition mail_keys :: "AlertEvent list \<Rightarrow> CooldownKey list" where
  "mail_keys evs = concat (map (\<lambda>e. case e of SendCalled k _ _ \<Rightarrow> [k] | _ \<Rightarrow> []) evs)"

lemma mail_keys_append [simp]: "mail_keys (xs @ ys) = mail_keys xs @ mail_keys ys"
  by (simp add: mail_keys_def)

lemma mail_keys_suppressed [simp]: "mail_keys (suppressed_events n ms) = []"
  by (induction ms) (simp_all add: mail_keys_def suppressed_events_def)

lemma mail_keys_log:
  "group_log n cooling (key, members) evs \<Longrightarrow> mail_keys evs = (if dict_get cooling key False then [] else [key])"
  by (auto simp: group_log_def split: if_splits) (simp_all add: mail_keys_def)

lemma mail_keys_logs:
  "list_all2 (group_log n cooling) gs logs \<Longrightarrow>
     mail_keys (concat logs) = filter (\<lambda>k. \<not> dict_get cooling k False) (map fst gs)"
proof (induction rule: list_all2_induct)
  case (Cons g gs evs logs)
  then show ?case by (cases g) (simp add: mail_keys_log)
qed (simp add: mail_keys_def)

lemma log_of_group:
  assumes "list_all2 P gs logs" "g \<in> set gs"
  obtains evs where "evs \<in> set logs" "P g evs"
  using assms by (metis list_all2_conv_all_nth in_set_conv_nth)

lemma group_of_log:
  assumes "list_all2 P gs logs" "evs \<in> set logs"
  obtains g where "g \<in> set gs" "P g evs"
  using assms by (metis list_all2_conv_all_nth in_set_conv_nth)

lemma log_cooldown:
  assumes "group_log n cooling (key, members) evs"
  shows "CooldownSet k m \<in> set evs \<longleftrightarrow>
     k = key \<and> m = n_cooldown_minutes (pe_channel (hd members)) \<and> (\<exists>r. SendCalled key r (Inr True) \<in> set evs)"
    "SendCalled k r b \<in> set evs \<Longrightarrow> k = key"
  using assms by (auto simp: group_log_def suppressed_events_def split: if_splits)

lemma log_covers:
  assumes "group_log n cooling (key, members) evs" "p \<in> set members"
  shows "if dict_get cooling key False
     then AlertSuppressed n (t_fact (pe_breach p)) (severity_name (t_severity (pe_breach p))) \<in> set evs
     else \<exists>r b. SendCalled key r (Inr b) \<in> set evs \<and> hostname r \<le> t_eqp_id (pe_breach p)"
proof (cases "dict_get cooling key False")
  case True
  with assms show ?thesis by (auto simp: group_log_def suppressed_events_def)
next
  case False
  with assms(1) obtain r b where r: "SendCalled key r (Inr b) \<in> set evs"
    "hostname r = Min ((\<lambda>m. t_eqp_id (pe_breach m)) ` set members)"
    by (auto simp: group_log_def split: if_splits)
  moreover have "Min ((\<lambda>m. t_eqp_id (pe_breach m)) ` set members) \<le> t_eqp_id (pe_breach p)"
    using assms(2) by (intro Min_le) auto
  ultimately show ?thesis using False by (metis)
qed

lemma key_of_known: "known l p \<Longrightarrow> \<exists>key. key_of n l p = Some key"
  by (auto simp: known_def key_of_def group_of_def Let_def split: option.splits)

text \<open>
  C2. One mail per incident, and no breach is lost. When the services answer, the dispatch ends
  normally; it calls the mail server exactly once for every cooldown key that has a breach of known
  equipment and is not cooling down; every such breach is covered by the mail of its key, whose
  representative is the smallest breaching equipment, or is counted as suppressed; and a cooldown
  starts for exactly the keys whose mail was taken.
\<close>
theorem dispatch_one_mail_per_key:
  assumes "services_up sv" "\<forall>p\<in>set pending. shown p"
    and "sv_cooling sv (map fst (fst (group_pending n l pending))) w = Inr cooling"
  shows "\<exists>w' evs. dispatch sv settings n pending l now w = (Inr (), w', evs) \<and>
     distinct (mail_keys evs) \<and>
     set (mail_keys evs) = {key. members_of n l pending key \<noteq> [] \<and> \<not> dict_get cooling key False} \<and>
     (\<forall>p\<in>set pending. known l p \<longrightarrow>
        (\<exists>key. key_of n l p = Some key \<and>
           (if dict_get cooling key False
            then AlertSuppressed n (t_fact (pe_breach p)) (severity_name (t_severity (pe_breach p))) \<in> set evs
            else \<exists>r b. SendCalled key r (Inr b) \<in> set evs \<and> hostname r \<le> t_eqp_id (pe_breach p)))) \<and>
     (\<forall>key. (\<exists>m. CooldownSet key m \<in> set evs) \<longleftrightarrow> (\<exists>r. SendCalled key r (Inr True) \<in> set evs))"
proof -
  let ?groups = "fst (group_pending n l pending)"
  obtain w' logs where d: "dispatch sv settings n pending l now w = (Inr (), w', concat logs)"
    and logs: "list_all2 (group_log n cooling) ?groups logs"
    using dispatch_logs [OF assms] by blast
  note keys = mail_keys_logs [OF logs]
  have dist: "distinct (mail_keys (concat logs))" unfolding keys using grouping_distinct by (rule distinct_filter)
  have mails: "set (mail_keys (concat logs)) = {key. members_of n l pending key \<noteq> [] \<and> \<not> dict_get cooling key False}"
    unfolding keys set_filter group_keys by blast
  have covered: "\<exists>key. key_of n l p = Some key \<and>
      (if dict_get cooling key False
       then AlertSuppressed n (t_fact (pe_breach p)) (severity_name (t_severity (pe_breach p))) \<in> set (concat logs)
       else \<exists>r b. SendCalled key r (Inr b) \<in> set (concat logs) \<and> hostname r \<le> t_eqp_id (pe_breach p))"
    if p: "p \<in> set pending" "known l p" for p
  proof -
    obtain key where key: "key_of n l p = Some key" using key_of_known [OF p(2)] by blast
    then have mem: "p \<in> set (members_of n l pending key)" using p(1) by (simp add: members_of_def)
    then have "map_of ?groups key = Some (members_of n l pending key)" unfolding grouping_lookup by auto
    then have "(key, members_of n l pending key) \<in> set ?groups" by (rule map_of_SomeD)
    then obtain evs where evs: "evs \<in> set logs" "group_log n cooling (key, members_of n l pending key) evs"
      using log_of_group [OF logs] by blast
    have "set evs \<subseteq> set (concat logs)" using evs(1) by auto
    with log_covers [OF evs(2) mem] key show ?thesis by (fastforce split: if_splits)
  qed
  have cd: "(\<exists>m. CooldownSet key m \<in> set (concat logs)) \<longleftrightarrow> (\<exists>r. SendCalled key r (Inr True) \<in> set (concat logs))" for key
  proof
    assume "\<exists>m. CooldownSet key m \<in> set (concat logs)"
    then obtain m evs where evs: "evs \<in> set logs" "CooldownSet key m \<in> set evs" by auto
    from group_of_log [OF logs evs(1)] obtain k ms where "group_log n cooling (k, ms) evs" by (metis surj_pair)
    with evs log_cooldown(1) show "\<exists>r. SendCalled key r (Inr True) \<in> set (concat logs)" by fastforce
  next
    assume "\<exists>r. SendCalled key r (Inr True) \<in> set (concat logs)"
    then obtain r evs where evs: "evs \<in> set logs" "SendCalled key r (Inr True) \<in> set evs" by auto
    from group_of_log [OF logs evs(1)] obtain k ms where g: "group_log n cooling (k, ms) evs" by (metis surj_pair)
    from log_cooldown(2) [OF g evs(2)] evs
    have "CooldownSet key (n_cooldown_minutes (pe_channel (hd ms))) \<in> set evs"
      unfolding log_cooldown(1) [OF g] by blast
    with evs(1) show "\<exists>m. CooldownSet key m \<in> set (concat logs)" by auto
  qed
  show ?thesis using d dist mails covered cd by blast
qed

subsection \<open>An incident that was mailed is not mailed again\<close>

text \<open>
  The contract between the dispatch and the services: what was set to cool down is remembered,
  whatever is sent or set afterwards, and a remembered key is reported as cooling down.
\<close>

locale incident_memory =
  fixes sv :: "'w services"
    and remembers :: "'w \<Rightarrow> CooldownKey \<Rightarrow> bool"
  assumes set_remembers: "sv_set_cooldown sv k m w = (Inr (), w') \<Longrightarrow> remembers w' k"
    and set_keeps: "sv_set_cooldown sv k m w = (r, w') \<Longrightarrow> remembers w k' \<Longrightarrow> remembers w' k'"
    and send_keeps: "sv_send_alert sv a w = (r', w') \<Longrightarrow> remembers w k' \<Longrightarrow> remembers w' k'"
    and cooling_reports: "sv_cooling sv ks w = Inr d \<Longrightarrow> k \<in> set ks \<Longrightarrow> remembers w k \<Longrightarrow> map_of d k = Some True"
begin

lemma group_remembers:
  assumes "dispatch_group sv settings n l now cooling gvs g w = (Inr u, w', evs)"
    and "remembers w k \<or> CooldownSet k m \<in> set evs"
  shows "remembers w' k"
  using assms
  by (auto simp: dispatch_group_def suppressed_events_def Let_def split: prod.splits if_splits sum.splits bool.splits
      intro: set_remembers set_keeps send_keeps)

lemma groups_remember:
  assumes "dispatch_groups (dispatch_group sv settings n l now cooling gvs) gs w = (Inr u, w', evs)"
    and "remembers w k \<or> CooldownSet k m \<in> set evs"
  shows "remembers w' k"
  using assms
proof (induction gs arbitrary: w evs)
  case (Cons g gs)
  obtain u1 w1 evs1 evs2 where g: "dispatch_group sv settings n l now cooling gvs g w = (Inr u1, w1, evs1)"
    "dispatch_groups (dispatch_group sv settings n l now cooling gvs) gs w1 = (Inr u, w', evs2)" "evs = evs1 @ evs2"
    using Cons.prems(1) by (auto split: prod.splits sum.splits)
  with group_remembers [OF g(1), of k m] Cons.prems(2) Cons.IH [OF g(2)] show ?case by auto
qed simp

lemma dispatch_remembers:
  assumes "dispatch sv settings n pending l now w = (Inr (), w', evs)" "CooldownSet k m \<in> set evs"
  shows "remembers w' k"
  using assms groups_remember by (fastforce simp: dispatch_def split: prod.splits if_splits sum.splits)

lemma group_mails_own_key:
  "dispatch_group sv settings n l now cooling gvs (key, ms) w = (r, w', evs) \<Longrightarrow> SendCalled k a b \<in> set evs \<Longrightarrow>
     k = key \<and> \<not> dict_get cooling key False"
  by (auto simp: dispatch_group_def suppressed_events_def Let_def split: prod.splits if_splits sum.splits bool.splits)

lemma groups_mail_own_keys:
  assumes "dispatch_groups (dispatch_group sv settings n l now cooling gvs) gs w = (r, w', evs)" "SendCalled k a b \<in> set evs"
  shows "k \<in> set (map fst gs) \<and> \<not> dict_get cooling k False"
  using assms
proof (induction gs arbitrary: w w' r evs)
  case (Cons g gs)
  obtain r1 w1 evs1 where g: "dispatch_group sv settings n l now cooling gvs g w = (r1, w1, evs1)"
    by (metis surj_pair)
  obtain r2 w2 evs2 where gs: "dispatch_groups (dispatch_group sv settings n l now cooling gvs) gs w1 = (r2, w2, evs2)"
    by (metis surj_pair)
  have "set evs \<subseteq> set evs1 \<union> set evs2"
    using Cons.prems(1) g gs by (auto split: sum.splits)
  then consider "SendCalled k a b \<in> set evs1" | "SendCalled k a b \<in> set evs2"
    using Cons.prems(2) by blast
  then show ?case
  proof cases
    case 1
    with group_mails_own_key [of settings n l now cooling gvs "fst g" "snd g" w r1 w1 evs1 k] g show ?thesis by auto
  next
    case 2
    with Cons.IH [OF gs] show ?thesis by auto
  qed
qed simp

lemma remembered_not_mailed:
  assumes "remembers w k" "dispatch sv settings n pending l now w = (r, w', evs)"
  shows "SendCalled k a b \<notin> set evs"
proof
  assume mailed: "SendCalled k a b \<in> set evs"
  let ?groups = "fst (group_pending n l pending)"
  obtain cooling where c: "sv_cooling sv (map fst ?groups) w = Inr cooling"
    "dispatch_groups (dispatch_group sv settings n l now cooling (snd (group_pending n l pending))) ?groups w = (r, w', evs)"
    using assms(2) mailed by (auto simp: dispatch_def split_def split: if_splits sum.splits)
  from groups_mail_own_keys [OF c(2) mailed] have "k \<in> set (map fst ?groups)" "\<not> dict_get cooling k False" by auto
  with cooling_reports [OF c(1) _ assms(1)] show False by (simp add: dict_get_def)
qed

end

end
