(* ===== verification/Es_Parser.thy ===== *)
theory Es_Parser
  imports Es_Queries
begin

text \<open>
  \<open>src/src/analyzer/metric_resolver.py\<close> and \<open>src/src/analyzer/es_parser.py\<close>: the wildcard match of metric names and the
  reading of an aggregation response into fact values per (equipment, process) target.
\<close>

subsection \<open>Wildcards\<close>

text \<open>The members of a bracket expression, as ranges of characters.\<close>

fun class_ranges :: "string \<Rightarrow> (char \<times> char) list" where
  "class_ranges [] = []"
| "class_ranges [a] = [(a, a)]"
| "class_ranges [a, b] = [(a, a), (b, b)]"
| "class_ranges (a # b # c # cs) =
     (if b = CHR ''-'' then (a, c) # class_ranges cs else (a, a) # class_ranges (b # c # cs))"

text \<open>
  After an opening bracket: negation, members and the rest of the pattern, when a closing bracket
  follows (not counting one that stands first).
\<close>

definition parse_class :: "string \<Rightarrow> (bool \<times> string \<times> string) option" where
  "parse_class p =
     (let neg = (p \<noteq> [] \<and> hd p = CHR ''!'');
          q = (if neg then tl p else p);
          first = take 1 q;
          more = drop 1 q;
          body = takeWhile (\<lambda>c. c \<noteq> CHR '']'') more;
          rest = dropWhile (\<lambda>c. c \<noteq> CHR '']'') more
      in if q = [] \<or> rest = [] then None else Some (neg, first @ body, tl rest))"

lemma parse_class_shorter: "parse_class p = Some (neg, cls, rest) \<Longrightarrow> length rest < length p"
proof -
  assume "parse_class p = Some (neg, cls, rest)"
  moreover define q where "q = (if p \<noteq> [] \<and> hd p = CHR ''!'' then tl p else p)"
  ultimately have q: "length q \<le> length p" "q \<noteq> []"
    "rest = tl (dropWhile (\<lambda>c. c \<noteq> CHR '']'') (drop 1 q))"
    by (auto simp: parse_class_def Let_def split: if_splits)
  have "length rest \<le> length (drop 1 q)"
    using q(3) length_dropWhile_le [of "\<lambda>c. c \<noteq> CHR '']''" "drop 1 q"] by simp
  also have "\<dots> < length p" using q(1,2) by (cases q) auto
  finally show ?thesis .
qed

definition in_class :: "bool \<Rightarrow> string \<Rightarrow> char \<Rightarrow> bool" where
  "in_class neg cls c = (neg \<noteq> list_ex (\<lambda>(a, b). char_code a \<le> char_code c \<and> char_code c \<le> char_code b) (class_ranges cls))"

text \<open>\<open>fnmatch.fnmatch(name, pattern)\<close>, pattern first.\<close>

function fn_match :: "string \<Rightarrow> string \<Rightarrow> bool" where
  "fn_match [] s = (s = [])"
| "fn_match (c # p) s =
     (if c = CHR ''*'' then fn_match p s \<or> (if s = [] then False else fn_match (c # p) (tl s))
      else if s = [] then False
      else if c = CHR ''?'' then fn_match p (tl s)
      else if c = CHR ''['' then
        (case parse_class p of
           None \<Rightarrow> hd s = c \<and> fn_match p (tl s)
         | Some (neg, cls, rest) \<Rightarrow> in_class neg cls (hd s) \<and> fn_match rest (tl s))
      else hd s = c \<and> fn_match p (tl s))"
  by pat_completeness auto
termination
  by (relation "measure (\<lambda>(p, s). length p + length s)") (auto dest: parse_class_shorter)

definition resolve_metric_patterns ::
  "string list \<Rightarrow> string list \<Rightarrow> (string, string list) dict" where
  "resolve_metric_patterns patterns available =
     dict_of (\<lambda>p. p) (\<lambda>p. filter (fn_match p) available) [] patterns"

lemma fn_match_literal: "\<not> has_wildcard p \<Longrightarrow> fn_match p s \<longleftrightarrow> s = p"
proof (induction p arbitrary: s)
  case (Cons c p)
  then have "c \<noteq> CHR ''*''" "c \<noteq> CHR ''?''" "c \<noteq> CHR ''[''" "\<not> has_wildcard p"
    by (auto simp: has_wildcard_def WILDCARD_CHARS_def)
  with Cons.IH show ?case by (cases s) auto
qed simp

lemma fn_match_star: "fn_match (CHR ''*'' # p) s \<longleftrightarrow> (\<exists>a b. s = a @ b \<and> fn_match p b)"
proof (induction s)
  case (Cons x s)
  show ?case
  proof
    assume "fn_match (CHR ''*'' # p) (x # s)"
    then have "fn_match p (x # s) \<or> fn_match (CHR ''*'' # p) s" by simp
    then show "\<exists>a b. x # s = a @ b \<and> fn_match p b"
      using Cons.IH by (metis append_Cons append_Nil)
  next
    assume "\<exists>a b. x # s = a @ b \<and> fn_match p b"
    then obtain a b where "x # s = a @ b" "fn_match p b" by blast
    then show "fn_match (CHR ''*'' # p) (x # s)"
      using Cons.IH by (cases a) auto
  qed
qed simp

text \<open>
  A pattern without wildcards selects exactly the metric of that name, and a pattern that is a
  star before a wildcard-free ending selects exactly the metrics with that ending.
\<close>
theorem resolve_metric_patterns_meaning:
  assumes "\<not> has_wildcard lit"
  shows "map_of (resolve_metric_patterns [lit] names) lit = Some (filter (\<lambda>n. n = lit) names) \<and>
     map_of (resolve_metric_patterns [CHR ''*'' # lit] names) (CHR ''*'' # lit) =
       Some (filter (\<lambda>n. \<exists>a. n = a @ lit) names)"
proof -
  have "fn_match lit = (\<lambda>n. n = lit)" by (intro ext fn_match_literal assms)
  moreover have "fn_match (CHR ''*'' # lit) = (\<lambda>n. \<exists>a. n = a @ lit)"
    by (intro ext) (simp add: fn_match_star fn_match_literal [OF assms] del: fn_match.simps)
  ultimately show ?thesis by (simp add: resolve_metric_patterns_def dict_of_def del: fn_match.simps)
qed

theorem resolve_metric_patterns_meaning_witness:
  "map_of (resolve_metric_patterns [''*_core_load''] [''gpu0_core_load'', ''gpu0_temp'']) ''*_core_load'' =
     Some (filter (\<lambda>n. \<exists>a. n = a @ ''_core_load'') [''gpu0_core_load'', ''gpu0_temp''])"
proof -
  have "\<not> has_wildcard ''_core_load''" by (simp add: has_wildcard_def WILDCARD_CHARS_def)
  from resolve_metric_patterns_meaning [OF this] show ?thesis by blast
qed

subsection \<open>Reading a fact\<close>

definition jvalue :: "json \<Rightarrow> JsonError + rat option" where
  "jvalue v = (case v of JNull \<Rightarrow> Inr None | JNum q \<Rightarrow> Inr (Some q) | _ \<Rightarrow> Inl TypeError)"

text \<open>The three spellings of a percentile key, the first present one winning.\<close>

definition percentile_keys :: "nat \<Rightarrow> string list" where
  "percentile_keys pct = [str_of_nat pct @ ''.0'', str_of_nat pct @ ''.0'', str_of_nat pct]"

definition read_fact :: "json \<Rightarrow> Fact \<Rightarrow> JsonError + rat option" where
  "read_fact bucket f =
     bind_res (jget bucket (fact_name (f_type f)) JNull)
       (\<lambda>sub. if sub = JNull then Inr None
              else case agg_strategy (f_type f) of
                     STAT \<Rightarrow> bind_res (jget sub ''value'' JNull) jvalue
                   | FILTER_RANGE \<Rightarrow> bind_res (jget sub ''doc_count'' JNull) jvalue
                   | PERCENTILES \<Rightarrow>
                       bind_res (jget sub ''values'' (JObj []))
                         (\<lambda>vals. case PERCENTILE_OF_FACT (f_type f) of
                            None \<Rightarrow> Inl (KeyError (fact_name (f_type f)))
                          | Some pct \<Rightarrow>
                              (case find (\<lambda>k. jhas vals k) (percentile_keys pct) of
                                 None \<Rightarrow> Inr None
                               | Some k \<Rightarrow> bind_res (jindex vals k) jvalue))
                   | TOP_HITS \<Rightarrow>
                       bind_res (jget sub ''hits'' (JObj []))
                         (\<lambda>h. bind_res (jget h ''hits'' (JArr []))
                           (\<lambda>hs. bind_res (jlist hs)
                             (\<lambda>hits. case hits of
                                [] \<Rightarrow> Inr None
                              | hit # _ \<Rightarrow> bind_res (jget hit ''_source'' (JObj []))
                                  (\<lambda>src. bind_res (jget src VALUE_FIELD JNull) jvalue))))
                   | _ \<Rightarrow> Inr None)"

subsection \<open>Walking the buckets\<close>

type_synonym fact_table = "(string, rat option list) dict"

definition bucket_list :: "json \<Rightarrow> JsonError + json list" where
  "bucket_list agg = bind_res (jget agg ''buckets'' (JArr [])) jlist"

definition with_key :: "string \<Rightarrow> json \<Rightarrow> json" where
  "with_key k b = (case b of JObj kvs \<Rightarrow> JObj (AList.update ''key'' (JStr k) kvs) | _ \<Rightarrow> b)"

definition bucket_key :: "json \<Rightarrow> JsonError + string" where
  "bucket_key b = bind_res (jindex b ''key'') jstring"

definition read_instances :: "Fact list \<Rightarrow> json list \<Rightarrow> JsonError + fact_table" where
  "read_instances facts insts =
     bind_res
       (map_res (\<lambda>i. map_res (\<lambda>f. bind_res (read_fact i f) (\<lambda>v. Inr (fact_name (f_type f), v))) facts) insts)
       (\<lambda>reads. Inr (foldl (\<lambda>d (name, v). dict_append d name v)
                        (dict_of (\<lambda>f. fact_name (f_type f)) (\<lambda>_. []) [] facts) (concat reads)))"

definition parse_proc_bucket ::
  "Fact list \<Rightarrow> bool \<Rightarrow> string \<Rightarrow> json \<Rightarrow> JsonError + (string \<times> string) \<times> fact_table" where
  "parse_proc_bucket facts expand_instance eqp pb =
     bind_res (bucket_key pb)
       (\<lambda>pkey. bind_res
          (if expand_instance \<and> jhas pb ''by_metric''
           then bind_res (jindex pb ''by_metric'') bucket_list else Inr [pb])
          (\<lambda>insts. bind_res (read_instances facts insts) (\<lambda>t. Inr ((eqp, pkey), t))))"

definition parse_eqp_bucket ::
  "Fact list \<Rightarrow> string \<Rightarrow> bool \<Rightarrow> json \<Rightarrow> JsonError + ((string \<times> string) \<times> fact_table) list" where
  "parse_eqp_bucket facts proc expand_instance eb =
     bind_res (bucket_key eb)
       (\<lambda>eqp. bind_res
          (if jhas eb ''by_proc'' then bind_res (jindex eb ''by_proc'') bucket_list
           else Inr [with_key proc eb])
          (\<lambda>pbs. map_res (parse_proc_bucket facts expand_instance eqp) pbs))"

definition parse_metric_aggregation ::
  "json \<Rightarrow> Fact list \<Rightarrow> string \<Rightarrow> bool \<Rightarrow> JsonError + (string \<times> string, fact_table) dict" where
  "parse_metric_aggregation response facts proc expand_instance =
     bind_res (jget response ''aggregations'' (JObj []))
       (\<lambda>aggs. bind_res (jget aggs ''by_eqp'' (JObj []))
         (\<lambda>by_eqp. bind_res (bucket_list by_eqp)
           (\<lambda>ebs. bind_res (map_res (parse_eqp_bucket facts proc expand_instance) ebs)
             (\<lambda>targets. Inr (dict_of fst snd [] (concat targets))))))"

subsection \<open>Responses that answer the query\<close>

text \<open>
  The documented form of an answer to the query of \<open>Es_Queries\<close>: buckets nested as the query nests
  its aggregations, and in each innermost bucket one sub-aggregation per fact. \<open>sub_agg_json\<close> is
  the form in which each strategy reports a value.
\<close>

definition number_json :: "rat option \<Rightarrow> json" where
  "number_json v = (case v of None \<Rightarrow> JNull | Some q \<Rightarrow> JNum q)"

definition sub_agg_json :: "Fact \<Rightarrow> rat option \<Rightarrow> json" where
  "sub_agg_json f v =
     (case agg_strategy (f_type f) of
        STAT \<Rightarrow> JObj [(''value'', number_json v)]
      | FILTER_RANGE \<Rightarrow> JObj [(''doc_count'', number_json v)]
      | PERCENTILES \<Rightarrow>
          JObj [(''values'', JObj [(str_of_nat (the (PERCENTILE_OF_FACT (f_type f))) @ ''.0'', number_json v)])]
      | TOP_HITS \<Rightarrow>
          JObj [(''hits'', JObj [(''hits'', JArr (case v of
             None \<Rightarrow> [] | Some q \<Rightarrow> [JObj [(''_source'', JObj [(VALUE_FIELD, JNum q)])]]))])]
      | _ \<Rightarrow> JNull)"

type_synonym fact_values = "FactType \<Rightarrow> rat option"

definition instance_conforms :: "Fact list \<Rightarrow> json \<Rightarrow> fact_values \<Rightarrow> bool" where
  "instance_conforms facts b vals \<longleftrightarrow>
     (\<exists>kvs. b = JObj kvs \<and>
        (\<forall>f\<in>set facts. map_of kvs (fact_name (f_type f)) = Some (sub_agg_json f (vals (f_type f)))))"

definition proc_conforms :: "Fact list \<Rightarrow> bool \<Rightarrow> json \<Rightarrow> string \<times> fact_values list \<Rightarrow> bool" where
  "proc_conforms facts expand pb pv \<longleftrightarrow>
     (\<exists>kvs. pb = JObj kvs \<and> map_of kvs ''key'' = Some (JStr (fst pv)) \<and>
        (if expand then \<exists>agg bs. map_of kvs ''by_metric'' = Some (JObj agg) \<and>
              map_of agg ''buckets'' = Some (JArr bs) \<and> list_all2 (instance_conforms facts) bs (snd pv)
         else \<exists>v. snd pv = [v] \<and> instance_conforms facts pb v))"

definition eqp_conforms ::
  "Fact list \<Rightarrow> string \<Rightarrow> bool \<Rightarrow> json \<Rightarrow> string \<times> (string \<times> fact_values list) list \<Rightarrow> bool" where
  "eqp_conforms facts proc expand eb ev \<longleftrightarrow>
     (\<exists>kvs. eb = JObj kvs \<and> map_of kvs ''key'' = Some (JStr (fst ev)) \<and>
        (if proc = wildcard then \<exists>agg bs. map_of kvs ''by_proc'' = Some (JObj agg) \<and>
              map_of agg ''buckets'' = Some (JArr bs) \<and> list_all2 (proc_conforms facts expand) bs (snd ev)
         else map_of kvs ''by_proc'' = None \<and>
           (\<exists>vs. snd ev = [(proc, vs)] \<and> proc_conforms facts expand (with_key proc eb) (proc, vs))))"

definition response_conforms ::
  "Fact list \<Rightarrow> string \<Rightarrow> bool \<Rightarrow> json \<Rightarrow> (string \<times> (string \<times> fact_values list) list) list \<Rightarrow> bool" where
  "response_conforms facts proc expand resp tree \<longleftrightarrow>
     (\<exists>rs aggs by bs. resp = JObj rs \<and> map_of rs ''aggregations'' = Some (JObj aggs) \<and>
        map_of aggs ''by_eqp'' = Some (JObj by) \<and> map_of by ''buckets'' = Some (JArr bs) \<and>
        list_all2 (eqp_conforms facts proc expand) bs tree)"

subsection \<open>Reading back\<close>

lemma dict_get_Some [simp]: "map_of kvs k = Some v \<Longrightarrow> dict_get kvs k d = v"
  by (simp add: dict_get_def)

lemma jvalue_number [simp]: "jvalue (number_json v) = Inr v"
  by (simp add: jvalue_def number_json_def split: option.splits)

lemma sub_agg_json_not_null: "is_implemented (f_type f) \<Longrightarrow> sub_agg_json f v \<noteq> JNull"
  using implemented_strategy [of "f_type f"] by (auto simp: sub_agg_json_def)

lemma read_fact_conforms:
  assumes "is_implemented (f_type f)" "map_of kvs (fact_name (f_type f)) = Some (sub_agg_json f v)"
  shows "read_fact (JObj kvs) f = Inr v"
proof -
  consider "agg_strategy (f_type f) = STAT" | "agg_strategy (f_type f) = FILTER_RANGE"
    | "agg_strategy (f_type f) = TOP_HITS" | "agg_strategy (f_type f) = PERCENTILES"
    using implemented_strategy [OF assms(1)] by blast
  then show ?thesis
  proof cases
    case 4
    then obtain pct where "PERCENTILE_OF_FACT (f_type f) = Some pct"
      using percentile_table_total [of "f_type f"] by auto
    with 4 assms(2) show ?thesis
      by (simp add: read_fact_def sub_agg_json_def dict_get_def percentile_keys_def jindex_def)
  qed (use assms(2) in \<open>auto simp: read_fact_def sub_agg_json_def dict_get_def jvalue_def number_json_def split: option.splits\<close>)
qed

definition reads_as :: "Fact list \<Rightarrow> fact_table \<Rightarrow> fact_values list \<Rightarrow> bool" where
  "reads_as facts t vs \<longleftrightarrow>
     (\<forall>f\<in>set facts. map_of t (fact_name (f_type f)) = Some (map (\<lambda>v. v (f_type f)) vs))"

lemma filter_reads:
  assumes "distinct (map f_type facts)" "f \<in> set facts"
  shows "map snd (filter (\<lambda>kv. fst kv = fact_name (f_type f)) (map (\<lambda>g. (fact_name (f_type g), v (f_type g))) facts)) = [v (f_type f)]"
  using assms
proof (induction facts)
  case (Cons g facts)
  then show ?case
    by (cases "g = f") (auto simp: filter_empty_conv image_iff)
qed simp

lemma read_instances_conforms:
  assumes "distinct (map f_type facts)" "\<forall>f\<in>set facts. is_implemented (f_type f)"
    and "list_all2 (instance_conforms facts) insts vs"
  shows "\<exists>t. read_instances facts insts = Inr t \<and> reads_as facts t vs"
proof -
  let ?row = "\<lambda>v. map (\<lambda>g. (fact_name (f_type g), v (f_type g))) facts"
  have "map_res (\<lambda>i. map_res (\<lambda>f. bind_res (read_fact i f) (\<lambda>v. Inr (fact_name (f_type f), v))) facts) insts = Inr (map ?row vs)"
    using assms(3)
  proof (induction rule: list_all2_induct)
    case (Cons i rest v vs)
    then have "map_res (\<lambda>f. bind_res (read_fact i f) (\<lambda>v. Inr (fact_name (f_type f), v))) facts = Inr (?row v)"
      using assms(2) by (intro map_res_Inr) (auto simp: instance_conforms_def read_fact_conforms)
    with Cons show ?case by simp
  qed simp
  moreover have "map snd (filter (\<lambda>kv. fst kv = fact_name (f_type f)) (concat (map ?row vs))) = map (\<lambda>v. v (f_type f)) vs"
    if "f \<in> set facts" for f
    by (induction vs) (simp_all add: filter_reads [OF assms(1) that])
  moreover have "map_of (dict_of (\<lambda>f. fact_name (f_type f)) (\<lambda>_. []) [] facts) (fact_name (f_type f)) = Some []"
    if "f \<in> set facts" for f
    using that by (auto simp: dict_simps last_with_None_iff split: option.splits)
  ultimately show ?thesis
    by (auto simp: read_instances_def reads_as_def dict_simps)
qed

lemma map_res_list_all2:
  assumes "list_all2 P xs ys" "\<And>x y. P x y \<Longrightarrow> \<exists>z. f x = Inr z \<and> R z y"
  shows "\<exists>zs. map_res f xs = Inr zs \<and> list_all2 R zs ys"
  using assms(1)
proof (induction rule: list_all2_induct)
  case (Cons x xs y ys)
  from assms(2) [OF Cons(1)] Cons(3) show ?case by auto
qed simp

definition target_reads :: "Fact list \<Rightarrow> string \<Rightarrow> (string \<times> string) \<times> fact_table \<Rightarrow> string \<times> fact_values list \<Rightarrow> bool" where
  "target_reads facts eqp entry pv \<longleftrightarrow> fst entry = (eqp, fst pv) \<and> reads_as facts (snd entry) (snd pv)"

lemma parse_proc_conforms:
  assumes "distinct (map f_type facts)" "\<forall>f\<in>set facts. is_implemented (f_type f)"
    and "proc_conforms facts expand pb pv"
  shows "\<exists>e. parse_proc_bucket facts expand eqp pb = Inr e \<and> target_reads facts eqp e pv"
proof -
  obtain kvs where kvs: "pb = JObj kvs" "map_of kvs ''key'' = Some (JStr (fst pv))"
    using assms(3) by (auto simp: proc_conforms_def)
  have key: "bucket_key pb = Inr (fst pv)"
    using kvs by (simp add: bucket_key_def jindex_def)
  obtain insts where insts: "list_all2 (instance_conforms facts) insts (snd pv)"
    "(if expand \<and> jhas pb ''by_metric'' then bind_res (jindex pb ''by_metric'') bucket_list else Inr [pb]) = Inr insts"
  proof (cases expand)
    case True
    with assms(3) kvs(1) obtain agg bs where "map_of kvs ''by_metric'' = Some (JObj agg)"
      "map_of agg ''buckets'' = Some (JArr bs)" "list_all2 (instance_conforms facts) bs (snd pv)"
      by (auto simp: proc_conforms_def)
    with True kvs(1) that show ?thesis by (simp add: jindex_def bucket_list_def)
  next
    case False
    with assms(3) that [of "[pb]"] show ?thesis by (auto simp: proc_conforms_def)
  qed
  from read_instances_conforms [OF assms(1,2) insts(1)] obtain t
    where "read_instances facts insts = Inr t" "reads_as facts t (snd pv)" by blast
  with key insts(2) show ?thesis
    by (simp add: parse_proc_bucket_def target_reads_def)
qed

definition eqp_reads ::
  "Fact list \<Rightarrow> ((string \<times> string) \<times> fact_table) list \<Rightarrow> string \<times> (string \<times> fact_values list) list \<Rightarrow> bool" where
  "eqp_reads facts es ev \<longleftrightarrow> list_all2 (target_reads facts (fst ev)) es (snd ev)"

lemma parse_eqp_conforms:
  assumes "distinct (map f_type facts)" "\<forall>f\<in>set facts. is_implemented (f_type f)"
    and "eqp_conforms facts proc expand eb ev"
  shows "\<exists>es. parse_eqp_bucket facts proc expand eb = Inr es \<and> eqp_reads facts es ev"
proof -
  obtain kvs where kvs: "eb = JObj kvs" "map_of kvs ''key'' = Some (JStr (fst ev))"
    using assms(3) by (auto simp: eqp_conforms_def)
  have key: "bucket_key eb = Inr (fst ev)"
    using kvs by (simp add: bucket_key_def jindex_def)
  obtain pbs where pbs: "list_all2 (proc_conforms facts expand) pbs (snd ev)"
    "(if jhas eb ''by_proc'' then bind_res (jindex eb ''by_proc'') bucket_list else Inr [with_key proc eb]) = Inr pbs"
  proof (cases "proc = wildcard")
    case True
    with assms(3) kvs(1) obtain agg bs where "map_of kvs ''by_proc'' = Some (JObj agg)"
      "map_of agg ''buckets'' = Some (JArr bs)" "list_all2 (proc_conforms facts expand) bs (snd ev)"
      by (auto simp: eqp_conforms_def)
    with kvs(1) that show ?thesis by (simp add: jindex_def bucket_list_def)
  next
    case False
    with assms(3) kvs(1) that [of "[with_key proc eb]"] show ?thesis by (auto simp: eqp_conforms_def)
  qed
  have "\<exists>es. map_res (parse_proc_bucket facts expand (fst ev)) pbs = Inr es \<and> list_all2 (target_reads facts (fst ev)) es (snd ev)"
    by (rule map_res_list_all2 [OF pbs(1)]) (rule parse_proc_conforms [OF assms(1,2)])
  with key pbs(2) show ?thesis
    by (auto simp: parse_eqp_bucket_def eqp_reads_def)
qed

definition answer_targets :: "(string \<times> (string \<times> fact_values list) list) list \<Rightarrow> ((string \<times> string) \<times> fact_values list) list" where
  "answer_targets tree = concat (map (\<lambda>(eqp, pvs). map (\<lambda>(proc, vs). ((eqp, proc), vs)) pvs) tree)"

lemma eqp_reads_targets:
  assumes "list_all2 (eqp_reads facts) ess tree"
  shows "list_all2 (\<lambda>e tv. fst e = fst tv \<and> reads_as facts (snd e) (snd tv)) (concat ess) (answer_targets tree)"
  using assms
proof (induction rule: list_all2_induct)
  case (Cons es ess ev tree)
  have "list_all2 (\<lambda>e tv. fst e = fst tv \<and> reads_as facts (snd e) (snd tv)) es
      (map (\<lambda>(proc, vs). ((fst ev, proc), vs)) (snd ev))"
    using Cons(1) by (auto simp: eqp_reads_def list_all2_map2 target_reads_def elim!: list_all2_mono split: prod.splits)
  with Cons(3) show ?case
    by (auto simp: answer_targets_def split_def intro!: list_all2_appendI)
qed (simp add: answer_targets_def)

lemma dict_of_pairs: "distinct (map fst es) \<Longrightarrow> dict_of fst snd [] es = es"
  for es :: "('k \<times> 'v) list"
proof (induction es rule: rev_induct)
  case (snoc e es)
  then have "fst e \<notin> fst ` set es" by auto
  with snoc show ?case by (auto simp: update_fresh)
qed simp


definition sample_answer :: json where
  "sample_answer = JObj [(''took'', JNum 3), (''aggregations'', JObj [(''by_eqp'', JObj [(''buckets'',
     JArr [JObj [(''key'', JStr ''E1''), (''doc_count'', JNum 4), (''max'', JObj [(''value'', JNum 97)])]])])])]"


end
