(* ===== verification/Scheduler.thy ===== *)
theory Scheduler
  imports Repository Py_Strings
begin

text \<open>
  \<open>src/src/scheduler/jobs.py\<close> and \<open>src/src/distributed/lock.py\<close>: the set of interval jobs of an
  instance, its reload and its reconciliation with the profiles' cadence, the wrapper every job
  runs through, and the lock section around an analysis. APScheduler's job store is a dictionary
  from job id to (process, interval), as its documentation has it; what the repository answers
  and how a job ends are arguments.
\<close>

subsection \<open>Failure classes and the lock section\<close>

datatype JobError =
    MongoDown | LockAcquisitionTimeout string | DriverFailure (driver_module: string) | JobCancelled
  | OtherJobError string

definition classify_failure_reason :: "JobError \<Rightarrow> string" where
  "classify_failure_reason e =
     (case e of
        MongoDown \<Rightarrow> ''mongo_unavailable''
      | LockAcquisitionTimeout _ \<Rightarrow> ''lock_timeout''
      | DriverFailure modname \<Rightarrow> if starts_with modname ''elasticsearch'' then ''es_unavailable'' else ''other''
      | _ \<Rightarrow> ''other'')"

text \<open>How a repository exception appears to the scheduler.\<close>

definition repo_job_error :: "RepoError \<Rightarrow> JobError" where
  "repo_job_error e =
     (case e of
        MongoUnavailableError _ \<Rightarrow> MongoDown
      | DriverError _ \<Rightarrow> DriverFailure ''pymongo.errors''
      | _ \<Rightarrow> OtherJobError ''repository'')"

datatype LockEvent = LockReleased | LockReleaseSkipped | LockReleaseFailed

text \<open>
  \<open>ZKAnalysisLock.acquire\<close> around a body: the outcome of the kazoo acquire (which may raise, or
  time out), the body's result, and the outcome of the release, which is logged, never raised.
\<close>

definition with_zk_lock ::
  "string \<Rightarrow> JobError + bool \<Rightarrow> JobError + 'a \<Rightarrow> LockEvent \<Rightarrow> (JobError + 'a) \<times> LockEvent list" where
  "with_zk_lock process acquired body release =
     (case acquired of
        Inl e \<Rightarrow> (Inl e, [])
      | Inr False \<Rightarrow> (Inl (LockAcquisitionTimeout process), [])
      | Inr True \<Rightarrow> (body, [release]))"

definition with_noop_lock :: "JobError + 'a \<Rightarrow> (JobError + 'a) \<times> LockEvent list" where
  "with_noop_lock body = (body, [])"

subsection \<open>Job ids\<close>

definition job_id :: "string \<Rightarrow> int \<Rightarrow> string" where
  "job_id process interval = ''analysis-'' @ process @ ''-'' @ str_of_int interval @ ''m''"

text \<open>
  The regular expression \<open>^analysis-(.+)-(\d+)m$\<close>: the interval is what follows the last dash, the
  process everything before it.
\<close>

definition job_id_match :: "string \<Rightarrow> (string \<times> int) option" where
  "job_id_match s =
     (if \<not> starts_with s ''analysis-'' then None
      else let body = drop (length ''analysis-'') s
           in if body = [] \<or> last body \<noteq> CHR ''m'' then None
              else let core = rev (butlast body);
                       digits = rev (takeWhile (\<lambda>c. c \<noteq> CHR ''-'') core);
                       process = rev (tl (dropWhile (\<lambda>c. c \<noteq> CHR ''-'') core))
                   in if dropWhile (\<lambda>c. c \<noteq> CHR ''-'') core = [] \<or> process = [] \<or> digits = []
                         \<or> \<not> list_all is_digit digits
                      then None
                      else map_option (\<lambda>n. (process, n)) (py_int digits))"

subsection \<open>State\<close>

type_synonym job_key = "string \<times> int"

record AnalysisScheduler =
  jobs :: "(string, job_key) dict"
  paused :: bool
  running :: bool
  owned_processes :: "string list option"
  reconcile_task :: bool
  running_jobs :: "nat list"

definition new_AnalysisScheduler :: AnalysisScheduler where
  "new_AnalysisScheduler =
     \<lparr>jobs = [], paused = False, running = False, owned_processes = None, reconcile_task = False,
      running_jobs = []\<rparr>"

record SchedulerConfig =
  sc_debug_read_only :: bool
  sc_debug_processes :: "string list"
  sc_reconcile_interval_sec :: rat

definition scheduler_start :: "SchedulerConfig \<Rightarrow> AnalysisScheduler \<Rightarrow> AnalysisScheduler" where
  "scheduler_start cfg s =
     s\<lparr>running := True,
       reconcile_task := (if \<not> sc_debug_read_only cfg \<and> sc_reconcile_interval_sec cfg > 0 then True
                          else reconcile_task s)\<rparr>"

definition pause_all_jobs :: "AnalysisScheduler \<Rightarrow> AnalysisScheduler" where
  "pause_all_jobs s = s\<lparr>paused := True\<rparr>"

text \<open>\<open>resume_jobs_for\<close> logs its argument and resumes every job.\<close>

definition resume_jobs_for :: "string list \<Rightarrow> AnalysisScheduler \<Rightarrow> AnalysisScheduler" where
  "resume_jobs_for processes s = s\<lparr>paused := False\<rparr>"

text \<open>
  \<open>shutdown\<close> answers the state and the tasks it cancels: the tracked jobs that are not done when the
  wait ends (\<open>finished\<close> is \<open>None\<close> where the wait itself fails). Every job removes itself from
  \<open>_running_jobs\<close> when it ends, cancelled or not, before \<open>shutdown\<close> returns.
\<close>

definition scheduler_shutdown :: "nat list option \<Rightarrow> AnalysisScheduler \<Rightarrow> AnalysisScheduler \<times> nat list" where
  "scheduler_shutdown finished s =
     (let s1 = s\<lparr>paused := True, reconcile_task := False, running := False\<rparr>
      in if running_jobs s = [] then (s1, [])
         else let still_pending = (case finished of
                     None \<Rightarrow> running_jobs s
                   | Some fs \<Rightarrow> filter (\<lambda>t. t \<notin> set fs) (running_jobs s))
              in (s1\<lparr>running_jobs := []\<rparr>, still_pending))"

definition add_interval_job :: "string \<Rightarrow> int \<Rightarrow> AnalysisScheduler \<Rightarrow> AnalysisScheduler" where
  "add_interval_job process interval s =
     s\<lparr>jobs := AList.update (job_id process interval) (process, interval) (jobs s)\<rparr>"

definition current_interval_jobs :: "AnalysisScheduler \<Rightarrow> (job_key, string) dict" where
  "current_interval_jobs s =
     foldl (\<lambda>out (jid, _). case job_id_match jid of None \<Rightarrow> out | Some key \<Rightarrow> AList.update key jid out) [] (jobs s)"

definition resolve_processes_for_debug ::
  "SchedulerConfig \<Rightarrow> JobError + string list \<Rightarrow> JobError + string list" where
  "resolve_processes_for_debug cfg distinct_processes =
     (if \<not> sc_debug_read_only cfg then Inl (OtherJobError ''resolve_processes_for_debug called with debug_read_only=False'')
      else if sc_debug_processes cfg \<noteq> [] then Inr (sc_debug_processes cfg)
      else distinct_processes)"

subsection \<open>Reload and reconcile\<close>

text \<open>
  The loop over the processes of \<open>reload\<close>: the jobs added so far stay when a later process raises.
\<close>

fun add_process_jobs ::
  "(string \<Rightarrow> JobError + int list) \<Rightarrow> string list \<Rightarrow> AnalysisScheduler \<Rightarrow>
     (JobError + unit) \<times> AnalysisScheduler" where
  "add_process_jobs intervals [] s = (Inr (), s)"
| "add_process_jobs intervals (process # ps) s =
     (case intervals process of
        Inl e \<Rightarrow> (Inl e, s)
      | Inr ivs \<Rightarrow> add_process_jobs intervals ps (fold (add_interval_job process) ivs s))"

definition reload ::
  "SchedulerConfig \<Rightarrow> (string \<Rightarrow> JobError + int list) \<Rightarrow> JobError + string list \<Rightarrow> string list option \<Rightarrow>
     AnalysisScheduler \<Rightarrow> (JobError + unit) \<times> AnalysisScheduler" where
  "reload cfg intervals distinct_processes processes s =
     (let s0 = s\<lparr>jobs := []\<rparr>;
          run = (\<lambda>ps. add_process_jobs intervals ps (s0\<lparr>owned_processes := Some ps\<rparr>))
      in case processes of
           Some ps \<Rightarrow> run ps
         | None \<Rightarrow>
             if sc_debug_read_only cfg
             then (case resolve_processes_for_debug cfg distinct_processes of
                     Inl e \<Rightarrow> (Inl e, s0) | Inr ps \<Rightarrow> run ps)
             else (Inr (), s0))"

definition processes_to_schedule ::
  "SchedulerConfig \<Rightarrow> JobError + string list \<Rightarrow> AnalysisScheduler \<Rightarrow> JobError + string list option" where
  "processes_to_schedule cfg distinct_processes s =
     (case owned_processes s of
        Some ps \<Rightarrow> Inr (Some ps)
      | None \<Rightarrow>
          if sc_debug_read_only cfg
          then bind_res (resolve_processes_for_debug cfg distinct_processes) (\<lambda>ps. Inr (Some ps))
          else Inr None)"

definition desired_jobs :: "(string \<Rightarrow> JobError + int list) \<Rightarrow> string list \<Rightarrow> JobError + job_key list" where
  "desired_jobs intervals ps =
     bind_res (map_res (\<lambda>p. bind_res (intervals p) (\<lambda>ivs. Inr (map (Pair p) ivs))) ps)
       (\<lambda>kss. Inr (remdups (concat kss)))"

definition sort_keys :: "job_key list \<Rightarrow> job_key list" where
  "sort_keys ks = sort_key fst (sort_key snd ks)"

definition reconcile ::
  "SchedulerConfig \<Rightarrow> (string \<Rightarrow> JobError + int list) \<Rightarrow> JobError + string list \<Rightarrow>
     AnalysisScheduler \<Rightarrow> (JobError + bool) \<times> AnalysisScheduler" where
  "reconcile cfg intervals distinct_processes s =
     (if paused s \<or> \<not> running s then (Inr False, s)
      else case processes_to_schedule cfg distinct_processes s of
             Inl e \<Rightarrow> (Inl e, s)
           | Inr None \<Rightarrow> (Inr False, s)
           | Inr (Some ps) \<Rightarrow>
               if ps = [] then (Inr False, s)
               else (case desired_jobs intervals ps of
                       Inl e \<Rightarrow> (Inl e, s)
                     | Inr desired \<Rightarrow>
                         (let current = current_interval_jobs s;
                              current_keys = map fst current;
                              to_add = filter (\<lambda>k. k \<notin> set current_keys) desired;
                              to_remove = filter (\<lambda>k. k \<notin> set desired) current_keys
                          in if to_add = [] \<and> to_remove = [] then (Inr False, s)
                             else (let removed = map (\<lambda>k. the (map_of current k)) to_remove;
                                       s1 = s\<lparr>jobs := filter (\<lambda>(jid, _). jid \<notin> set removed) (jobs s)\<rparr>
                                   in (Inr True, fold (\<lambda>(p, i). add_interval_job p i) (sort_keys to_add) s1)))))"

subsection \<open>Job wrapper\<close>

datatype JobMetric = JobTotal (metric_process: string) (metric_status: string) (metric_reason: string)

text \<open>
  The wrapper in its two halves, around the await of the job: entering tracks the task unless the
  scheduler is paused; leaving bumps a counter, decides which exception escapes and stops tracking
  the task.
\<close>

definition job_enter :: "nat \<Rightarrow> AnalysisScheduler \<Rightarrow> AnalysisScheduler option" where
  "job_enter task s = (if paused s then None else Some (s\<lparr>running_jobs := List.insert task (running_jobs s)\<rparr>))"

definition job_leave ::
  "nat \<Rightarrow> string \<Rightarrow> JobError + unit \<Rightarrow> AnalysisScheduler \<Rightarrow>
     JobMetric list \<times> JobError option \<times> AnalysisScheduler" where
  "job_leave task process outcome s =
     (let s' = s\<lparr>running_jobs := removeAll task (running_jobs s)\<rparr>
      in case outcome of
           Inr _ \<Rightarrow> ([JobTotal process ''success'' []], None, s')
         | Inl JobCancelled \<Rightarrow> ([], Some JobCancelled, s')
         | Inl e \<Rightarrow> ([JobTotal process ''failure'' (classify_failure_reason e)], None, s'))"

subsection \<open>Job ids read back\<close>

lemma dash_not_digit: "\<not> is_digit CHR ''-''"
  by (simp add: is_digit_def char_code_def)

lemma job_id_roundtrip:
  assumes "process \<noteq> []" "0 \<le> interval"
  shows "job_id_match (job_id process interval) = Some (process, interval)"
proof -
  let ?n = "str_of_int interval"
  have digits: "\<forall>c\<in>set ?n. is_digit c"
    using assms(2) str_of_nat_digits by (simp add: str_of_int_def)
  then have nodash: "\<And>c. c \<in> set (rev ?n) \<Longrightarrow> c \<noteq> CHR ''-''"
    using dash_not_digit by fastforce
  have core: "rev (butlast (process @ ''-'' @ ?n @ ''m'')) = rev ?n @ CHR ''-'' # rev process"
    by (simp add: butlast_append)
  have "takeWhile (\<lambda>c. c \<noteq> CHR ''-'') (rev ?n @ CHR ''-'' # rev process) = rev ?n"
    "dropWhile (\<lambda>c. c \<noteq> CHR ''-'') (rev ?n @ CHR ''-'' # rev process) = CHR ''-'' # rev process"
    using nodash by (simp_all add: takeWhile_append dropWhile_append)
  moreover have "starts_with (job_id process interval) ''analysis-''"
    unfolding starts_with_iff job_id_def by blast
  moreover have "drop (length ''analysis-'') (job_id process interval) = process @ ''-'' @ ?n @ ''m''"
    by (simp add: job_id_def)
  ultimately show ?thesis
    using assms(1) core digits py_int_str_of_int [of interval]
    by (simp add: job_id_match_def Let_def list_all_iff)
qed

subsection \<open>Invariant of the job store\<close>

definition good_key :: "job_key \<Rightarrow> bool" where
  "good_key k \<longleftrightarrow> fst k \<noteq> [] \<and> 0 \<le> snd k"

definition job_keys :: "AnalysisScheduler \<Rightarrow> job_key set" where
  "job_keys s = snd ` set (jobs s)"

text \<open>Every job is stored once, under the id of its key.\<close>

definition jobs_ok :: "AnalysisScheduler \<Rightarrow> bool" where
  "jobs_ok s \<longleftrightarrow>
     distinct (map fst (jobs s)) \<and>
     (\<forall>jid k. (jid, k) \<in> set (jobs s) \<longrightarrow> jid = job_id (fst k) (snd k) \<and> good_key k)"

lemma match_good: "good_key k \<Longrightarrow> job_id_match (job_id (fst k) (snd k)) = Some k"
  by (simp add: good_key_def job_id_roundtrip)

lemma job_id_inj:
  assumes "good_key k" "good_key k'" "job_id (fst k) (snd k) = job_id (fst k') (snd k')"
  shows "k = k'"
  using match_good [OF assms(1)] match_good [OF assms(2)] assms(3) by (metis option.inject)

lemma jobs_okD:
  assumes "jobs_ok s" "(jid, k) \<in> set (jobs s)"
  shows "jid = job_id (fst k) (snd k)" "good_key k" "job_id_match jid = Some k"
proof -
  note job = assms(1) [unfolded jobs_ok_def, THEN conjunct2, rule_format, OF assms(2)]
  from job show j: "jid = job_id (fst k) (snd k)" by (rule conjunct1)
  from job show g: "good_key k" by (rule conjunct2)
  show "job_id_match jid = Some k" unfolding j by (rule match_good [OF g])
qed

lemma jobs_ok_distinct: "jobs_ok s \<Longrightarrow> distinct (map fst (jobs s))"
  unfolding jobs_ok_def by blast

lemma jobs_okI:
  assumes "distinct (map fst (jobs s))"
    and "\<And>jid k. (jid, k) \<in> set (jobs s) \<Longrightarrow> jid = job_id (fst k) (snd k) \<and> good_key k"
  shows "jobs_ok s"
  using assms unfolding jobs_ok_def by blast

lemma fresh_id:
  assumes "jobs_ok s" "good_key (p, i)" "(p, i) \<notin> job_keys s"
  shows "job_id p i \<notin> fst ` set (jobs s)"
proof
  assume "job_id p i \<in> fst ` set (jobs s)"
  then obtain k where k: "(job_id p i, k) \<in> set (jobs s)" by auto
  from jobs_okD(3) [OF assms(1) k] match_good [OF assms(2)] have "k = (p, i)" by simp
  with k assms(3) show False by (force simp: job_keys_def)
qed

lemma update_same: "map_of d k = Some v \<Longrightarrow> AList.update k v d = d"
  by (induction d) auto

lemma jobs_add:
  assumes "jobs_ok s" "good_key (p, i)"
  shows "jobs (add_interval_job p i s) =
     (if (p, i) \<in> job_keys s then jobs s else jobs s @ [(job_id p i, (p, i))])"
proof (cases "(p, i) \<in> job_keys s")
  case True
  then obtain jid where j: "(jid, (p, i)) \<in> set (jobs s)" by (auto simp: job_keys_def)
  then have "(job_id p i, (p, i)) \<in> set (jobs s)"
    using jobs_okD(1) [OF assms(1) j] by simp
  then have "map_of (jobs s) (job_id p i) = Some (p, i)"
    using jobs_ok_distinct [OF assms(1)] by simp
  with True show ?thesis by (simp add: add_interval_job_def update_same)
next
  case False
  with fresh_id [OF assms] show ?thesis by (simp add: add_interval_job_def update_fresh)
qed

lemma jobs_ok_add:
  assumes "jobs_ok s" "good_key (p, i)"
  shows "jobs_ok (add_interval_job p i s)" "job_keys (add_interval_job p i s) = insert (p, i) (job_keys s)"
proof -
  show "jobs_ok (add_interval_job p i s)"
  proof (rule jobs_okI)
    show "distinct (map fst (jobs (add_interval_job p i s)))"
      using fresh_id [OF assms] jobs_ok_distinct [OF assms(1)] by (simp add: jobs_add [OF assms])
  next
    fix jid k assume "(jid, k) \<in> set (jobs (add_interval_job p i s))"
    then consider "(jid, k) \<in> set (jobs s)" | "jid = job_id p i" "k = (p, i)"
      by (auto simp: jobs_add [OF assms] split: if_splits)
    then show "jid = job_id (fst k) (snd k) \<and> good_key k"
      by cases (use jobs_okD(1,2) [OF assms(1)] assms(2) in auto)
  qed
  show "job_keys (add_interval_job p i s) = insert (p, i) (job_keys s)"
    unfolding job_keys_def jobs_add [OF assms] by (auto simp: job_keys_def)
qed

lemma add_keeps [simp]:
  "paused (add_interval_job p i s) = paused s" "running (add_interval_job p i s) = running s"
  "owned_processes (add_interval_job p i s) = owned_processes s"
  by (simp_all add: add_interval_job_def)

lemma fold_add:
  assumes "jobs_ok s" "\<forall>k\<in>set ks. good_key k"
  defines "t \<equiv> fold (\<lambda>(p, i). add_interval_job p i) ks s"
  shows "jobs_ok t \<and> job_keys t = job_keys s \<union> set ks \<and> paused t = paused s \<and> running t = running s \<and>
     owned_processes t = owned_processes s \<and> (\<exists>new. jobs t = jobs s @ new)"
  using assms(1,2) unfolding t_def
proof (induction ks arbitrary: s)
  case (Cons k ks)
  obtain p i where k: "k = (p, i)" by (cases k)
  with Cons.prems have g: "good_key (p, i)" by simp
  note add = jobs_ok_add [OF Cons.prems(1) g]
  have "\<exists>new. jobs (add_interval_job p i s) = jobs s @ new"
    by (simp add: jobs_add [OF Cons.prems(1) g])
  with Cons.IH [of "add_interval_job p i s"] add Cons.prems(2) show ?case
    by (auto simp: k)
qed simp

lemma current_dict:
  assumes "jobs_ok s"
  shows "current_interval_jobs s = dict_of snd fst [] (jobs s)"
proof -
  have "foldl (\<lambda>out (jid, _). case job_id_match jid of None \<Rightarrow> out | Some key \<Rightarrow> AList.update key jid out) d js =
      dict_of snd fst d js" if "set js \<subseteq> set (jobs s)" for js d
    using that
  proof (induction js arbitrary: d)
    case (Cons j js)
    then have "job_id_match (fst j) = Some (snd j)"
      using jobs_okD(3) [OF assms, of "fst j" "snd j"] by simp
    with Cons show ?case by (simp add: dict_of_def split_def)
  qed (simp add: dict_of_def)
  then show ?thesis by (simp add: current_interval_jobs_def)
qed

lemma current_keys:
  assumes "jobs_ok s"
  shows "set (map fst (current_interval_jobs s)) = job_keys s"
    "k \<in> job_keys s \<Longrightarrow> map_of (current_interval_jobs s) k = Some (job_id (fst k) (snd k))"
proof -
  have look: "map_of (current_interval_jobs s) k = (if k \<in> job_keys s then Some (job_id (fst k) (snd k)) else None)" for k
  proof (cases "last_with snd k (jobs s)")
    case None
    moreover from this have "k \<notin> job_keys s" by (simp add: last_with_None_iff job_keys_def)
    ultimately show ?thesis by (simp add: current_dict [OF assms] dict_simps)
  next
    case (Some j)
    with last_with_Some_in [OF Some] have "j \<in> set (jobs s)" "snd j = k" by auto
    moreover from this have "fst j = job_id (fst k) (snd k)" "k \<in> job_keys s"
      using jobs_okD(1) [OF assms, of "fst j" "snd j"] by (auto simp: job_keys_def)
    ultimately show ?thesis using Some by (simp add: current_dict [OF assms] dict_simps)
  qed
  show "set (map fst (current_interval_jobs s)) = job_keys s"
  proof (rule set_eqI)
    fix x
    show "x \<in> set (map fst (current_interval_jobs s)) \<longleftrightarrow> x \<in> job_keys s"
      using look [of x] map_of_eq_None_iff [of "current_interval_jobs s" x] by (auto split: if_splits)
  qed
  show "k \<in> job_keys s \<Longrightarrow> map_of (current_interval_jobs s) k = Some (job_id (fst k) (snd k))"
    using look by simp
qed

lemma set_sort_keys [simp]: "set (sort_keys ks) = set ks"
  by (simp add: sort_keys_def)

subsection \<open>Reload and reconcile agree\<close>

lemma desired_jobs_set:
  assumes "desired_jobs intervals ps = Inr ds"
  shows "set ds = {(p, i). p \<in> set ps \<and> (\<exists>ivs. intervals p = Inr ivs \<and> i \<in> set ivs)}"
proof -
  have "map_res (\<lambda>p. bind_res (intervals p) (\<lambda>ivs. Inr (map (Pair p) ivs))) qs = Inr kss \<Longrightarrow>
      set (concat kss) = {(p, i). p \<in> set qs \<and> (\<exists>ivs. intervals p = Inr ivs \<and> i \<in> set ivs)}" for qs kss
  proof (induction qs arbitrary: kss)
    case (Cons q qs)
    then obtain ivs rest where q: "intervals q = Inr ivs" "kss = map (Pair q) ivs # rest"
      "map_res (\<lambda>p. bind_res (intervals p) (\<lambda>ivs. Inr (map (Pair p) ivs))) qs = Inr rest"
      by (auto split: sum.splits simp: bind_res_eq_Inr)
    with Cons.IH [OF q(3)] show ?case by auto
  qed auto
  with assms show ?thesis
    unfolding desired_jobs_def bind_res_eq_Inr by (metis (no_types, lifting) Inr_inject set_remdups)
qed

lemma kept_jobs:
  assumes "jobs_ok s"
    and s1_def: "s1 = s\<lparr>jobs := filter (\<lambda>(jid, _). jid \<notin> set (map (\<lambda>k. the (map_of (current_interval_jobs s) k))
      (filter (\<lambda>k. k \<notin> D) (map fst (current_interval_jobs s))))) (jobs s)\<rparr>"
  shows "jobs_ok s1 \<and> job_keys s1 = job_keys s \<inter> D \<and> jobs s1 = filter (\<lambda>j. snd j \<in> D) (jobs s)"
proof -
  let ?gone = "map (\<lambda>k. the (map_of (current_interval_jobs s) k)) (filter (\<lambda>k. k \<notin> D) (map fst (current_interval_jobs s)))"
  have gone: "set ?gone = (\<lambda>k. job_id (fst k) (snd k)) ` (job_keys s - D)"
    using current_keys [OF assms(1)] by force
  have mem: "jid \<notin> set ?gone \<longleftrightarrow> k \<in> D" if "(jid, k) \<in> set (jobs s)" for jid k
  proof -
    note j = jobs_okD [OF assms(1) that]
    have "k \<in> job_keys s" using that by (force simp: job_keys_def)
    moreover have "good_key k'" if "k' \<in> job_keys s" for k'
      using that jobs_okD(2) [OF assms(1)] by (auto simp: job_keys_def)
    ultimately show ?thesis
      unfolding gone using j(1,2) job_id_inj by blast
  qed
  have "filter (\<lambda>(jid, _). jid \<notin> set ?gone) (jobs s) = filter (\<lambda>j. snd j \<in> D) (jobs s)"
  proof (rule filter_cong [OF refl])
    fix j assume "j \<in> set (jobs s)"
    then show "(case j of (jid, _) \<Rightarrow> jid \<notin> set ?gone) \<longleftrightarrow> snd j \<in> D"
      using mem [of "fst j" "snd j"] unfolding prod.collapse split_def by blast
  qed
  then have eq: "jobs s1 = filter (\<lambda>j. snd j \<in> D) (jobs s)"
    unfolding s1_def by simp
  moreover have "job_keys s1 = job_keys s \<inter> D" by (auto simp: job_keys_def eq)
  moreover have "jobs_ok s1"
  proof (rule jobs_okI)
    show "distinct (map fst (jobs s1))" using jobs_ok_distinct [OF assms(1)] by (simp add: eq distinct_map_filter)
    show "(jid, k) \<in> set (jobs s1) \<Longrightarrow> jid = job_id (fst k) (snd k) \<and> good_key k" for jid k
      using jobs_okD(1,2) [OF assms(1), of jid k] by (simp add: eq)
  qed
  ultimately show ?thesis by blast
qed

lemma reconcile_sync:
  assumes "jobs_ok s" "\<not> paused s" "running s" "owned_processes s = Some ps" "ps \<noteq> []"
    and "desired_jobs intervals ps = Inr ds" "\<forall>k\<in>set ds. good_key k"
  shows "\<exists>changed s'. reconcile cfg intervals dp s = (Inr changed, s') \<and>
     jobs_ok s' \<and> job_keys s' = set ds \<and> (changed \<longleftrightarrow> job_keys s \<noteq> set ds) \<and>
     (\<exists>new. jobs s' = filter (\<lambda>j. snd j \<in> set ds) (jobs s) @ new)"
proof -
  let ?cur = "current_interval_jobs s"
  let ?add = "filter (\<lambda>k. k \<notin> set (map fst ?cur)) ds"
  let ?rem = "filter (\<lambda>k. k \<notin> set ds) (map fst ?cur)"
  note keys = current_keys(1) [OF assms(1)]
  have same: "?add = [] \<and> ?rem = [] \<longleftrightarrow> job_keys s = set ds"
    unfolding keys [symmetric] filter_empty_conv by auto
  have rec: "reconcile cfg intervals dp s =
      (if ?add = [] \<and> ?rem = [] then (Inr False, s)
       else (Inr True, fold (\<lambda>(p, i). add_interval_job p i) (sort_keys ?add)
              (s\<lparr>jobs := filter (\<lambda>(jid, _). jid \<notin> set (map (\<lambda>k. the (map_of ?cur k)) ?rem)) (jobs s)\<rparr>)))"
    using assms(2-6) by (simp add: reconcile_def processes_to_schedule_def Let_def)
  show ?thesis
  proof (cases "job_keys s = set ds")
    case True
    have "filter (\<lambda>j. snd j \<in> set ds) (jobs s) = jobs s"
      using True by (auto simp: job_keys_def intro: filter_True)
    with True same rec assms(1) show ?thesis by auto
  next
    case False
    define s1 where "s1 = s\<lparr>jobs := filter (\<lambda>(jid, _). jid \<notin> set (map (\<lambda>k. the (map_of ?cur k)) ?rem)) (jobs s)\<rparr>"
    define t where "t = fold (\<lambda>(p, i). add_interval_job p i) (sort_keys ?add) s1"
    note kept = kept_jobs [OF assms(1) s1_def]
    have good: "\<forall>k\<in>set (sort_keys ?add). good_key k" using assms(7) by simp
    note new = fold_add [OF conjunct1 [OF kept] good, folded t_def]
    have "job_keys t = (job_keys s \<inter> set ds) \<union> set ?add"
      using new kept by (metis set_sort_keys)
    also have "\<dots> = set ds" using keys by auto
    finally have "job_keys t = set ds" .
    moreover have "\<not> (?add = [] \<and> ?rem = [])" using False same by blast
    then have "reconcile cfg intervals dp s = (Inr True, t)"
      unfolding rec s1_def t_def by (rule if_not_P)
    moreover have "\<exists>new. jobs t = filter (\<lambda>j. snd j \<in> set ds) (jobs s) @ new"
      using new kept by (elim conjE) (simp only:)
    ultimately show ?thesis using False conjunct1 [OF new] by blast
  qed
qed


lemma fold_job_map:
  "fold (add_interval_job p) ivs s = fold (\<lambda>(p, i). add_interval_job p i) (map (Pair p) ivs) s"
  by (induction ivs arbitrary: s) auto

lemma add_process_jobs_outcome:
  assumes "map_res (\<lambda>p. bind_res (intervals p) (\<lambda>ivs. Inr (map (Pair p) ivs))) ps = Inr kss"
  shows "add_process_jobs intervals ps s = (Inr (), fold (\<lambda>(p, i). add_interval_job p i) (concat kss) s)"
  using assms
proof (induction ps arbitrary: kss s)
  case (Cons q qs)
  then obtain ivs rest where q: "intervals q = Inr ivs" "kss = map (Pair q) ivs # rest"
    "map_res (\<lambda>p. bind_res (intervals p) (\<lambda>ivs. Inr (map (Pair p) ivs))) qs = Inr rest"
    by (auto split: sum.splits simp: bind_res_eq_Inr)
  with Cons.IH [OF q(3)] show ?case by (simp add: fold_job_map)
qed simp

lemma reload_jobs:
  assumes "desired_jobs intervals ps = Inr ds" "\<forall>k\<in>set ds. good_key k"
  shows "\<exists>s'. reload cfg intervals dp (Some ps) s = (Inr (), s') \<and> jobs_ok s' \<and> job_keys s' = set ds \<and>
     owned_processes s' = Some ps \<and> paused s' = paused s \<and> running s' = running s"
proof -
  obtain kss where kss: "map_res (\<lambda>p. bind_res (intervals p) (\<lambda>ivs. Inr (map (Pair p) ivs))) ps = Inr kss"
    "set ds = set (concat kss)"
    using assms(1) unfolding desired_jobs_def bind_res_eq_Inr by (metis Inr_inject set_remdups)
  let ?s0 = "s\<lparr>jobs := [], owned_processes := Some ps\<rparr>"
  have "jobs_ok ?s0" by (rule jobs_okI) simp_all
  moreover have "\<forall>k\<in>set (concat kss). good_key k" using assms(2) kss(2) by blast
  ultimately have t: "jobs_ok t \<and> job_keys t = job_keys ?s0 \<union> set (concat kss) \<and> paused t = paused ?s0 \<and>
      running t = running ?s0 \<and> owned_processes t = owned_processes ?s0"
    if "t = fold (\<lambda>(p, i). add_interval_job p i) (concat kss) ?s0" for t
    using fold_add [of ?s0 "concat kss"] that by blast
  have "reload cfg intervals dp (Some ps) s =
      (Inr (), fold (\<lambda>(p, i). add_interval_job p i) (concat kss) ?s0)"
    by (simp add: reload_def add_process_jobs_outcome [OF kss(1)])
  with t [OF refl] kss(2) show ?thesis by (auto simp: job_keys_def)
qed

text \<open>
  Reassignment and the periodic reconciliation agree: a reload with the processes of an
  assignment leaves one job per (process, interval) of their profiles and no job of a process that
  is no longer owned, and as long as the profiles' cadence stays the same a reconciliation of a
  running instance changes nothing.
\<close>
theorem reload_then_reconcile:
  assumes "desired_jobs intervals ps = Inr ds" "\<forall>k\<in>set ds. good_key k"
  shows "\<exists>s'. reload cfg intervals dp (Some ps) s = (Inr (), s') \<and>
     (\<forall>p i. (p, i) \<in> job_keys s' \<longleftrightarrow> p \<in> set ps \<and> (\<exists>ivs. intervals p = Inr ivs \<and> i \<in> set ivs)) \<and>
     reconcile cfg intervals dp s' = (Inr False, s')"
proof -
  obtain s' where s': "reload cfg intervals dp (Some ps) s = (Inr (), s')" "jobs_ok s'" "job_keys s' = set ds"
      "owned_processes s' = Some ps"
    using reload_jobs [OF assms] by blast
  have "set (map fst (current_interval_jobs s')) = set ds"
    unfolding current_keys(1) [OF s'(2)] s'(3) ..
  then have "reconcile cfg intervals dp s' = (Inr False, s')"
    using s'(4) assms(1) by (auto simp: reconcile_def processes_to_schedule_def Let_def filter_empty_conv)
  with s' desired_jobs_set [OF assms(1)] show ?thesis by blast
qed

text \<open>
  A job never brings the scheduler down: whatever the outcome, leaving the wrapper stops tracking
  the task and only a cancellation escapes; every other outcome bumps exactly one counter of the
  process. A paused scheduler does not enter the job at all, and after a shutdown nothing is
  entered or tracked and every job that had not finished has been cancelled.
\<close>
theorem job_isolation:
  "\<exists>ms esc s'. job_leave task process outcome s = (ms, esc, s') \<and> task \<notin> set (running_jobs s') \<and>
     (esc \<noteq> None \<longleftrightarrow> outcome = Inl JobCancelled) \<and>
     (outcome = Inl JobCancelled \<and> ms = [] \<or>
      outcome \<noteq> Inl JobCancelled \<and> length ms = 1 \<and> metric_process (hd ms) = process \<and>
        (metric_status (hd ms) = ''success'' \<longleftrightarrow> outcome = Inr ())) \<and>
     (job_enter task s = None \<longleftrightarrow> paused s) \<and>
     job_enter task (fst (scheduler_shutdown finished s)) = None \<and>
     running_jobs (fst (scheduler_shutdown finished s)) = [] \<and>
     set (snd (scheduler_shutdown finished s)) =
       set (running_jobs s) - (case finished of None \<Rightarrow> {} | Some fs \<Rightarrow> set fs)"
  by (cases outcome; cases "projl outcome"; cases finished)
    (auto simp: job_leave_def job_enter_def scheduler_shutdown_def Let_def)

text \<open>
  \<open>resume_jobs_for\<close> is called with the processes the partition manager still holds, but resumes
  whatever jobs are registered: resuming for no process at all lets the jobs of the processes
  owned before the loss run.
\<close>
lemma resume_ignores_processes:
  assumes "desired_jobs intervals ps = Inr ds" "\<forall>k\<in>set ds. good_key k" "ds \<noteq> []"
  shows "\<exists>s'. reload cfg intervals dp (Some ps) s = (Inr (), s') \<and>
     job_keys (resume_jobs_for [] (pause_all_jobs s')) = set ds \<and>
     job_enter task (resume_jobs_for [] (pause_all_jobs s')) \<noteq> None"
proof -
  obtain s' where "reload cfg intervals dp (Some ps) s = (Inr (), s')" "job_keys s' = set ds"
    using reload_jobs [OF assms(1,2)] by blast
  then show ?thesis
    by (auto simp: resume_jobs_for_def pause_all_jobs_def job_enter_def job_keys_def)
qed

subsection \<open>Instances\<close>

definition sample_intervals :: "string \<Rightarrow> JobError + int list" where
  "sample_intervals p = (if p = ''ETCH'' then Inr [5, 10] else Inr [])"

definition sample_scheduler :: AnalysisScheduler where
  "sample_scheduler =
     \<lparr>jobs = [(job_id ''ETCH'' 10, (''ETCH'', 10)), (job_id ''ETCH'' 60, (''ETCH'', 60))], paused = False,
      running = True, owned_processes = Some [''ETCH''], reconcile_task = True, running_jobs = []\<rparr>"

definition sample_config :: SchedulerConfig where
  "sample_config = \<lparr>sc_debug_read_only = False, sc_debug_processes = [], sc_reconcile_interval_sec = 60\<rparr>"

lemma sample_desired: "desired_jobs sample_intervals [''ETCH''] = Inr [(''ETCH'', 5), (''ETCH'', 10)]"
  by code_simp

lemma sample_jobs_ok: "jobs_ok sample_scheduler"
proof (rule jobs_okI)
  show "distinct (map fst (jobs sample_scheduler))" by code_simp
  show "jid = job_id (fst k) (snd k) \<and> good_key k" if "(jid, k) \<in> set (jobs sample_scheduler)" for jid k
    using that by (auto simp: sample_scheduler_def good_key_def)
qed


theorem reload_then_reconcile_witness:
  "\<exists>s'. reload sample_config sample_intervals (Inr []) (Some [''ETCH'']) sample_scheduler = (Inr (), s') \<and>
     (\<forall>p i. (p, i) \<in> job_keys s' \<longleftrightarrow> p \<in> set [''ETCH''] \<and> (\<exists>ivs. sample_intervals p = Inr ivs \<and> i \<in> set ivs)) \<and>
     reconcile sample_config sample_intervals (Inr []) s' = (Inr False, s')"
  by (rule reload_then_reconcile [OF sample_desired]) (simp add: good_key_def)

end
