(* ===== verification/Engine.thy ===== *)
theory Engine
  imports Dispatch Es_Parser Scheduler
begin

text \<open>
  \<open>src/src/analyzer/engine.py\<close>: one analysis tick for a process and an interval. Equipment is bucketed
  by the signature of its effective profile, each bucket's measures are queried once, every rule
  due at the interval is evaluated for every target that reported, and the breaches are
  dispatched. The repositories and Elasticsearch are arguments, the record \<open>Deps\<close>. Python iterates
  a set in no defined order, so the two orders in which the engine walks a set are arguments too.
\<close>

subsection \<open>State\<close>

record 'w Deps =
  dp_equipment :: "string \<Rightarrow> EngineError + eqp_doc list"
  dp_resolve_profile :: "string \<Rightarrow> string \<Rightarrow> string \<Rightarrow> EngineError + MonitorProfile option"
  dp_metric_names :: "string \<Rightarrow> string \<Rightarrow> string \<Rightarrow> string list"
  dp_search :: "string \<Rightarrow> json \<Rightarrow> EngineError + json"
  dp_services :: "'w services"
  dp_digest :: "payload \<Rightarrow> string"

record EngineSettings =
  es_keyword_suffix :: string
  es_alert :: AlertSettings
  es_order_ids :: "string list \<Rightarrow> string list"
  es_order_targets :: "(string \<times> string) list \<Rightarrow> (string \<times> string) list"

record AnalysisResult =
  ar_process :: string
  ar_rule_ids :: "string list"
  ar_breaches :: "ThresholdBreach list"
  ar_total_evaluated :: nat
  ar_timestamp :: datetime

type_synonym measure_result = "(string \<times> string, fact_table) dict"

subsection \<open>Measures\<close>

definition compute_measure ::
  "'w Deps \<Rightarrow> EngineSettings \<Rightarrow> string \<Rightarrow> datetime \<Rightarrow> Measure \<Rightarrow> string list \<Rightarrow> EngineError + measure_result" where
  "compute_measure d settings proc_name now m eqp_ids =
     (let impl_facts = filter (\<lambda>f. is_implemented (f_type f)) (m_facts m)
      in if impl_facts = [] then Inr []
         else
           (let index = resolve_index_range proc_name (m_window_minutes m) now;
                expand = (m_expand m = Expand_instance);
                metrics = (if expand
                  then dict_get (resolve_metric_patterns [m_metric m] (dp_metric_names d index (m_category m) (m_proc m)))
                         (m_metric m) []
                  else [m_metric m])
            in if expand \<and> metrics = [] then Inr []
               else bind_res
                 (dp_search d index
                    (build_metric_aggregation_query (es_keyword_suffix settings) now (m_window_minutes m) (m_category m)
                       metrics (m_proc m) impl_facts expand eqp_ids))
                 (\<lambda>resp. case parse_metric_aggregation resp impl_facts (m_proc m) expand of
                            Inl e \<Rightarrow> Inl (ParseFailure e) | Inr t \<Rightarrow> Inr t)))"

subsection \<open>A bucket\<close>

definition rule_measures :: "Rule \<Rightarrow> string list" where
  "rule_measures r = map (\<lambda>c. ref_measure (c_fact c)) (r_when r)"

definition bucket_results ::
  "'w Deps \<Rightarrow> EngineSettings \<Rightarrow> string \<Rightarrow> datetime \<Rightarrow> MonitorProfile \<Rightarrow> Rule list \<Rightarrow> string list \<Rightarrow>
     EngineError + (string, measure_result) dict" where
  "bucket_results d settings proc_name now profile rules eqp_ids =
     (let referenced = es_order_ids settings (concat (map rule_measures rules));
          known_ids = filter (\<lambda>mid. map_of (measures_by_id profile) mid \<noteq> None) referenced
      in map_res
           (\<lambda>mid. bind_res (compute_measure d settings proc_name now (the (map_of (measures_by_id profile) mid)) eqp_ids)
                     (\<lambda>t. Inr (mid, t)))
           known_ids)"

definition target_facts ::
  "(string, measure_result) dict \<Rightarrow> string \<times> string \<Rightarrow> string \<Rightarrow> rat option list" where
  "target_facts results target ref =
     dict_get (dict_get (dict_get results (ref_measure ref) []) target []) (ref_type ref) []"

definition rule_targets :: "EngineSettings \<Rightarrow> (string, measure_result) dict \<Rightarrow> Rule \<Rightarrow> (string \<times> string) list" where
  "rule_targets settings results r =
     es_order_targets settings (concat (map (\<lambda>mid. map fst (dict_get results mid [])) (rule_measures r)))"

definition evaluate_target ::
  "MonitorProfile \<Rightarrow> (string, measure_result) dict \<Rightarrow> Rule \<Rightarrow> string \<times> string \<Rightarrow> EngineError + Pending list" where
  "evaluate_target profile results r target =
     (let facts_by_ref = dict_of c_fact (\<lambda>c. target_facts results target (c_fact c)) [] (r_when r);
          category = dict_of m_id m_category [] (p_measures profile)
      in case evaluate_rule r facts_by_ref (fst target) (snd target) category of
           Inl e \<Rightarrow> Inl (EvalFailure e)
         | Inr None \<Rightarrow> Inr []
         | Inr (Some breach) \<Rightarrow>
             (case map_of (p_notify profile) (r_notify r) of
                None \<Rightarrow> Inr []
              | Some channel \<Rightarrow>
                  (case map_of (measures_by_id profile) (ref_measure (t_fact breach)) of
                     None \<Rightarrow> Inl (KeyFailure (ref_measure (t_fact breach)))
                   | Some m \<Rightarrow> Inr [\<lparr>pe_breach = breach, pe_notify_name = r_notify r, pe_channel = channel,
                                     pe_window_minutes = m_window_minutes m\<rparr>])))"

definition evaluate_bucket ::
  "'w Deps \<Rightarrow> EngineSettings \<Rightarrow> string \<Rightarrow> datetime \<Rightarrow> MonitorProfile \<Rightarrow> Rule list \<Rightarrow> string list \<Rightarrow>
     EngineError + Pending list" where
  "evaluate_bucket d settings proc_name now profile rules eqp_ids =
     bind_res (bucket_results d settings proc_name now profile rules eqp_ids)
       (\<lambda>results. bind_res
          (map_res (\<lambda>r. map_res (evaluate_target profile results r) (rule_targets settings results r)) rules)
          (\<lambda>pss. Inr (concat (map concat pss))))"

subsection \<open>A tick\<close>

definition doc_eqp_id :: "eqp_doc \<Rightarrow> EngineError + string" where
  "doc_eqp_id doc = (case map_of doc ''eqpId'' of None \<Rightarrow> Inl (KeyFailure ''eqpId'') | Some e \<Rightarrow> Inr e)"

type_synonym bucket = "MonitorProfile \<times> string list"

definition add_to_bucket :: "('w Deps) \<Rightarrow> (string, bucket) dict \<Rightarrow> MonitorProfile \<Rightarrow> string \<Rightarrow> (string, bucket) dict" where
  "add_to_bucket d buckets profile eqp_id =
     (let sig = effective_signature (dp_digest d) profile
      in case map_of buckets sig of
           None \<Rightarrow> buckets @ [(sig, (profile, [eqp_id]))]
         | Some _ \<Rightarrow> AList.map_entry sig (\<lambda>(p, ids). (p, ids @ [eqp_id])) buckets)"

fun build_buckets ::
  "'w Deps \<Rightarrow> string \<Rightarrow> eqp_doc list \<Rightarrow> (string, bucket) dict \<Rightarrow> EngineError + (string, bucket) dict" where
  "build_buckets d proc_name [] buckets = Inr buckets"
| "build_buckets d proc_name (doc # docs) buckets =
     bind_res (doc_eqp_id doc)
       (\<lambda>eqp_id. bind_res (dp_resolve_profile d proc_name (dict_get doc ''eqpModel'' wildcard) eqp_id)
         (\<lambda>resolved. build_buckets d proc_name docs
            (case resolved of
               None \<Rightarrow> buckets
             | Some profile \<Rightarrow> if \<not> p_enabled profile then buckets else add_to_bucket d buckets profile eqp_id)))"

definition due_rules :: "int \<Rightarrow> MonitorProfile \<Rightarrow> Rule list" where
  "due_rules interval_minutes profile = filter (\<lambda>r. r_interval_minutes r = interval_minutes \<and> r_enabled r) (p_rules profile)"

definition evaluate_buckets ::
  "'w Deps \<Rightarrow> EngineSettings \<Rightarrow> string \<Rightarrow> int \<Rightarrow> datetime \<Rightarrow> bucket list \<Rightarrow> EngineError + Pending list" where
  "evaluate_buckets d settings proc_name interval_minutes now buckets =
     bind_res
       (map_res
          (\<lambda>(profile, eqp_ids).
             if due_rules interval_minutes profile = [] then Inr []
             else evaluate_bucket d settings proc_name now profile (due_rules interval_minutes profile) eqp_ids)
          buckets)
       (\<lambda>pss. Inr (concat pss))"

definition breach_metrics :: "string \<Rightarrow> Pending list \<Rightarrow> (string \<times> string \<times> string) list" where
  "breach_metrics proc_name pending =
     map (\<lambda>p. (proc_name, t_fact (pe_breach p), severity_name (t_severity (pe_breach p)))) pending"

definition analysis_result :: "string \<Rightarrow> int \<Rightarrow> datetime \<Rightarrow> eqp_doc list \<Rightarrow> bucket list \<Rightarrow> Pending list \<Rightarrow> AnalysisResult" where
  "analysis_result proc_name interval_minutes now equipment buckets pending =
     \<lparr>ar_process = proc_name,
      ar_rule_ids = sort (remdups (concat (map (\<lambda>(profile, _). map r_id (due_rules interval_minutes profile)) buckets))),
      ar_breaches = map pe_breach pending, ar_total_evaluated = length equipment, ar_timestamp = now\<rparr>"

definition do_analysis ::
  "'w Deps \<Rightarrow> EngineSettings \<Rightarrow> string \<Rightarrow> int \<Rightarrow> datetime \<Rightarrow> 'w \<Rightarrow>
     (EngineError + AnalysisResult) \<times> 'w \<times> (string \<times> string \<times> string) list \<times> AlertEvent list" where
  "do_analysis d settings proc_name interval_minutes now w =
     (case bind_res (dp_equipment d proc_name)
             (\<lambda>equipment. bind_res (map_res (\<lambda>doc. bind_res (doc_eqp_id doc) (\<lambda>e. Inr (e, doc))) equipment)
               (\<lambda>entries. Inr (equipment, dict_of fst snd [] entries))) of
        Inl e \<Rightarrow> (Inl e, w, [], [])
      | Inr (equipment, eqp_lookup) \<Rightarrow>
          if equipment = [] then (Inr (analysis_result proc_name interval_minutes now [] [] []), w, [], [])
          else
            (case bind_res (build_buckets d proc_name equipment [])
                    (\<lambda>buckets. bind_res (evaluate_buckets d settings proc_name interval_minutes now (map snd buckets))
                      (\<lambda>pending. Inr (map snd buckets, pending))) of
               Inl e \<Rightarrow> (Inl e, w, [], [])
             | Inr (buckets, pending) \<Rightarrow>
                 (let metrics = breach_metrics proc_name pending;
                      result = analysis_result proc_name interval_minutes now equipment buckets pending
                  in if pending = [] then (Inr result, w, metrics, [])
                     else (case dispatch (dp_services d) (es_alert settings) proc_name pending eqp_lookup now w of
                             (Inl e, w', evs) \<Rightarrow> (Inl e, w', metrics, evs)
                           | (Inr _, w', evs) \<Rightarrow> (Inr result, w', metrics, evs)))))"

text \<open>The classes of failure the job wrapper tells apart.\<close>

definition job_error :: "EngineError \<Rightarrow> JobError" where
  "job_error e =
     (case e of
        RepoFailure (MongoUnavailableError _) \<Rightarrow> MongoDown
      | EsFailure _ \<Rightarrow> DriverFailure ''elasticsearch.exceptions''
      | _ \<Rightarrow> OtherJobError ''analysis'')"

definition run_analysis ::
  "'w Deps \<Rightarrow> EngineSettings \<Rightarrow> JobError + bool \<Rightarrow> LockEvent \<Rightarrow> string \<Rightarrow> int \<Rightarrow> datetime \<Rightarrow> 'w \<Rightarrow>
     (JobError + AnalysisResult) \<times> LockEvent list \<times> 'w \<times> AlertEvent list" where
  "run_analysis d settings acquired release proc_name interval_minutes now w =
     (case do_analysis d settings proc_name interval_minutes now w of
        (res, w', _, evs) \<Rightarrow>
          (let body = (case res of Inl e \<Rightarrow> Inl (job_error e) | Inr a \<Rightarrow> Inr a)
           in case with_zk_lock proc_name acquired body release of
                (out, lock_events) \<Rightarrow>
                  if acquired = Inr True then (out, lock_events, w', evs) else (out, lock_events, w, [])))"

subsection \<open>One rule for one target\<close>

definition is_order :: "('a list \<Rightarrow> 'a list) \<Rightarrow> bool" where
  "is_order f \<longleftrightarrow> (\<forall>xs. distinct (f xs) \<and> set (f xs) = set xs)"

lemma facts_by_ref_get:
  assumes "c \<in> set (r_when r)"
  shows "dict_get (dict_of c_fact (\<lambda>c. f (c_fact c)) [] (r_when r)) (c_fact c) [] = f (c_fact c)"
proof (cases "last_with c_fact (c_fact c) (r_when r)")
  case None
  with assms show ?thesis by (simp add: last_with_None_iff)
next
  case (Some x)
  then have "c_fact x = c_fact c" using last_with_Some_in by fastforce
  with Some show ?thesis by (simp add: dict_get_def dict_simps)
qed

lemma rule_fires_cong:
  "(\<And>c. c \<in> set (r_when r) \<Longrightarrow> f (c_fact c) = g (c_fact c)) \<Longrightarrow> rule_fires r f = rule_fires r g"
  by (simp add: rule_fires_def)

definition covered_results :: "MonitorProfile \<Rightarrow> (string, measure_result) dict \<Rightarrow> bool" where
  "covered_results profile results \<longleftrightarrow>
     (\<forall>mid\<in>fst ` set results. map_of (measures_by_id profile) mid \<noteq> None)"

lemma target_facts_reported:
  assumes "target_facts results target ref \<noteq> []"
  shows "ref_measure ref \<in> fst ` set results" "target \<in> fst ` set (dict_get results (ref_measure ref) [])"
  using assms
  by (auto simp: target_facts_def dict_get_def split: option.splits dest!: map_of_SomeD intro: rev_image_eqI)

lemma holds_reported:
  assumes "wf_condition c" "condition_holds c (target_facts results target (c_fact c))"
  shows "target_facts results target (c_fact c) \<noteq> []"
  using holds_nonempty [OF assms] by auto

lemma evaluate_target_exact:
  assumes "wf_rule r" "covered_results profile results"
  shows "\<exists>ps. evaluate_target profile results r target = Inr ps \<and>
     (if rule_fires r (target_facts results target) \<and> map_of (p_notify profile) (r_notify r) \<noteq> None
      then \<exists>p. ps = [p] \<and> t_eqp_id (pe_breach p) = fst target \<and> t_proc (pe_breach p) = snd target \<and>
             t_rule_id (pe_breach p) = r_id r \<and> t_severity (pe_breach p) = r_severity r \<and>
             pe_notify_name p = r_notify r \<and> map_of (p_notify profile) (r_notify r) = Some (pe_channel p)
      else ps = [])"
proof -
  let ?facts = "dict_of c_fact (\<lambda>c. target_facts results target (c_fact c)) [] (r_when r)"
  let ?cat = "dict_of m_id m_category [] (p_measures profile)"
  have fires: "rule_fires r (\<lambda>k. dict_get ?facts k []) = rule_fires r (target_facts results target)"
    by (rule rule_fires_cong) (rule facts_by_ref_get)
  show ?thesis
  proof (cases "rule_fires r (target_facts results target)")
    case False
    then have "evaluate_rule r ?facts (fst target) (snd target) ?cat = Inr None"
      using evaluate_rule_silent [OF assms(1)] fires by simp
    with False show ?thesis by (simp add: evaluate_target_def Let_def)
  next
    case True
    then obtain c where c: "find (\<lambda>c. condition_holds c (dict_get ?facts (c_fact c) [])) (r_when r) = Some c"
      "c \<in> set (r_when r)" "condition_holds c (dict_get ?facts (c_fact c) [])"
      using rule_fires_trigger [OF assms(1)] fires by blast
    have breach: "evaluate_rule r ?facts (fst target) (snd target) ?cat =
        Inr (Some (breach_of r c ?facts (fst target) (snd target) ?cat))"
      using evaluate_rule_breach [OF assms(1) _ c(1,3)] True fires by blast
    have "wf_condition c" using assms(1) c(2) by (auto simp: wf_rule_def list_all_iff)
    then have "target_facts results target (c_fact c) \<noteq> []"
      using c(2,3) holds_reported facts_by_ref_get by metis
    then have "map_of (measures_by_id profile) (ref_measure (c_fact c)) \<noteq> None"
      using target_facts_reported(1) assms(2) unfolding covered_results_def by blast
    with breach True show ?thesis
      by (auto simp: evaluate_target_def Let_def breach_of_def split: option.splits)
  qed
qed

subsection \<open>A bucket raises exactly the breaches of its rules\<close>

lemma map_res_spec:
  assumes "\<And>x. x \<in> set xs \<Longrightarrow> \<exists>y. f x = Inr y \<and> P x y"
  shows "\<exists>ys. map_res f xs = Inr ys \<and> list_all2 P xs ys"
  using assms by (induction xs) fastforce+

lemma bucket_results_covered:
  assumes "bucket_results d settings n now profile rules eqp_ids = Inr results"
  shows "covered_results profile results"
proof -
  have "map_res (\<lambda>mid. bind_res (g mid) (\<lambda>t. Inr (mid, t))) ids = Inr res \<Longrightarrow> map fst res = ids" for g ids res
    by (induction ids arbitrary: res) (auto simp: bind_res_eq_Inr split: sum.splits)
  from this [OF assms [unfolded bucket_results_def Let_def]]
  have "fst ` set results = set (filter (\<lambda>mid. map_of (measures_by_id profile) mid \<noteq> None)
      (es_order_ids settings (concat (map rule_measures rules))))"
    by (metis list.set_map)
  then show ?thesis by (auto simp: covered_results_def)
qed

definition incident :: "Pending \<Rightarrow> string \<times> string \<times> string" where
  "incident p = (t_eqp_id (pe_breach p), t_proc (pe_breach p), t_rule_id (pe_breach p))"

lemma evaluate_rule_targets:
  assumes "wf_rule r" "covered_results profile results" "is_order (es_order_targets settings)"
  shows "\<exists>pss. map_res (evaluate_target profile results r) (rule_targets settings results r) = Inr pss \<and>
     incident ` set (concat pss) =
       {(e, pr, r_id r) | e pr. rule_fires r (target_facts results (e, pr)) \<and> map_of (p_notify profile) (r_notify r) \<noteq> None} \<and>
     distinct (map incident (concat pss)) \<and> (\<forall>p\<in>set (concat pss). t_rule_id (pe_breach p) = r_id r)"
proof -
  let ?ts = "rule_targets settings results r"
  let ?hit = "\<lambda>t. rule_fires r (target_facts results t) \<and> map_of (p_notify profile) (r_notify r) \<noteq> None"
  let ?P = "\<lambda>t ps. if ?hit t then \<exists>p. ps = [p] \<and> incident p = (fst t, snd t, r_id r) else ps = []"
  have "\<exists>ps. evaluate_target profile results r t = Inr ps \<and> ?P t ps" for t
    using evaluate_target_exact [OF assms(1,2), of t] by (auto simp: incident_def split: if_splits)
  then obtain pss where pss: "map_res (evaluate_target profile results r) ?ts = Inr pss" "list_all2 ?P ?ts pss"
    using map_res_spec [of ?ts "evaluate_target profile results r" ?P] by blast
  have inc: "map incident (concat pss) = map (\<lambda>t. (fst t, snd t, r_id r)) (filter ?hit ?ts)"
    using pss(2) by (induction rule: list_all2_induct) (auto split: if_splits)
  have hit: "t \<in> set ?ts" if "?hit t" for t
  proof -
    from that assms(1) obtain c where c: "c \<in> set (r_when r)" "condition_holds c (target_facts results t (c_fact c))"
      by (auto simp: rule_fires_def wf_rule_def neq_Nil_conv split: if_splits)
    then have "target_facts results t (c_fact c) \<noteq> []"
      using assms(1) by (intro holds_reported) (auto simp: wf_rule_def list_all_iff)
    from target_facts_reported(2) [OF this] c(1) show ?thesis
      using assms(3) unfolding is_order_def rule_targets_def rule_measures_def by force
  qed
  have ord: "distinct ?ts" using assms(3) by (simp add: is_order_def rule_targets_def)
  have "incident ` set (concat pss) = (\<lambda>t. (fst t, snd t, r_id r)) ` {t. ?hit t}"
    using arg_cong [OF inc, of set] hit by auto
  also have "\<dots> = {(e, pr, r_id r) | e pr. ?hit (e, pr)}" by force
  finally have set: "incident ` set (concat pss) = {(e, pr, r_id r) | e pr. ?hit (e, pr)}" .
  moreover have "distinct (map incident (concat pss))"
    unfolding inc distinct_map using ord by (auto intro: inj_onI prod_eqI)
  moreover have "\<forall>p\<in>set (concat pss). t_rule_id (pe_breach p) = r_id r"
  proof
    fix p assume "p \<in> set (concat pss)"
    then have "incident p \<in> {(e, pr, r_id r) | e pr. ?hit (e, pr)}" using set by blast
    then show "t_rule_id (pe_breach p) = r_id r" by (auto simp: incident_def)
  qed
  ultimately show ?thesis using pss(1) by blast
qed

lemma bucket_exact:
  assumes "\<forall>r\<in>set rules. wf_rule r" "distinct (map r_id rules)" "is_order (es_order_targets settings)"
    and "bucket_results d settings n now profile rules eqp_ids = Inr results"
  shows "\<exists>ps. evaluate_bucket d settings n now profile rules eqp_ids = Inr ps \<and> distinct (map incident ps) \<and>
     incident ` set ps = {(e, pr, r_id r) | e pr r. r \<in> set rules \<and>
        rule_fires r (target_facts results (e, pr)) \<and> map_of (p_notify profile) (r_notify r) \<noteq> None}"
proof -
  let ?hits = "\<lambda>r. {(e, pr, r_id r) | e pr. rule_fires r (target_facts results (e, pr)) \<and> map_of (p_notify profile) (r_notify r) \<noteq> None}"
  let ?P = "\<lambda>r pss. incident ` set (concat pss) = ?hits r \<and> distinct (map incident (concat pss)) \<and>
      (\<forall>p\<in>set (concat pss). t_rule_id (pe_breach p) = r_id r)"
  note cov = bucket_results_covered [OF assms(4)]
  have "\<exists>psss. map_res (\<lambda>r. map_res (evaluate_target profile results r) (rule_targets settings results r)) rules = Inr psss \<and>
      list_all2 ?P rules psss"
    using evaluate_rule_targets [OF _ cov assms(3)] assms(1) by (intro map_res_spec) blast
  then obtain psss where psss: "map_res (\<lambda>r. map_res (evaluate_target profile results r) (rule_targets settings results r)) rules = Inr psss"
    "list_all2 ?P rules psss" by blast
  have "incident ` set (concat (map concat psss)) = (\<Union>r\<in>set rules. ?hits r) \<and>
      ((\<forall>p\<in>set (concat (map concat psss)). t_rule_id (pe_breach p) \<in> r_id ` set rules) \<and>
       distinct (map incident (concat (map concat psss))))"
    using psss(2) assms(2)
  proof (induction rule: list_all2_induct)
    case (Cons r rules pss psss)
    then have IH: "incident ` set (concat (map concat psss)) = (\<Union>r\<in>set rules. ?hits r)"
      "\<forall>p\<in>set (concat (map concat psss)). t_rule_id (pe_breach p) \<in> r_id ` set rules"
      "distinct (map incident (concat (map concat psss)))" by auto
    have head: "incident ` set (concat pss) = ?hits r" "distinct (map incident (concat pss))"
      "\<forall>p\<in>set (concat pss). t_rule_id (pe_breach p) = r_id r" using Cons.hyps(1) by blast+
    have "incident p \<noteq> incident q" if "p \<in> set (concat pss)" "q \<in> set (concat (map concat psss))" for p q
    proof -
      have "t_rule_id (pe_breach p) = r_id r" "t_rule_id (pe_breach q) \<in> r_id ` set rules"
        using that head(3) IH(2) by blast+
      then show ?thesis using Cons.prems by (auto simp: incident_def)
    qed
    then have "set (map incident (concat pss)) \<inter> set (map incident (concat (map concat psss))) = {}"
      unfolding set_map by blast
    then have "distinct (map incident (concat (map concat (pss # psss))))"
      using head(2) IH(3) by (simp only: list.map concat.simps map_append distinct_append)
    moreover have "incident ` set (concat (map concat (pss # psss))) = (\<Union>r\<in>set (r # rules). ?hits r)"
      using head(1) IH(1) by (simp only: list.map concat.simps set_append image_Un list.set UN_insert)
    moreover have "\<forall>p\<in>set (concat (map concat (pss # psss))). t_rule_id (pe_breach p) \<in> r_id ` set (r # rules)"
      using head(3) IH(2) by (simp only: list.map concat.simps set_append) auto
    ultimately show ?case by blast
  qed simp
  moreover have "(\<Union>r\<in>set rules. ?hits r) = {(e, pr, r_id r) | e pr r. r \<in> set rules \<and>
      rule_fires r (target_facts results (e, pr)) \<and> map_of (p_notify profile) (r_notify r) \<noteq> None}" by blast
  moreover have "evaluate_bucket d settings n now profile rules eqp_ids = Inr (concat (map concat psss))"
    by (simp add: evaluate_bucket_def assms(4) psss(1))
  ultimately show ?thesis by auto
qed

text \<open>
  A bucket raises exactly the breaches of its rules. When its measures were computed, evaluating
  well-formed rules raises no exception, and there is a pending alert for an equipment, a process
  and a rule exactly when the rule fires on the values that target reported and its notify channel
  exists; with distinct rule ids, each such incident is pending once.
\<close>
theorem evaluate_bucket_exact:
  assumes "\<forall>r\<in>set rules. wf_rule r" "distinct (map r_id rules)" "is_order (es_order_targets settings)"
    and "bucket_results d settings n now profile rules eqp_ids = Inr results"
  shows "\<exists>ps. evaluate_bucket d settings n now profile rules eqp_ids = Inr ps \<and> distinct (map incident ps) \<and>
     incident ` set ps = {(e, pr, r_id r) | e pr r. r \<in> set rules \<and>
        rule_fires r (target_facts results (e, pr)) \<and> map_of (p_notify profile) (r_notify r) \<noteq> None}"
  by (rule bucket_exact [OF assms])

subsection \<open>Buckets\<close>

text \<open>The enabled effective profile of an equipment document, and the documents of one signature.\<close>

definition doc_profile :: "'w Deps \<Rightarrow> string \<Rightarrow> eqp_doc \<Rightarrow> MonitorProfile option" where
  "doc_profile d n doc =
     (case doc_eqp_id doc of
        Inl _ \<Rightarrow> None
      | Inr e \<Rightarrow>
          (case dp_resolve_profile d n (dict_get doc ''eqpModel'' wildcard) e of
             Inr (Some q) \<Rightarrow> if p_enabled q then Some q else None
           | _ \<Rightarrow> None))"

definition doc_signature :: "'w Deps \<Rightarrow> string \<Rightarrow> eqp_doc \<Rightarrow> string option" where
  "doc_signature d n doc = map_option (effective_signature (dp_digest d)) (doc_profile d n doc)"

definition eqps_with :: "'w Deps \<Rightarrow> string \<Rightarrow> eqp_doc list \<Rightarrow> string \<Rightarrow> string list" where
  "eqps_with d n docs sig = map (\<lambda>doc. projr (doc_eqp_id doc)) (filter (\<lambda>doc. doc_signature d n doc = Some sig) docs)"

lemma add_to_bucket_lookup:
  "map_of (add_to_bucket d buckets p e) sig =
     (if sig = effective_signature (dp_digest d) p
      then Some (case map_of buckets sig of None \<Rightarrow> (p, [e]) | Some (q, ids) \<Rightarrow> (q, ids @ [e]))
      else map_of buckets sig)"
  by (auto simp: add_to_bucket_def Let_def map_of_map_entry map_add_def split: option.splits)

lemma add_to_bucket_distinct: "distinct (map fst buckets) \<Longrightarrow> distinct (map fst (add_to_bucket d buckets p e))"
  by (auto simp: add_to_bucket_def Let_def map_of_eq_None_iff AList.distinct_map_entry split: option.splits)

lemma build_buckets_lookup:
  assumes "build_buckets d n docs buckets = Inr bs"
  shows "map_of bs sig =
     (if eqps_with d n docs sig = [] then map_of buckets sig
      else case map_of buckets sig of
             Some (q, ids) \<Rightarrow> Some (q, ids @ eqps_with d n docs sig)
           | None \<Rightarrow> Some (the (doc_profile d n (the (find (\<lambda>doc. doc_signature d n doc = Some sig) docs))), eqps_with d n docs sig))"
    "distinct (map fst buckets) \<Longrightarrow> distinct (map fst bs)"
  using assms
proof (induction docs arbitrary: buckets)
  case Nil
  {
    case 1
    then show ?case by (simp add: eqps_with_def)
  next
    case 2
    then show ?case by simp
  }
next
  case (Cons doc docs)
  {
    case 1
    then obtain e resolved where doc: "doc_eqp_id doc = Inr e"
      "dp_resolve_profile d n (dict_get doc ''eqpModel'' wildcard) e = Inr resolved"
      by (auto simp: bind_res_eq_Inr)
    show ?case
    proof (cases "doc_profile d n doc")
      case None
      then have "build_buckets d n docs buckets = Inr bs"
        using 1 doc by (auto simp: doc_profile_def split: option.splits if_splits)
      note IH = Cons.IH(1) [OF this]
      have none: "doc_signature d n doc = None" using None by (simp add: doc_signature_def)
      then have "eqps_with d n (doc # docs) sig = eqps_with d n docs sig" by (simp add: eqps_with_def)
      with IH none show ?thesis by (simp split: option.splits)
    next
      case (Some q)
      then have rest: "build_buckets d n docs (add_to_bucket d buckets q e) = Inr bs"
        and sig: "doc_signature d n doc = Some (effective_signature (dp_digest d) q)"
        using 1 doc by (auto simp: doc_profile_def doc_signature_def split: option.splits if_splits)
      have "eqps_with d n (doc # docs) sig =
          (if sig = effective_signature (dp_digest d) q then e # eqps_with d n docs sig else eqps_with d n docs sig)"
        using sig doc(1) by (auto simp: eqps_with_def)
      with Cons.IH(1) [OF rest] Some sig show ?thesis
        by (auto simp: add_to_bucket_lookup split: option.splits)
    qed
  next
    case 2
    then obtain e resolved where doc: "doc_eqp_id doc = Inr e"
      "dp_resolve_profile d n (dict_get doc ''eqpModel'' wildcard) e = Inr resolved"
      "build_buckets d n docs
        (case resolved of None \<Rightarrow> buckets | Some p \<Rightarrow> if \<not> p_enabled p then buckets else add_to_bucket d buckets p e) = Inr bs"
      by (auto simp: bind_res_eq_Inr)
    show ?case
      by (rule Cons.IH(2) [OF _ doc(3)]) (use 2(1) in \<open>simp add: add_to_bucket_distinct split: option.splits\<close>)
  }
qed


subsection \<open>A tick\<close>

lemma due_rules_wf:
  assumes "wf_profile p"
  shows "\<forall>r\<in>set (due_rules i p). wf_rule r" "distinct (map r_id (due_rules i p))"
  using assms by (auto simp: wf_profile_def due_rules_def list_all_iff distinct_map_filter)

text \<open>What a bucket is to report: the incidents of its due rules on the values its targets reported.\<close>

definition bucket_incidents ::
  "'w Deps \<Rightarrow> EngineSettings \<Rightarrow> string \<Rightarrow> int \<Rightarrow> datetime \<Rightarrow> bucket \<Rightarrow> (string \<times> string \<times> string) set" where
  "bucket_incidents d settings n i now b =
     {(e, pr, r_id r) | e pr r results.
        bucket_results d settings n now (fst b) (due_rules i (fst b)) (snd b) = Inr results \<and>
        r \<in> set (p_rules (fst b)) \<and> r_enabled r \<and> r_interval_minutes r = i \<and>
        rule_fires r (target_facts results (e, pr)) \<and> map_of (p_notify (fst b)) (r_notify r) \<noteq> None}"

lemma in_due_rules:
  "r \<in> set (due_rules i p) \<longleftrightarrow> r \<in> set (p_rules p) \<and> r_enabled r \<and> r_interval_minutes r = i"
  by (auto simp: due_rules_def)

lemma bucket_incidents_due:
  "bucket_incidents d settings n i now b =
     {(e, pr, r_id r) | e pr r results.
        bucket_results d settings n now (fst b) (due_rules i (fst b)) (snd b) = Inr results \<and> r \<in> set (due_rules i (fst b)) \<and>
        rule_fires r (target_facts results (e, pr)) \<and> map_of (p_notify (fst b)) (r_notify r) \<noteq> None}"
  by (simp only: bucket_incidents_def in_due_rules conj_assoc)

lemma evaluate_buckets_exact:
  assumes "is_order (es_order_targets settings)"
    and "\<forall>b\<in>set bs. wf_profile (fst b) \<and>
       (\<exists>results. bucket_results d settings n now (fst b) (due_rules i (fst b)) (snd b) = Inr results)"
  shows "\<exists>ps. evaluate_buckets d settings n i now bs = Inr ps \<and>
     incident ` set ps = (\<Union>b\<in>set bs. bucket_incidents d settings n i now b)"
proof -
  let ?f = "\<lambda>(profile, eqp_ids). if due_rules i profile = [] then Inr []
      else evaluate_bucket d settings n now profile (due_rules i profile) eqp_ids"
  have "\<exists>ps. ?f b = Inr ps \<and> incident ` set ps = bucket_incidents d settings n i now b" if b: "b \<in> set bs" for b
  proof -
    obtain p ids where b': "b = (p, ids)" by (cases b)
    from assms(2) b obtain results where res: "wf_profile p" "bucket_results d settings n now p (due_rules i p) ids = Inr results"
      by (auto simp: b')
    from bucket_exact [OF due_rules_wf [OF res(1)] assms(1) res(2)] obtain ps where
      "evaluate_bucket d settings n now p (due_rules i p) ids = Inr ps"
      "incident ` set ps = bucket_incidents d settings n i now b"
      by (auto simp: bucket_incidents_due b' res(2))
    then show ?thesis by (cases "due_rules i p = []") (auto simp: b' bucket_incidents_due)
  qed
  then have "\<exists>pss. map_res ?f bs = Inr pss \<and> list_all2 (\<lambda>b ps. incident ` set ps = bucket_incidents d settings n i now b) bs pss"
    by (intro map_res_spec) blast
  then obtain pss where pss: "map_res ?f bs = Inr pss"
    "list_all2 (\<lambda>b ps. incident ` set ps = bucket_incidents d settings n i now b) bs pss" by blast
  from pss(2) have "incident ` set (concat pss) = (\<Union>b\<in>set bs. bucket_incidents d settings n i now b)"
    by (induction rule: list_all2_induct) (auto simp: image_Un)
  with pss(1) show ?thesis by (simp add: evaluate_buckets_def)
qed

text \<open>
  C4. A tick reports exactly the incidents of its buckets. When the equipment, the profiles and the
  measures could be read, the analysis evaluates without an exception; its pending alerts are the
  incidents of the due rules, bucket by bucket; without one nothing is sent and the world is left as
  it was, and otherwise exactly these are handed to the dispatch.
\<close>
theorem tick_reports_incidents:
  assumes "dp_equipment d n = Inr docs" "docs \<noteq> []"
    and "map_res (\<lambda>doc. bind_res (doc_eqp_id doc) (\<lambda>e. Inr (e, doc))) docs = Inr entries"
    and "build_buckets d n docs [] = Inr bs" "is_order (es_order_targets settings)"
    and "\<forall>b\<in>snd ` set bs. wf_profile (fst b) \<and>
       (\<exists>results. bucket_results d settings n now (fst b) (due_rules i (fst b)) (snd b) = Inr results)"
  shows "\<exists>pending. incident ` set pending = (\<Union>b\<in>snd ` set bs. bucket_incidents d settings n i now b) \<and>
     (let result = analysis_result n i now docs (map snd bs) pending in
      do_analysis d settings n i now w =
        (if pending = [] then (Inr result, w, [], [])
         else case dispatch (dp_services d) (es_alert settings) n pending (dict_of fst snd [] entries) now w of
                (res, w', evs) \<Rightarrow> (map_sum (\<lambda>e. e) (\<lambda>_. result) res, w', breach_metrics n pending, evs)))"
proof -
  obtain pending where p: "evaluate_buckets d settings n i now (map snd bs) = Inr pending"
    "incident ` set pending = (\<Union>b\<in>set (map snd bs). bucket_incidents d settings n i now b)"
    using evaluate_buckets_exact [OF assms(5), of "map snd bs" d n now i] assms(6) by auto
  show ?thesis
  proof (intro exI [of _ pending] conjI)
    show "incident ` set pending = (\<Union>b\<in>snd ` set bs. bucket_incidents d settings n i now b)" using p(2) by simp
    show "let result = analysis_result n i now docs (map snd bs) pending in
      do_analysis d settings n i now w =
        (if pending = [] then (Inr result, w, [], [])
         else case dispatch (dp_services d) (es_alert settings) n pending (dict_of fst snd [] entries) now w of
                (res, w', evs) \<Rightarrow> (map_sum (\<lambda>e. e) (\<lambda>_. result) res, w', breach_metrics n pending, evs))"
      using assms(1-4) p(1)
      by (auto simp: do_analysis_def Let_def breach_metrics_def split: prod.splits sum.splits)
  qed
qed

text \<open>
  A tick without the lock does nothing: unless the lock was acquired, the analysis leaves the world
  alone, sends no mail and releases nothing; with it, the lock is released exactly once whatever
  the analysis did. The failure is counted under the reason of its cause.
\<close>
theorem tick_under_lock:
  "\<exists>out locks w' evs. run_analysis d settings acquired release n i now w = (out, locks, w', evs) \<and>
     (if acquired = Inr True
      then locks = [release] \<and>
        (\<forall>e. fst (do_analysis d settings n i now w) = Inl e \<longrightarrow>
           fst (job_leave task n (map_sum (\<lambda>e. e) (\<lambda>_. ()) out) s) = [JobTotal n ''failure'' (classify_failure_reason (job_error e))]) \<and>
        (w', evs) = (fst (snd (do_analysis d settings n i now w)), snd (snd (snd (do_analysis d settings n i now w))))
      else locks = [] \<and> w' = w \<and> evs = [] \<and>
        (acquired = Inr False \<longrightarrow>
           fst (job_leave task n (map_sum (\<lambda>e. e) (\<lambda>_. ()) out) s) = [JobTotal n ''failure'' ''lock_timeout'']))"
proof -
  obtain res w1 ms evs1 where do: "do_analysis d settings n i now w = (res, w1, ms, evs1)" by (metis surj_pair)
  have failure: "job_error e \<noteq> JobCancelled" for e
    by (auto simp: job_error_def split: EngineError.splits RepoError.splits)
  consider "acquired = Inr True" | "acquired = Inr False" | e where "acquired = Inl e"
    by (cases acquired) auto
  then show ?thesis
  proof cases
    case 1
    then show ?thesis
      using failure
      by (cases res) (auto simp: run_analysis_def do with_zk_lock_def Let_def job_leave_def split: JobError.splits)
  next
    case 2
    then show ?thesis
      by (simp add: run_analysis_def do with_zk_lock_def Let_def job_leave_def classify_failure_reason_def)
  next
    case 3
    then show ?thesis by (simp add: run_analysis_def do with_zk_lock_def Let_def)
  qed
qed

text \<open>
  The kazoo lock reports a timeout by raising an exception of its own instead of answering
  \<open>False\<close>; then the run is counted under \<open>other\<close>, not under \<open>lock_timeout\<close>.
\<close>
lemma raised_lock_timeout_reason:
  "fst (job_leave task n (map_sum (\<lambda>e. e) (\<lambda>_. ())
       (fst (run_analysis d settings (Inl (DriverFailure ''kazoo.exceptions'')) release n i now w))) s) =
     [JobTotal n ''failure'' ''other'']"
proof -
  have "classify_failure_reason (DriverFailure ''kazoo.exceptions'') = ''other''" by code_simp
  then show ?thesis
    by (simp add: run_analysis_def with_zk_lock_def Let_def job_leave_def split: prod.splits)
qed

subsection \<open>Instances\<close>

definition idle_services :: "unit services" where
  "idle_services = \<lparr>sv_cooling = (\<lambda>ks w. Inr []), sv_find_template = (\<lambda>a p m c sc. Inr None),
     sv_send_alert = (\<lambda>r w. (Inr True, w)), sv_set_cooldown = (\<lambda>k m w. (Inr (), w))\<rparr>"

definition sample_eqp :: eqp_doc where
  "sample_eqp = [(''eqpId'', ''E1''), (''eqpModel'', ''M1'')]"

definition sample_deps :: "unit Deps" where
  "sample_deps = \<lparr>dp_equipment = (\<lambda>_. Inr [sample_eqp]), dp_resolve_profile = (\<lambda>_ _ _. Inr (Some sample_profile)),
     dp_metric_names = (\<lambda>_ _ _. [''c_used'']), dp_search = (\<lambda>_ _. Inr sample_answer), dp_services = idle_services,
     dp_digest = (\<lambda>_. ''digest'')\<rparr>"

definition sample_engine_settings :: EngineSettings where
  "sample_engine_settings = \<lparr>es_keyword_suffix = ''.keyword'', es_alert = sample_alert_settings,
     es_order_ids = remdups, es_order_targets = remdups\<rparr>"

definition sample_results :: "(string, measure_result) dict" where
  "sample_results = [(''disk'', [((''E1'', ''@system''), [(''max'', [Some 97])])])]"

lemma sample_orders: "is_order (es_order_targets sample_engine_settings)"
  by (simp add: is_order_def sample_engine_settings_def)

lemma sample_bucket_results:
  "bucket_results sample_deps sample_engine_settings ''ETCH'' 0 sample_profile [sample_rule] [''E1''] = Inr sample_results"
  by code_simp

lemma sample_due: "due_rules 5 sample_profile = [sample_rule]"
  by (simp add: due_rules_def sample_profile_def sample_rule_def)

lemma sample_fires:
  "rule_fires sample_rule (target_facts sample_results (''E1'', ''@system''))"
  "map_of (p_notify sample_profile) (r_notify sample_rule) \<noteq> None"
proof -
  have "target_facts sample_results (''E1'', ''@system'') ''disk.max'' = [Some 97]" by code_simp
  then show "rule_fires sample_rule (target_facts sample_results (''E1'', ''@system''))"
    by (simp add: rule_fires_def sample_rule_def condition_holds_def satisfies_def)
qed (simp add: sample_profile_def sample_rule_def)

theorem evaluate_bucket_exact_witness:
  "\<exists>ps. evaluate_bucket sample_deps sample_engine_settings ''ETCH'' 0 sample_profile [sample_rule] [''E1''] = Inr ps \<and>
     (''E1'', ''@system'', ''disk_full'') \<in> incident ` set ps"
proof -
  have "r_id sample_rule = ''disk_full''" by (simp add: sample_rule_def)
  with evaluate_bucket_exact [of "[sample_rule]", OF _ _ sample_orders sample_bucket_results] sample_wf_rule sample_fires
  show ?thesis by fastforce
qed

lemma sample_doc: "doc_eqp_id sample_eqp = Inr ''E1''" "doc_profile sample_deps ''ETCH'' sample_eqp = Some sample_profile"
  by (simp_all add: doc_eqp_id_def doc_profile_def sample_eqp_def sample_deps_def sample_profile_def)

lemma sample_buckets:
  "build_buckets sample_deps ''ETCH'' [sample_eqp] [] = Inr [(''digest'', (sample_profile, [''E1'']))]"
  using sample_doc by (simp add: sample_deps_def sample_profile_def add_to_bucket_def effective_signature_def)


lemma sample_profile_wf: "wf_profile sample_profile"
  by (simp add: sample_defs wf_profile_def wf_rule_def wf_condition_def wf_measure_def measure_types_def needs_def
      measure_derive_def Let_def has_wildcard_def WILDCARD_CHARS_def wildcard_def catalog_defs)

theorem tick_reports_incidents_witness:
  "\<exists>pending. (''E1'', ''@system'', ''disk_full'') \<in> incident ` set pending \<and>
     fst (snd (snd (do_analysis sample_deps sample_engine_settings ''ETCH'' 5 0 ()))) = breach_metrics ''ETCH'' pending"
proof -
  have buckets: "\<forall>b\<in>snd ` set [(''digest'', (sample_profile, [''E1'']))]. wf_profile (fst b) \<and>
      (\<exists>results. bucket_results sample_deps sample_engine_settings ''ETCH'' 0 (fst b) (due_rules 5 (fst b)) (snd b) = Inr results)"
    using sample_profile_wf sample_due sample_bucket_results by simp
  have "dp_equipment sample_deps ''ETCH'' = Inr [sample_eqp]" "[sample_eqp] \<noteq> []"
    "map_res (\<lambda>doc. bind_res (doc_eqp_id doc) (\<lambda>e. Inr (e, doc))) [sample_eqp] = Inr [(''E1'', sample_eqp)]"
    using sample_doc(1) by (simp_all add: sample_deps_def)
  from tick_reports_incidents [OF this sample_buckets sample_orders buckets, of "()"] obtain pending where
    p: "incident ` set pending = bucket_incidents sample_deps sample_engine_settings ''ETCH'' 5 0 (sample_profile, [''E1''])"
    "do_analysis sample_deps sample_engine_settings ''ETCH'' 5 0 () =
      (if pending = [] then (Inr (analysis_result ''ETCH'' 5 0 [sample_eqp] [(sample_profile, [''E1''])] pending), (), [], [])
       else case dispatch (dp_services sample_deps) (es_alert sample_engine_settings) ''ETCH'' pending
              (dict_of fst snd [] [(''E1'', sample_eqp)]) 0 () of
              (res, w', evs) \<Rightarrow> (map_sum (\<lambda>e. e) (\<lambda>_. analysis_result ''ETCH'' 5 0 [sample_eqp] [(sample_profile, [''E1''])] pending) res,
                w', breach_metrics ''ETCH'' pending, evs))"
    by (auto simp: Let_def)
  have "r_id sample_rule = ''disk_full''" by (simp add: sample_rule_def)
  then have "(''E1'', ''@system'', ''disk_full'') \<in> incident ` set pending"
    unfolding p(1) bucket_incidents_due using sample_due sample_bucket_results sample_fires by force
  moreover from this have "pending \<noteq> []" by auto
  ultimately show ?thesis using p(2) by (auto split: prod.splits)
qed

theorem tick_under_lock_witness:
  "\<exists>out locks w' evs. run_analysis sample_deps sample_engine_settings (Inr False) LockReleased ''ETCH'' 5 0 () = (out, locks, w', evs) \<and>
     evs = [] \<and> fst (job_leave 7 ''ETCH'' (map_sum (\<lambda>e. e) (\<lambda>_. ()) out) new_AnalysisScheduler) =
       [JobTotal ''ETCH'' ''failure'' ''lock_timeout'']"
  using tick_under_lock [of sample_deps sample_engine_settings "Inr False" LockReleased "''ETCH''" 5 0 "()" 7 new_AnalysisScheduler]
  by auto

end
