(* ===== verification/Alert_Services.thy ===== *)
theory Alert_Services
  imports Dispatch
begin

text \<open>
  The services of the dispatch as the program wires them: the cooldown manager over Redis and the
  mail client, in one world. The memory of incidents the dispatch relies on is provided by the
  manager's local cache in read-only mode, and by Redis otherwise, under the laws of a reachable
  server.
\<close>

definition map_err :: "('e \<Rightarrow> 'f) \<Rightarrow> 'e + 'a \<Rightarrow> 'f + 'a" where
  "map_err f r = (case r of Inl e \<Rightarrow> Inl (f e) | Inr a \<Rightarrow> Inr a)"

type_synonym 'r alert_world = "'r AlertCooldownManager \<times> EmailAlertClient"

definition live_services ::
  "'r redis \<Rightarrow> CooldownConfig \<Rightarrow> real \<Rightarrow> (string \<Rightarrow> bool) \<Rightarrow> (json \<Rightarrow> string) \<Rightarrow> ((string, json) dict \<Rightarrow> PostOutcome) \<Rightarrow>
     (string \<Rightarrow> string \<Rightarrow> string \<Rightarrow> string \<Rightarrow> string \<Rightarrow> RepoError + template_doc option) \<Rightarrow> 'r alert_world services" where
  "live_services rd cfg clock evicted show_json post templates =
     \<lparr>sv_cooling = (\<lambda>ks w. map_err RedisFailure (is_cooling_down_batch rd cfg clock evicted ks (fst w))),
      sv_find_template = (\<lambda>a p m c sc. map_err RepoFailure (templates a p m c sc)),
      sv_send_alert = (\<lambda>r w. case send_alert (cd_debug_read_only cfg) show_json post clock r (snd w) of
                          (res, c') \<Rightarrow> (map_err MailFailure res, (fst w, c'))),
      sv_set_cooldown = (\<lambda>k mins w. case set_cooldown rd cfg clock k mins (fst w) of
                            (res, m') \<Rightarrow> (map_err RedisFailure res, (m', snd w)))\<rparr>"

lemma map_err_Inr [simp]: "map_err f r = Inr x \<longleftrightarrow> r = Inr x"
  by (auto simp: map_err_def split: sum.splits)

subsection \<open>Read-only mode\<close>

definition local_memory :: "CooldownConfig \<Rightarrow> real \<Rightarrow> 'r alert_world \<Rightarrow> CooldownKey \<Rightarrow> bool" where
  "local_memory cfg clock w k = in_local clock (\<lambda>_. False) (cooldown_make_key cfg k) (fst w)"

lemma local_after_set:
  assumes "set_cooldown rd cfg clock k mins m = (r, m')"
  shows "in_local clock (\<lambda>_. False) key m' \<longleftrightarrow> key = cooldown_make_key cfg k \<or> in_local clock (\<lambda>_. False) key m"
  using assms by (auto simp: set_cooldown_def in_local_def Let_def LOCAL_TTL_SEC_def split: if_splits sum.splits)

interpretation debug_memory: incident_memory
  "live_services rd \<lparr>cd_debug_read_only = True, cd_key_prefix = pfx\<rparr> clock (\<lambda>_. False) show_json post templates"
  "local_memory \<lparr>cd_debug_read_only = True, cd_key_prefix = pfx\<rparr> clock"
  for rd pfx clock show_json post templates
proof (unfold_locales, goal_cases)
  case (1 k m w w')
  then show ?case by (auto simp: live_services_def local_memory_def local_after_set split: prod.splits)
next
  case (2 k m w r w' k')
  then show ?case by (auto simp: live_services_def local_memory_def local_after_set split: prod.splits)
next
  case (3 a w r' w' k')
  then show ?case by (auto simp: live_services_def local_memory_def split: prod.splits)
next
  case (4 ks w d k)
  then show ?case
    by (auto simp: live_services_def local_memory_def is_cooling_down_batch_def map_of_local_batch)
qed

subsection \<open>A reachable Redis\<close>

locale redis_server =
  fixes rd :: "'r redis"
    and holds :: "'r \<Rightarrow> string set"
  assumes setex_stores: "rd_setex rd key ttl r = Inr r' \<Longrightarrow> holds r' = insert key (holds r)"
    and setex_reachable: "rd_setex rd key ttl r = Inl e \<Longrightarrow> e \<notin> set REDIS_UNAVAILABLE"
    and exists_reads: "rd_pipeline_exists rd keys r = Inr (map (\<lambda>key. if key \<in> holds r then 1 else 0) keys)"
begin

definition redis_memory :: "CooldownConfig \<Rightarrow> 'r alert_world \<Rightarrow> CooldownKey \<Rightarrow> bool" where
  "redis_memory cfg w k \<longleftrightarrow> cooldown_make_key cfg k \<in> holds (cd_redis (fst w))"

lemma set_cooldown_stores:
  assumes "set_cooldown rd cfg clock k mins m = (res, m')" "\<not> cd_debug_read_only cfg"
  shows "holds (cd_redis m') = (if isl res then holds (cd_redis m) else insert (cooldown_make_key cfg k) (holds (cd_redis m)))"
  using assms setex_stores setex_reachable
  by (auto simp: set_cooldown_def Let_def split: if_splits sum.splits)

lemma batch_reads:
  assumes "is_cooling_down_batch rd cfg clock evicted ks m = Inr d" "\<not> cd_debug_read_only cfg" "k \<in> set ks"
  shows "map_of d k = Some (cooldown_make_key cfg k \<in> holds (cd_redis m))"
  using assms
  by (auto simp: is_cooling_down_batch_def exists_reads comp_def zip_map_dict batch_lookup split: if_splits)

end

sublocale redis_server \<subseteq> live: incident_memory
  "live_services rd \<lparr>cd_debug_read_only = False, cd_key_prefix = pfx\<rparr> clock evicted show_json post templates"
  "redis_memory \<lparr>cd_debug_read_only = False, cd_key_prefix = pfx\<rparr>"
  for pfx clock evicted show_json post templates
proof (unfold_locales, goal_cases)
  case (1 k m w w')
  then show ?case by (auto simp: live_services_def redis_memory_def dest: set_cooldown_stores split: prod.splits)
next
  case (2 k m w r w' k')
  then show ?case
    by (auto simp: live_services_def redis_memory_def dest: set_cooldown_stores split: prod.splits if_splits)
next
  case (3 a w r' w' k')
  then show ?case by (auto simp: live_services_def redis_memory_def split: prod.splits)
next
  case (4 ks w d k)
  then show ?case by (auto simp: live_services_def redis_memory_def dest: batch_reads)
qed

interpretation set_server: redis_server set_redis "\<lambda>r. r"
  by unfold_locales (auto simp: set_redis_def)

context redis_server
begin

lemma mailed_not_repeated:
  assumes "dispatch (live_services rd \<lparr>cd_debug_read_only = False, cd_key_prefix = pfx\<rparr> clock evicted show_json post templates)
        settings n pending l now w = (Inr (), w1, evs)"
    and "CooldownSet k m \<in> set evs"
    and "cd_redis (fst w2) = cd_redis (fst w1)"
    and "dispatch (live_services rd \<lparr>cd_debug_read_only = False, cd_key_prefix = pfx\<rparr> clock' evicted' show_json post' templates')
        settings' n' pending' l' now' w2 = (r, w3, evs')"
  shows "SendCalled k a b \<notin> set evs'"
proof -
  have "redis_memory \<lparr>cd_debug_read_only = False, cd_key_prefix = pfx\<rparr> w1 k"
    by (rule live.dispatch_remembers [OF assms(1,2)])
  then have "redis_memory \<lparr>cd_debug_read_only = False, cd_key_prefix = pfx\<rparr> w2 k"
    using assms(3) by (simp add: redis_memory_def)
  then show ?thesis by (rule live.remembered_not_mailed [OF _ assms(4)])
qed

end

subsection \<open>No repeated mail\<close>

text \<open>
  C11. An incident whose mail was taken is not mailed again while Redis keeps its key: after a dispatch
  that ended normally and started a cooldown for a key, no later dispatch, of whatever breaches, at
  whatever time and under whatever settings, calls the mail server for that key as long as the
  Redis state it sees is the one the first dispatch left.
\<close>
theorem mailed_incident_not_repeated:
  assumes "redis_server rd holds"
    and "dispatch (live_services rd \<lparr>cd_debug_read_only = False, cd_key_prefix = pfx\<rparr> clock evicted show_json post templates)
        settings n pending l now w = (Inr (), w1, evs)"
    and "CooldownSet k m \<in> set evs"
    and "cd_redis (fst w2) = cd_redis (fst w1)"
    and "dispatch (live_services rd \<lparr>cd_debug_read_only = False, cd_key_prefix = pfx\<rparr> clock' evicted' show_json post' templates')
        settings' n' pending' l' now' w2 = (r, w3, evs')"
  shows "SendCalled k a b \<notin> set evs'"
  by (rule redis_server.mailed_not_repeated [OF assms])

definition sample_pending :: Pending where
  "sample_pending = \<lparr>pe_breach = sample_breach, pe_notify_name = ''default'', pe_channel = sample_channel, pe_window_minutes = 5\<rparr>"

definition sample_services :: "string set alert_world services" where
  "sample_services = live_services set_redis \<lparr>cd_debug_read_only = False, cd_key_prefix = ''rms''\<rparr> 0 (\<lambda>_. False) (\<lambda>_. [])
     (\<lambda>_. PostReply (JObj [(''result'', JStr ''Success'')])) (\<lambda>_ _ _ _ _. Inr None)"

definition sample_world :: "string set alert_world" where
  "sample_world = (\<lparr>cd_local = Map.empty, cd_redis = {}\<rparr>, \<lparr>http_client = True, outbox = []\<rparr>)"

definition sample_lookup :: "(string, eqp_doc) dict" where
  "sample_lookup = [(''E1'', [(''eqpId'', ''E1''), (''eqpModel'', ''M1'')])]"

definition plain_settings :: AlertSettings where
  "plain_settings = sample_alert_settings\<lparr>rms_custom_body_enabled := False\<rparr>"

definition sample_key :: CooldownKey where
  "sample_key = (''ETCH'', ''E1'', ''@system'', ''default'', ''CRITICAL'')"

lemma sample_run:
  "fst (dispatch sample_services plain_settings ''ETCH'' [sample_pending] sample_lookup 0 sample_world) = Inr ()"
  "list_ex (\<lambda>e. case e of CooldownSet k m \<Rightarrow> k = sample_key \<and> m = 30 | _ \<Rightarrow> False)
     (snd (snd (dispatch sample_services plain_settings ''ETCH'' [sample_pending] sample_lookup 0 sample_world)))"
  by code_simp+

theorem mailed_incident_not_repeated_witness:
  "\<forall>a b. SendCalled sample_key a b \<notin>
     set (snd (snd (dispatch sample_services plain_settings ''ETCH'' [sample_pending] sample_lookup 60
       (fst (snd (dispatch sample_services plain_settings ''ETCH'' [sample_pending] sample_lookup 0 sample_world))))))"
proof (intro allI)
  fix a b
  let ?run = "\<lambda>t w. dispatch sample_services plain_settings ''ETCH'' [sample_pending] sample_lookup t w"
  obtain w1 evs where first: "?run 0 sample_world = (Inr (), w1, evs)"
    using sample_run(1) by (metis prod.collapse)
  then obtain e where "e \<in> set evs" "case e of CooldownSet k m \<Rightarrow> k = sample_key \<and> m = 30 | _ \<Rightarrow> False"
    using sample_run(2) unfolding list_ex_iff by fastforce
  then have cd: "CooldownSet sample_key 30 \<in> set evs" by - (cases e, auto)
  obtain r w2 evs' where second: "?run 60 w1 = (r, w2, evs')" by (metis surj_pair)
  have "SendCalled sample_key a b \<notin> set evs'"
    by (rule mailed_incident_not_repeated [OF set_server.redis_server_axioms first [unfolded sample_services_def] cd refl
          second [unfolded sample_services_def]])
  then show "SendCalled sample_key a b \<notin> set (snd (snd (?run 60 (fst (snd (?run 0 sample_world))))))"
    by (simp add: first second)
qed

lemma sample_services_up: "services_up sample_services"
proof -
  have "reply_success (JObj [(''result'', JStr ''Success'')])" by code_simp
  then show ?thesis
    unfolding services_up_def sample_services_def live_services_def
    by (auto simp: map_err_def set_redis_def set_cooldown_def send_alert_def Let_def
        split: prod.splits sum.splits)
qed

lemma sample_cooling:
  "sv_cooling sample_services (map fst (fst (group_pending ''ETCH'' sample_lookup [sample_pending]))) sample_world =
     Inr [(sample_key, False)]"
  by code_simp

theorem dispatch_one_mail_per_key_witness:
  "\<exists>w' evs. dispatch sample_services plain_settings ''ETCH'' [sample_pending] sample_lookup 0 sample_world = (Inr (), w', evs) \<and>
     sample_key \<in> set (mail_keys evs)"
proof -
  have shown: "\<forall>p\<in>set [sample_pending]. shown p" by code_simp
  have mem: "members_of ''ETCH'' sample_lookup [sample_pending] sample_key = [sample_pending]"
    "dict_get [(sample_key, False)] sample_key False = False" by code_simp+
  from dispatch_one_mail_per_key [OF sample_services_up shown sample_cooling, of plain_settings 0] mem
  show ?thesis by fastforce
qed

end
