(* ===== verification/Connections.thy ===== *)
theory Connections
  imports Py_Strings
begin

text \<open>
  \<open>src/src/db/client.py\<close>, \<open>src/src/cache/redis_client.py\<close> and the list validator of
  \<open>src/src/config/settings.py\<close>: the connection wrappers with their bounded retries. Opening a
  driver's client and its ping are arguments on a world \<open>'w\<close>; a handle \<open>'h\<close> stands for the
  driver's client object.
\<close>

subsection \<open>Connecting with retries\<close>

datatype ConnError =
    DriverRaised string | ConnCancelled | ValueError string | AssertionError | RuntimeError string

datatype RetryEvent = RetryWarning int ConnError | Slept real

text \<open>
  The loop of \<open>connect_with_retry\<close>, in both clients: the attempt may update its state; a
  cancellation is not an \<open>Exception\<close> and passes at once.
\<close>

function connect_loop ::
  "('s \<Rightarrow> (ConnError + unit) \<times> 's) \<Rightarrow> int \<Rightarrow> real \<Rightarrow> int \<Rightarrow> ConnError option \<Rightarrow> 's \<Rightarrow>
     (ConnError + unit) \<times> 's \<times> RetryEvent list" where
  "connect_loop connect max_attempts backoff attempt last_err s =
     (if attempt > max_attempts
      then (Inl (case last_err of None \<Rightarrow> AssertionError | Some e \<Rightarrow> e), s, [])
      else case connect s of
             (Inr _, s') \<Rightarrow> (Inr (), s', [])
           | (Inl e, s') \<Rightarrow>
               if e = ConnCancelled then (Inl e, s', [])
               else (case connect_loop connect max_attempts backoff (attempt + 1) (Some e) s' of
                       (res, s'', evs) \<Rightarrow>
                         (res, s'', RetryWarning attempt e #
                            (if attempt < max_attempts then [Slept (backoff * real_of_int attempt)] else []) @ evs)))"
  by pat_completeness auto
termination
  by (relation "measure (\<lambda>(_, max_attempts, _, attempt, _). nat (max_attempts + 1 - attempt))") auto

declare connect_loop.simps [simp del]

subsection \<open>Mongo\<close>

record 'h MongoClient =
  mongo_client :: "'h option"
  mongo_db :: "('h \<times> string) option"

definition new_MongoClient :: "'h MongoClient" where
  "new_MongoClient = \<lparr>mongo_client = None, mongo_db = None\<rparr>"

definition mongo_db_property :: "'h MongoClient \<Rightarrow> ConnError + 'h \<times> string" where
  "mongo_db_property m =
     (case mongo_db m of
        None \<Rightarrow> Inl (RuntimeError ''MongoClient.connect_with_retry() must be called first'')
      | Some db \<Rightarrow> Inr db)"

definition mongo_attempt ::
  "string \<Rightarrow> ('w \<Rightarrow> (ConnError + 'h) \<times> 'w) \<Rightarrow> 'h MongoClient \<times> 'w \<Rightarrow> (ConnError + unit) \<times> 'h MongoClient \<times> 'w" where
  "mongo_attempt db open_ping mw =
     (case open_ping (snd mw) of
        (Inl e, w') \<Rightarrow> (Inl e, (fst mw, w'))
      | (Inr client, w') \<Rightarrow> (Inr (), ((fst mw)\<lparr>mongo_client := Some client, mongo_db := Some (client, db)\<rparr>, w')))"

definition mongo_connect_with_retry ::
  "string \<Rightarrow> ('w \<Rightarrow> (ConnError + 'h) \<times> 'w) \<Rightarrow> int \<Rightarrow> real \<Rightarrow> 'h MongoClient \<times> 'w \<Rightarrow>
     (ConnError + unit) \<times> ('h MongoClient \<times> 'w) \<times> RetryEvent list" where
  "mongo_connect_with_retry db open_ping max_attempts backoff =
     connect_loop (mongo_attempt db open_ping) max_attempts backoff 1 None"

text \<open>\<open>ping\<close>: any exception but a cancellation is answered by \<open>False\<close>.\<close>

definition mongo_ping :: "('h \<Rightarrow> 'w \<Rightarrow> (ConnError + unit) \<times> 'w) \<Rightarrow> 'h MongoClient \<Rightarrow> 'w \<Rightarrow> (ConnError + bool) \<times> 'w" where
  "mongo_ping ping m w =
     (case mongo_client m of
        None \<Rightarrow> (Inr False, w)
      | Some client \<Rightarrow>
          (case ping client w of
             (Inr _, w') \<Rightarrow> (Inr True, w')
           | (Inl e, w') \<Rightarrow> (if e = ConnCancelled then Inl e else Inr False, w')))"

text \<open>\<open>close\<close> drops both references whether or not the driver's close raises.\<close>

definition mongo_close :: "('h \<Rightarrow> 'w \<Rightarrow> (ConnError + unit) \<times> 'w) \<Rightarrow> 'h MongoClient \<Rightarrow> 'w \<Rightarrow> 'h MongoClient \<times> 'w" where
  "mongo_close shut m w =
     (case mongo_client m of
        None \<Rightarrow> (m, w)
      | Some client \<Rightarrow> (m\<lparr>mongo_client := None, mongo_db := None\<rparr>, snd (shut client w)))"

subsection \<open>Redis\<close>

record RedisSettings =
  redis_url :: string
  redis_password :: string
  redis_sentinels :: "string list"
  redis_sentinel_master :: string
  redis_sentinel_password :: string
  redis_db :: int

record 'h RedisClient =
  redis_client :: "'h option"
  redis_sentinel :: "(string \<times> int) list option"

definition new_RedisClient :: "'h RedisClient" where
  "new_RedisClient = \<lparr>redis_client = None, redis_sentinel = None\<rparr>"

definition redis_client_property :: "'h RedisClient \<Rightarrow> ConnError + 'h" where
  "redis_client_property c =
     (case redis_client c of
        None \<Rightarrow> Inl (RuntimeError ''RedisClient.connect() must be called first'')
      | Some h \<Rightarrow> Inr h)"

text \<open>\<open>value or None\<close> for the passwords.\<close>

definition or_none :: "string \<Rightarrow> string option" where
  "or_none s = (if s = [] then None else Some s)"

text \<open>\<open>s.rpartition(":")\<close>: what stands before and after the last colon, or nothing and the whole.\<close>

definition rpartition_colon :: "string \<Rightarrow> string \<times> bool \<times> string" where
  "rpartition_colon s =
     (let r = rev s;
          after = takeWhile (\<lambda>c. c \<noteq> CHR '':'') r;
          before = dropWhile (\<lambda>c. c \<noteq> CHR '':'') r
      in if before = [] then ([], False, s) else (rev (tl before), True, rev after))"

definition sentinel_entry :: "string \<Rightarrow> ConnError + string \<times> int" where
  "sentinel_entry entry =
     (case rpartition_colon (py_strip entry) of
        (host, sep, port) \<Rightarrow>
          (let hp = (if \<not> sep then (port, ''26379'') else (host, port))
           in case py_int (snd hp) of
                None \<Rightarrow> Inl (ValueError (snd hp))
              | Some n \<Rightarrow> Inr (fst hp, n)))"

fun sentinel_entries :: "string list \<Rightarrow> ConnError + (string \<times> int) list" where
  "sentinel_entries [] = Inr []"
| "sentinel_entries (x # xs) =
     (case sentinel_entry x of
        Inl e \<Rightarrow> Inl e
      | Inr hp \<Rightarrow> (case sentinel_entries xs of Inl e \<Rightarrow> Inl e | Inr hps \<Rightarrow> Inr (hp # hps)))"

text \<open>
  The driver: a client for a URL, or the master client of a sentinel group (the sentinels with
  their own password, the data password, the master's name and the database); both may raise.
\<close>

record ('h, 'w) redis_driver =
  rd_from_url :: "string \<Rightarrow> string option \<Rightarrow> ConnError + 'h"
  rd_master_for :: "(string \<times> int) list \<Rightarrow> string option \<Rightarrow> string option \<Rightarrow> string \<Rightarrow> int \<Rightarrow> ConnError + 'h"
  rd_ping :: "'h \<Rightarrow> 'w \<Rightarrow> (ConnError + bool) \<times> 'w"
  rd_aclose :: "'h \<Rightarrow> 'w \<Rightarrow> (ConnError + unit) \<times> 'w"

definition sentinel_master ::
  "RedisSettings \<Rightarrow> ('h, 'w) redis_driver \<Rightarrow> string option \<Rightarrow> ConnError + 'h \<times> (string \<times> int) list" where
  "sentinel_master settings drv password =
     (case sentinel_entries (redis_sentinels settings) of
        Inl e \<Rightarrow> Inl e
      | Inr sentinels \<Rightarrow>
          (case rd_master_for drv sentinels (or_none (redis_sentinel_password settings)) password
                  (redis_sentinel_master settings) (redis_db settings) of
             Inl e \<Rightarrow> Inl e
           | Inr master \<Rightarrow> Inr (master, sentinels)))"

definition redis_connect ::
  "RedisSettings \<Rightarrow> ('h, 'w) redis_driver \<Rightarrow> 'h RedisClient \<times> 'w \<Rightarrow> (ConnError + unit) \<times> 'h RedisClient \<times> 'w" where
  "redis_connect settings drv cw =
     (let password = or_none (redis_password settings)
      in case (if redis_sentinels settings \<noteq> []
               then map_sum (\<lambda>e. e) (\<lambda>(client, sentinels). (client, Some sentinels)) (sentinel_master settings drv password)
               else map_sum (\<lambda>e. e) (\<lambda>client. (client, None)) (rd_from_url drv (redis_url settings) password)) of
           Inl e \<Rightarrow> (Inl e, cw)
         | Inr (client, sentinel) \<Rightarrow>
             (case rd_ping drv client (snd cw) of
                (Inl e, w') \<Rightarrow> (Inl e, (fst cw, w'))
              | (Inr _, w') \<Rightarrow> (Inr (), ((fst cw)\<lparr>redis_client := Some client, redis_sentinel := sentinel\<rparr>, w'))))"

definition redis_connect_with_retry ::
  "RedisSettings \<Rightarrow> ('h, 'w) redis_driver \<Rightarrow> int \<Rightarrow> real \<Rightarrow> 'h RedisClient \<times> 'w \<Rightarrow>
     (ConnError + unit) \<times> ('h RedisClient \<times> 'w) \<times> RetryEvent list" where
  "redis_connect_with_retry settings drv max_attempts backoff =
     connect_loop (redis_connect settings drv) max_attempts backoff 1 None"

definition redis_ping :: "('h, 'w) redis_driver \<Rightarrow> 'h RedisClient \<Rightarrow> 'w \<Rightarrow> (ConnError + bool) \<times> 'w" where
  "redis_ping drv c w =
     (case redis_client c of
        None \<Rightarrow> (Inr False, w)
      | Some client \<Rightarrow>
          (case rd_ping drv client w of
             (Inr b, w') \<Rightarrow> (Inr b, w')
           | (Inl e, w') \<Rightarrow> (if e = ConnCancelled then Inl e else Inr False, w')))"

text \<open>
  \<open>close\<close> drops the client and then the sentinel manager; a failure of the driver's close is logged,
  a cancellation passes before the sentinels are released. \<open>close_sentinel\<close> releases the connections
  of one sentinel, its failure being collected by \<open>gather\<close>.
\<close>

definition redis_close ::
  "('h, 'w) redis_driver \<Rightarrow> (string \<times> int \<Rightarrow> 'w \<Rightarrow> 'w) \<Rightarrow> 'h RedisClient \<Rightarrow> 'w \<Rightarrow> (ConnError + unit) \<times> 'h RedisClient \<times> 'w" where
  "redis_close drv close_sentinel c w =
     (case (case redis_client c of None \<Rightarrow> (Inr (), w) | Some client \<Rightarrow> rd_aclose drv client w) of
        (outcome, w1) \<Rightarrow>
          (let c1 = c\<lparr>redis_client := None\<rparr>
           in if outcome = Inl ConnCancelled then (outcome, c1, w1)
              else (Inr (), c1\<lparr>redis_sentinel := None\<rparr>,
                    case redis_sentinel c of None \<Rightarrow> w1 | Some sentinels \<Rightarrow> fold close_sentinel sentinels w1)))"

subsection \<open>Lists in the environment\<close>

datatype 'a ConfigValue = Text string | Listed 'a

text \<open>\<open>parse_string_list\<close>; \<open>json_loads\<close> reads a JSON array (\<open>None\<close> where it raises).\<close>

definition parse_string_list ::
  "(string \<Rightarrow> string list option) \<Rightarrow> string list ConfigValue \<Rightarrow> ConnError + string list" where
  "parse_string_list json_loads v =
     (case v of
        Listed xs \<Rightarrow> Inr xs
      | Text s \<Rightarrow>
          (let stripped = py_strip s
           in if stripped = [] then Inr []
              else if starts_with stripped ''['' then
                (case json_loads stripped of None \<Rightarrow> Inl (ValueError stripped) | Some xs \<Rightarrow> Inr xs)
              else Inr (filter (\<lambda>h. h \<noteq> []) (map py_strip (split_on (CHR '','') stripped)))))"

subsection \<open>The retries are bounded\<close>

text \<open>The log of a run: a warning per failed attempt, a sleep between two attempts.\<close>

fun retry_log :: "real \<Rightarrow> int \<Rightarrow> int \<Rightarrow> ConnError list \<Rightarrow> RetryEvent list" where
  "retry_log backoff n a [] = []"
| "retry_log backoff n a (e # es) =
     RetryWarning a e # (if a < n then [Slept (backoff * real_of_int a)] else []) @ retry_log backoff n (a + 1) es"

fun slept :: "RetryEvent list \<Rightarrow> real" where
  "slept [] = 0"
| "slept (Slept secs # evs) = secs + slept evs"
| "slept (RetryWarning _ _ # evs) = slept evs"

definition loop_ends :: "int \<Rightarrow> int \<Rightarrow> ConnError option \<Rightarrow> ConnError + unit \<Rightarrow> ConnError list \<Rightarrow> bool" where
  "loop_ends n a last_err res errs \<longleftrightarrow>
     (case res of
        Inr _ \<Rightarrow> int (length errs) \<le> n - a
      | Inl e \<Rightarrow> e = ConnCancelled \<and> int (length errs) \<le> n - a \<or>
          length errs = nat (n - a + 1) \<and>
          e = (if errs = [] then (case last_err of None \<Rightarrow> AssertionError | Some e \<Rightarrow> e) else last errs))"

lemma connect_loop_log:
  assumes "connect_loop connect n backoff a last_err s = (res, s', evs)"
  shows "\<exists>errs. evs = retry_log backoff n a errs \<and> ConnCancelled \<notin> set errs \<and> loop_ends n a last_err res errs"
  using assms
proof (induction connect n backoff a last_err s arbitrary: res s' evs rule: connect_loop.induct)
  case (1 connect n backoff a last_err s)
  show ?case
  proof (cases "a > n")
    case True
    with 1 show ?thesis by (intro exI [of _ "[]"]) (auto simp: connect_loop.simps [of connect n] loop_ends_def)
  next
    case False
    obtain out s1 where c: "connect s = (out, s1)" by fastforce
    show ?thesis
    proof (cases out)
      case (Inr u)
      with 1 False c show ?thesis
        by (intro exI [of _ "[]"]) (auto simp: connect_loop.simps [of connect n] loop_ends_def)
    next
      case (Inl e)
      show ?thesis
      proof (cases "e = ConnCancelled")
        case True
        with 1 False c Inl show ?thesis
          by (intro exI [of _ "[]"]) (auto simp: connect_loop.simps [of connect n] loop_ends_def)
      next
        case other: False
        obtain res2 s2 evs2 where rec: "connect_loop connect n backoff (a + 1) (Some e) s1 = (res2, s2, evs2)"
          by (metis surj_pair)
        with 1(2) False c Inl other have evs: "res = res2"
          "evs = RetryWarning a e # (if a < n then [Slept (backoff * real_of_int a)] else []) @ evs2"
          by (simp_all add: connect_loop.simps [of connect n backoff a])
        from 1(1) [OF False c [symmetric] Inl other rec] obtain errs where
          e: "evs2 = retry_log backoff n (a + 1) errs" "ConnCancelled \<notin> set errs" "loop_ends n (a + 1) (Some e) res2 errs"
          by blast
        have "loop_ends n a last_err res (e # errs)"
          using e(3) False unfolding loop_ends_def evs(1)
          by (auto split: sum.splits if_splits simp: nat_eq_iff)
        with e other evs(2) show ?thesis by (intro exI [of _ "e # errs"]) simp
      qed
    qed
  qed
qed

lemma slept_append [simp]: "slept (xs @ ys) = slept xs + slept ys"
  by (induction xs rule: slept.induct) auto

lemma slept_log:
  assumes "0 \<le> backoff" "1 \<le> a"
  shows "slept (retry_log backoff n a errs) \<le> backoff * real_of_int (\<Sum>i\<in>{a..n - 1}. i)"
  using assms(2)
proof (induction errs arbitrary: a)
  case Nil
  then have "0 \<le> (\<Sum>i\<in>{a..n - 1}. i)" by (intro sum_nonneg) auto
  then show ?case using assms(1) by (simp add: of_int_nonneg del: of_int_sum)
next
  case (Cons e es)
  show ?case
  proof (cases "a < n")
    case True
    then have "{a..n - 1} = insert a {a + 1..n - 1}" by auto
    then have "(\<Sum>i\<in>{a..n - 1}. i) = a + (\<Sum>i\<in>{a + 1..n - 1}. i)" by simp
    with Cons.IH [of "a + 1"] Cons.prems True show ?thesis by (simp add: algebra_simps del: of_int_sum)
  next
    case False
    with Cons.IH [of "a + 1"] Cons.prems show ?thesis by (simp del: of_int_sum)
  qed
qed

lemma gauss_int:
  assumes "(1::int) \<le> n"
  shows "2 * (\<Sum>i\<in>{1..n - 1}. i) = n * (n - 1)"
  using assms
proof (induction n rule: int_ge_induct)
  case (step n)
  have "{1..n + 1 - 1} = insert n {1..n - 1}" using step.hyps by auto
  then have "(\<Sum>i\<in>{1..n + 1 - 1}. i) = n + (\<Sum>i\<in>{1..n - 1}. i)" by simp
  with step.IH show ?case by (simp add: algebra_simps)
qed simp

lemma connect_loop_bounded:
  assumes "1 \<le> n" "0 \<le> backoff" "connect_loop connect n backoff 1 None s = (res, s', evs)"
  shows "\<exists>errs. evs = retry_log backoff n 1 errs \<and> ConnCancelled \<notin> set errs \<and> int (length errs) \<le> n \<and>
     (res = Inr () \<longrightarrow> int (length errs) < n) \<and>
     (\<forall>e. res = Inl e \<and> e \<noteq> ConnCancelled \<longrightarrow> int (length errs) = n \<and> e = last errs) \<and>
     slept evs \<le> backoff * real_of_int (n * (n - 1)) / 2"
proof -
  from connect_loop_log [OF assms(3)] obtain errs where
    e: "evs = retry_log backoff n 1 errs" "ConnCancelled \<notin> set errs" "loop_ends n 1 None res errs" by blast
  have "2 * slept evs \<le> backoff * real_of_int (2 * (\<Sum>i\<in>{1..n - 1}. i))"
    using slept_log [OF assms(2), of 1 n errs] by (simp add: e(1) del: of_int_sum)
  then have "slept evs \<le> backoff * real_of_int (n * (n - 1)) / 2"
    unfolding gauss_int [OF assms(1)] by simp
  with e assms(1) show ?thesis
    by (intro exI [of _ errs]) (auto simp: loop_ends_def split: sum.splits if_splits)
qed

text \<open>
  C34. Connecting always comes to an end: with \<open>n\<close> attempts allowed, the loop makes at most \<open>n\<close>, logs
  each failure and sleeps between two attempts only, for at most \<open>backoff * n * (n - 1) / 2\<close>
  seconds altogether; it raises the last attempt's error, after exactly \<open>n\<close> failures, or passes a
  cancellation on.
\<close>
theorem connect_with_retry_bounded:
  assumes "1 \<le> n" "0 \<le> backoff" "connect_loop connect n backoff 1 None s = (res, s', evs)"
  shows "\<exists>errs. evs = retry_log backoff n 1 errs \<and> ConnCancelled \<notin> set errs \<and> int (length errs) \<le> n \<and>
     (res = Inr () \<longrightarrow> int (length errs) < n) \<and>
     (\<forall>e. res = Inl e \<and> e \<noteq> ConnCancelled \<longrightarrow> int (length errs) = n \<and> e = last errs) \<and>
     slept evs \<le> backoff * real_of_int (n * (n - 1)) / 2"
  using assms by (rule connect_loop_bounded)

subsection \<open>What a connection leaves behind\<close>

text \<open>
  What the loop relies on: a successful attempt leaves a usable client, a failed one leaves the
  wrapper as it was, so the attempt can be repeated.
\<close>

locale connector =
  fixes attempt :: "'s \<Rightarrow> (ConnError + unit) \<times> 's"
    and usable :: "'s \<Rightarrow> bool"
  assumes success: "attempt s = (Inr u, s') \<Longrightarrow> usable s'"
    and failure: "attempt s = (Inl e, s') \<Longrightarrow> usable s' \<longleftrightarrow> usable s"
begin

lemma loop_usable:
  "connect_loop attempt n backoff a last_err s = (res, s', evs) \<Longrightarrow> usable s' \<longleftrightarrow> \<not> isl res \<or> usable s"
proof (induction "nat (n + 1 - a)" arbitrary: a last_err s res s' evs rule: less_induct)
  case less
  obtain out s1 where out: "attempt s = (out, s1)" by fastforce
  note step = less.prems [unfolded connect_loop.simps [of attempt n backoff a]]
  show ?case
  proof (cases "a > n")
    case False
    then have smaller: "nat (n + 1 - (a + 1)) < nat (n + 1 - a)" by simp
    show ?thesis
    proof (cases out)
      case (Inl e)
      then have "usable s1 \<longleftrightarrow> usable s" using failure out by blast
      with step False out Inl less.hyps [OF smaller] show ?thesis by (auto split: prod.splits if_splits)
    qed (use step False out in \<open>auto dest: success\<close>)
  qed (use step in auto)
qed

end

interpretation mongo_connector: connector "mongo_attempt db open_ping" "\<lambda>mw. \<not> isl (mongo_db_property (fst mw))"
  for db open_ping
  by unfold_locales (auto simp: mongo_attempt_def mongo_db_property_def split: prod.splits sum.splits)

interpretation redis_connector: connector "redis_connect settings drv" "\<lambda>cw. \<not> isl (redis_client_property (fst cw))"
  for settings drv
  by unfold_locales
    (auto simp: redis_connect_def redis_client_property_def Let_def split: prod.splits sum.splits if_splits)

text \<open>
  With the default retries a new Mongo client is usable exactly when its connection succeeded, and
  so is a new Redis client; the sleeps of the two add up to no more than twenty and three seconds.
\<close>
theorem startup_connections:
  assumes "mongo_connect_with_retry db open_ping 5 2 (new_MongoClient, w) = (res, (m, w'), evs)"
    and "redis_connect_with_retry settings drv 3 1 (new_RedisClient, v) = (res', (c, v'), evs')"
  shows "(isl (mongo_db_property m) \<longleftrightarrow> isl res) \<and> slept evs \<le> 20 \<and>
     (isl (redis_client_property c) \<longleftrightarrow> isl res') \<and> slept evs' \<le> 3"
  using mongo_connector.loop_usable [OF assms(1) [unfolded mongo_connect_with_retry_def]]
    redis_connector.loop_usable [OF assms(2) [unfolded redis_connect_with_retry_def]]
    connect_loop_bounded [OF _ _ assms(1) [unfolded mongo_connect_with_retry_def]]
    connect_loop_bounded [OF _ _ assms(2) [unfolded redis_connect_with_retry_def]]
  by (auto simp: new_MongoClient_def new_RedisClient_def mongo_db_property_def redis_client_property_def)

subsection \<open>Reading the settings\<close>

lemma py_strip_pad:
  assumes "list_all is_space a" "list_all is_space b" "s \<noteq> []" "\<not> is_space (hd s)" "\<not> is_space (last s)"
  shows "py_strip (a @ s @ b) = s"
proof -
  have "dropWhile is_space (a @ s @ b) = s @ b"
    using assms(1,3,4) by (cases s) (simp_all add: list_all_iff dropWhile_append)
  moreover have "dropWhile is_space (rev b @ rev s) = rev s"
    using assms(2,3,5) by (cases s rule: rev_cases) (simp_all add: list_all_iff dropWhile_append)
  ultimately show ?thesis by (simp add: py_strip_def py_lstrip_def)
qed

lemma rpartition_last: "CHR '':'' \<notin> set port \<Longrightarrow> rpartition_colon (host @ CHR '':'' # port) = (host, True, port)"
  by (simp add: rpartition_colon_def takeWhile_append dropWhile_append)

lemma rpartition_none: "CHR '':'' \<notin> set s \<Longrightarrow> rpartition_colon s = ([], False, s)"
  by (auto simp: rpartition_colon_def Let_def dropWhile_eq_Nil_conv)

lemma str_of_int_no_colon: "CHR '':'' \<notin> set (str_of_int n)"
proof -
  have "\<not> is_digit (CHR '':'')" by (simp add: is_digit_def char_code_def)
  then show ?thesis using str_of_nat_digits by (auto simp: str_of_int_def)
qed

lemma str_of_int_ends: "\<not> is_space (last (str_of_int n))"
proof -
  have "last (str_of_nat k) \<in> set (str_of_nat k)" for k by (rule last_in_set) simp
  then have "is_digit (last (str_of_nat k))" for k using str_of_nat_digits by blast
  then show ?thesis by (simp add: str_of_int_def digit_not_sign(4))
qed

text \<open>
  A sentinel is read as it is written: \<open>host:port\<close>, padded with any white space, gives that host
  and port, also for a host with colons of its own, and a bare host gets the sentinel port.
\<close>
theorem sentinel_entry_roundtrip:
  assumes "list_all is_space a" "list_all is_space b" "host \<noteq> []" "\<not> is_space (hd host)" "\<not> is_space (last host)"
  shows "sentinel_entry (a @ host @ '':'' @ str_of_int port @ b) = Inr (host, port) \<and>
     (CHR '':'' \<notin> set host \<longrightarrow> sentinel_entry (a @ host @ b) = Inr (host, 26379))"
proof -
  let ?s = "host @ '':'' @ str_of_int port"
  have "py_strip (a @ ?s @ b) = ?s"
    using assms(1-4) str_of_int_ends [of port] by (intro py_strip_pad) auto
  then have "sentinel_entry (a @ ?s @ b) = Inr (host, port)"
    using rpartition_last [OF str_of_int_no_colon, of host port]
    by (simp add: sentinel_entry_def py_int_str_of_int)
  moreover have "py_int ''26379'' = Some 26379" by code_simp
  then have "sentinel_entry (a @ host @ b) = Inr (host, 26379)" if "CHR '':'' \<notin> set host"
    using py_strip_pad [OF assms] rpartition_none [OF that] by (simp add: sentinel_entry_def)
  ultimately show ?thesis by simp
qed

text \<open>A host as a list setting holds it: not blank at its ends, no comma, no opening bracket first.\<close>

definition plain_host :: "string \<Rightarrow> bool" where
  "plain_host h \<longleftrightarrow> h \<noteq> [] \<and> \<not> is_space (hd h) \<and> \<not> is_space (last h) \<and> CHR '','' \<notin> set h \<and> hd h \<noteq> CHR ''[''"

text \<open>
  A list in the environment reads back: the comma-separated form of any list of hosts yields that
  list, the JSON form what the JSON reader yields, and blank text the empty list.
\<close>
theorem string_list_roundtrip:
  assumes "list_all plain_host hs"
  shows "parse_string_list json_loads (Text (str_join '','' hs)) = Inr hs \<and>
     (list_all is_space blank \<longrightarrow> parse_string_list json_loads (Text blank) = Inr [])"
proof -
  have "py_strip blank = []" if "list_all is_space blank"
    using that by (auto simp: py_strip_def py_lstrip_def list_all_iff dest: set_dropWhileD)
  moreover have "parse_string_list json_loads (Text (str_join '','' hs)) = Inr hs"
  proof (cases hs rule: rev_cases)
    case Nil
    then show ?thesis by (simp add: parse_string_list_def py_strip_def py_lstrip_def)
  next
    case (snoc ys y)
    let ?s = "str_join '','' hs"
    have nonempty: "hs \<noteq> []" using snoc by simp
    have plain: "plain_host h" if "h \<in> set hs" for h using assms that by (simp add: list_all_iff)
    have ends: "ws \<noteq> [] \<Longrightarrow> \<forall>w\<in>set ws. plain_host w \<Longrightarrow>
        str_join '','' ws \<noteq> [] \<and> hd (str_join '','' ws) = hd (hd ws) \<and> last (str_join '','' ws) = last (last ws)" for ws
      by (induction ws rule: induct_list012) (auto simp: plain_host_def)
    have strip: "py_strip ?s = ?s"
      using ends [OF nonempty] plain nonempty by (intro py_strip_id) (auto simp: plain_host_def)
    have "hd ?s \<noteq> CHR ''[''" using ends [OF nonempty] plain nonempty by (auto simp: plain_host_def)
    then have "\<not> starts_with ?s ''[''" by (auto simp: starts_with_iff)
    moreover have "split_on (CHR '','') ?s = hs"
      using split_join [OF nonempty, of "CHR '',''"] plain by (auto simp: plain_host_def)
    moreover have "map py_strip hs = hs"
      using plain by (intro map_idI py_strip_id) (auto simp: plain_host_def)
    moreover have "filter (\<lambda>h. h \<noteq> []) hs = hs"
      using plain by (auto simp: plain_host_def intro: filter_True)
    ultimately show ?thesis
      using ends [OF nonempty] plain by (simp add: parse_string_list_def Let_def strip)
  qed
  ultimately show ?thesis by (simp add: parse_string_list_def Let_def)
qed

subsection \<open>Instances\<close>

text \<open>A server that answers from its third connection on.\<close>

definition third_time :: "nat \<Rightarrow> (ConnError + nat) \<times> nat" where
  "third_time w = (if w < 2 then Inl (DriverRaised ''refused'') else Inr w, w + 1)"

lemma third_time_run:
  "mongo_connect_with_retry ''EARS'' third_time 5 2 (new_MongoClient, 0) =
     (Inr (), (\<lparr>mongo_client = Some 2, mongo_db = Some (2, ''EARS'')\<rparr>, 3),
      retry_log 2 5 1 [DriverRaised ''refused'', DriverRaised ''refused''])"
  by (simp add: mongo_connect_with_retry_def connect_loop.simps mongo_attempt_def third_time_def new_MongoClient_def)

theorem connect_with_retry_bounded_witness:
  "\<exists>errs. retry_log 2 5 1 [DriverRaised ''refused'', DriverRaised ''refused''] = retry_log 2 5 1 errs \<and> int (length errs) < 5"
  using connect_with_retry_bounded [OF _ _ third_time_run [unfolded mongo_connect_with_retry_def]] by auto

definition down_driver :: "(unit, unit) redis_driver" where
  "down_driver = \<lparr>rd_from_url = (\<lambda>_ _. Inr ()), rd_master_for = (\<lambda>_ _ _ _ _. Inr ()),
     rd_ping = (\<lambda>_ w. (Inl (DriverRaised ''refused''), w)), rd_aclose = (\<lambda>_ w. (Inr (), w))\<rparr>"

definition sample_redis :: RedisSettings where
  "sample_redis = \<lparr>redis_url = ''redis://redis:6379/5'', redis_password = [], redis_sentinels = [],
     redis_sentinel_master = ''mymaster'', redis_sentinel_password = [], redis_db = 0\<rparr>"

lemma down_run:
  "redis_connect_with_retry sample_redis down_driver 3 1 (new_RedisClient, ()) =
     (Inl (DriverRaised ''refused''), (new_RedisClient, ()), retry_log 1 3 1 (replicate 3 (DriverRaised ''refused'')))"
  by (simp add: redis_connect_with_retry_def connect_loop.simps redis_connect_def down_driver_def sample_redis_def numeral_3_eq_3)

theorem startup_connections_witness:
  "slept (retry_log 1 3 1 (replicate 3 (DriverRaised ''refused''))) \<le> 3 \<and>
   \<not> isl (mongo_db_property \<lparr>mongo_client = Some (2::nat), mongo_db = Some (2, ''EARS'')\<rparr>)"
  using startup_connections [OF third_time_run down_run] by simp

theorem sentinel_entry_roundtrip_witness:
  "sentinel_entry ('' '' @ ''sentinel-0'' @ '':'' @ str_of_int 26380 @ []) = Inr (''sentinel-0'', 26380)"
  using sentinel_entry_roundtrip [of "'' ''" "[]" "''sentinel-0''" 26380]
  by (simp add: is_space_def char_code_def)

theorem string_list_roundtrip_witness:
  "parse_string_list (\<lambda>_. None) (Text (str_join '','' [''http://a:9200'', ''http://b:9200''])) =
     Inr [''http://a:9200'', ''http://b:9200'']"
  using string_list_roundtrip [of "[''http://a:9200'', ''http://b:9200'']" "\<lambda>_. None" "[]"]
  by (simp add: plain_host_def is_space_def char_code_def)

end
