(* ===== verification/Es_Client.thy ===== *)
theory Es_Client
  imports Es_Parser Reachability
begin

text \<open>
  \<open>src/src/es/client.py\<close>: the Elasticsearch wrapper with its caches of field types and metric
  names. The driver's calls are arguments on a world \<open>'w\<close>; a \<open>TTLCache\<close> holds a value until its
  time of expiry, unless the size bound has evicted it, which is an argument of the lookup.
\<close>

subsection \<open>A pair of caches\<close>

datatype EsExc = NotFoundError | EsTransportError string | EsCancelled

text \<open>The positive and the negative cache, each entry with its time of expiry.\<close>

record 'v DualCache =
  dc_positive :: "string \<rightharpoonup> 'v \<times> real"
  dc_negative :: "string \<rightharpoonup> real"

definition empty_cache :: "'v DualCache" where
  "empty_cache = \<lparr>dc_positive = Map.empty, dc_negative = Map.empty\<rparr>"

definition INTROSPECT_POSITIVE_TTL :: real where "INTROSPECT_POSITIVE_TTL = 600"
definition INTROSPECT_NEGATIVE_TTL :: real where "INTROSPECT_NEGATIVE_TTL = 300"
definition METRIC_NAMES_TERMS_SIZE :: int where "METRIC_NAMES_TERMS_SIZE = 1000"

definition cached_positive :: "real \<Rightarrow> (string \<Rightarrow> bool) \<Rightarrow> string \<Rightarrow> 'v DualCache \<Rightarrow> 'v option" where
  "cached_positive now evicted key c =
     (case dc_positive c key of
        None \<Rightarrow> None
      | Some (v, expires) \<Rightarrow> if now < expires \<and> \<not> evicted key then Some v else None)"

definition cached_negative :: "real \<Rightarrow> (string \<Rightarrow> bool) \<Rightarrow> string \<Rightarrow> 'v DualCache \<Rightarrow> bool" where
  "cached_negative now evicted key c =
     (case dc_negative c key of None \<Rightarrow> False | Some expires \<Rightarrow> now < expires \<and> \<not> evicted key)"

text \<open>
  The common frame of the two lookups: the positive cache, the negative cache, then the query,
  whose answer goes to the positive cache and whose failure to the negative one. The last
  component lists the queries made, with their outcome.
\<close>

definition dual_lookup ::
  "real \<Rightarrow> (string \<Rightarrow> bool) \<Rightarrow> string \<Rightarrow> 'v \<Rightarrow> ('w \<Rightarrow> (EsExc + 'v option) \<times> 'w) \<Rightarrow> 'v DualCache \<Rightarrow> 'w \<Rightarrow>
     (EsExc + 'v) \<times> 'v DualCache \<times> 'w \<times> 'v option list" where
  "dual_lookup now evicted key unknown query c w =
     (case cached_positive now evicted key c of
        Some v \<Rightarrow> (Inr v, c, w, [])
      | None \<Rightarrow>
          if cached_negative now evicted key c then (Inr unknown, c, w, [])
          else
            (case query w of
               (Inl e, w') \<Rightarrow> (Inl e, c, w', [])
             | (Inr (Some v), w') \<Rightarrow>
                 (Inr v, c\<lparr>dc_positive := (dc_positive c)(key \<mapsto> (v, now + INTROSPECT_POSITIVE_TTL))\<rparr>, w', [Some v])
             | (Inr None, w') \<Rightarrow>
                 (Inr unknown, c\<lparr>dc_negative := (dc_negative c)(key \<mapsto> now + INTROSPECT_NEGATIVE_TTL)\<rparr>, w', [None])))"

subsection \<open>The client\<close>

record EsSettings =
  es_hosts :: "string list"
  es_username :: string
  es_password :: string
  es_use_ssl :: bool
  es_request_timeout :: int
  es_max_retries :: int
  es_kw_suffix :: string

record 'h ESClient =
  es_client :: "'h option"
  es_fields :: "json DualCache"
  es_metrics :: "string list DualCache"

definition new_ESClient :: "'h ESClient" where
  "new_ESClient = \<lparr>es_client = None, es_fields = empty_cache, es_metrics = empty_cache\<rparr>"

record ('h, 'w) es_driver =
  ed_open :: "(string, json) dict \<Rightarrow> 'h"
  ed_ping :: "'h \<Rightarrow> 'w \<Rightarrow> (EsExc + bool) \<times> 'w"
  ed_close :: "'h \<Rightarrow> 'w \<Rightarrow> (EsExc + unit) \<times> 'w"
  ed_get_mapping :: "'h \<Rightarrow> string \<Rightarrow> 'w \<Rightarrow> (EsExc + json) \<times> 'w"
  ed_search :: "'h \<Rightarrow> string \<Rightarrow> json \<Rightarrow> 'w \<Rightarrow> (EsExc + json) \<times> 'w"

datatype EsStartError = EsNotConnected | EsStartupPingFailed "string list" | EsStartCancelled

definition es_client_property :: "'h ESClient \<Rightarrow> EsStartError + 'h" where
  "es_client_property c = (case es_client c of None \<Rightarrow> Inl EsNotConnected | Some h \<Rightarrow> Inr h)"

definition es_kwargs :: "EsSettings \<Rightarrow> (string, json) dict" where
  "es_kwargs s =
     [(''hosts'', strings_json (es_hosts s)), (''timeout'', jint (es_request_timeout s)),
      (''max_retries'', jint (es_max_retries s)), (''retry_on_timeout'', JBool True)]
     @ (if es_username s \<noteq> [] then [(''http_auth'', JArr [JStr (es_username s), JStr (es_password s)])] else [])
     @ (if es_use_ssl s then [(''use_ssl'', JBool True), (''verify_certs'', JBool True)] else [])"

definition es_ping :: "('h, 'w) es_driver \<Rightarrow> 'h ESClient \<Rightarrow> 'w \<Rightarrow> (EsExc + bool) \<times> 'w" where
  "es_ping drv c w =
     (case es_client c of
        None \<Rightarrow> (Inr False, w)
      | Some h \<Rightarrow>
          (case ed_ping drv h w of
             (Inr b, w') \<Rightarrow> (Inr b, w')
           | (Inl e, w') \<Rightarrow> (if e = EsCancelled then Inl e else Inr False, w')))"

text \<open>The client is set before the ping: a failed start leaves it for \<open>close\<close>.\<close>

definition es_connect ::
  "('h, 'w) es_driver \<Rightarrow> EsSettings \<Rightarrow> 'h ESClient \<Rightarrow> 'w \<Rightarrow> (EsStartError + unit) \<times> 'h ESClient \<times> 'w" where
  "es_connect drv s c w =
     (let c1 = c\<lparr>es_client := Some (ed_open drv (es_kwargs s))\<rparr>
      in case es_ping drv c1 w of
           (Inl _, w') \<Rightarrow> (Inl EsStartCancelled, c1, w')
         | (Inr True, w') \<Rightarrow> (Inr (), c1, w')
         | (Inr False, w') \<Rightarrow> (Inl (EsStartupPingFailed (es_hosts s)), c1, w'))"

text \<open>\<open>close\<close>: the reference is dropped however the driver's close ends; only a cancellation passes.\<close>

definition es_close :: "('h, 'w) es_driver \<Rightarrow> 'h ESClient \<Rightarrow> 'w \<Rightarrow> (EsExc + unit) \<times> 'h ESClient \<times> 'w" where
  "es_close drv c w =
     (case es_client c of
        None \<Rightarrow> (Inr (), c, w)
      | Some h \<Rightarrow>
          (case ed_close drv h w of
             (res, w') \<Rightarrow> (if res = Inl EsCancelled then Inl EsCancelled else Inr (), c\<lparr>es_client := None\<rparr>, w')))"

subsection \<open>Field types\<close>

text \<open>\<open>field in props\<close>: on a value that is not a container it raises.\<close>

definition jcontains :: "json \<Rightarrow> string \<Rightarrow> JsonError + bool" where
  "jcontains d k =
     (case d of
        JObj kvs \<Rightarrow> Inr (map_of kvs k \<noteq> None)
      | JArr xs \<Rightarrow> Inr (JStr k \<in> set xs)
      | JStr s \<Rightarrow> Inr (occurs_in k s)
      | _ \<Rightarrow> Inl TypeError)"

fun field_type_in :: "string \<Rightarrow> json list \<Rightarrow> JsonError + json option" where
  "field_type_in field [] = Inr None"
| "field_type_in field (idx_data # rest) =
     bind_res (jget idx_data ''mappings'' (JObj []))
       (\<lambda>mappings. bind_res (jget mappings ''properties'' (JObj []))
         (\<lambda>props. bind_res (jcontains props field)
           (\<lambda>there. if there
              then bind_res (jindex props field) (\<lambda>f. bind_res (jget f ''type'' (JStr ''text'')) (\<lambda>t. Inr (Some t)))
              else field_type_in field rest)))"

text \<open>The values of a mapping answer; a value that is no dictionary has none and raises.\<close>

definition mapping_values :: "json \<Rightarrow> JsonError + json list" where
  "mapping_values m = (case m of JObj kvs \<Rightarrow> Inr (map snd kvs) | _ \<Rightarrow> Inl AttributeError)"

text \<open>
  The query inside the handler: every exception but a cancellation, the missing client included,
  counts as no answer.
\<close>

definition query_field_type ::
  "('h, 'w) es_driver \<Rightarrow> 'h option \<Rightarrow> string \<Rightarrow> string \<Rightarrow> 'w \<Rightarrow> (EsExc + json option) \<times> 'w" where
  "query_field_type drv client index_pattern field w =
     (case client of
        None \<Rightarrow> (Inr None, w)
      | Some h \<Rightarrow>
          (case ed_get_mapping drv h index_pattern w of
             (Inl e, w') \<Rightarrow> (if e = EsCancelled then Inl e else Inr None, w')
           | (Inr mapping, w') \<Rightarrow>
               (case bind_res (mapping_values mapping) (field_type_in field) of
                  Inl _ \<Rightarrow> (Inr None, w')
                | Inr t \<Rightarrow> (Inr t, w'))))"

definition field_key :: "string \<Rightarrow> string \<Rightarrow> string" where
  "field_key index_pattern field = index_pattern @ '':'' @ field"

definition introspect_field_type ::
  "('h, 'w) es_driver \<Rightarrow> real \<Rightarrow> (string \<Rightarrow> bool) \<Rightarrow> string \<Rightarrow> string \<Rightarrow> 'h ESClient \<Rightarrow> 'w \<Rightarrow>
     (EsExc + json) \<times> 'h ESClient \<times> 'w \<times> json option list" where
  "introspect_field_type drv now evicted index_pattern field c w =
     (case dual_lookup now evicted (field_key index_pattern field) (JStr ''unknown'')
             (query_field_type drv (es_client c) index_pattern field) (es_fields c) w of
        (res, cache, w', qs) \<Rightarrow> (res, c\<lparr>es_fields := cache\<rparr>, w', qs))"

subsection \<open>Metric names\<close>

definition metric_names_body :: "string \<Rightarrow> string \<Rightarrow> string \<Rightarrow> json" where
  "metric_names_body kw category proc =
     JObj [(''size'', jint 0),
       (''query'', JObj [(''bool'', JObj [(''filter'', JArr
         (JObj [(''term'', JObj [(keyword_field CATEGORY_FIELD kw, JStr category)])] #
          (if proc \<noteq> ''*'' then [JObj [(''term'', JObj [(keyword_field PROC_FIELD kw, JStr proc)])]] else [])))])]),
       (''aggs'', JObj [(''metrics'', JObj [(''terms'', JObj
         [(''field'', JStr (keyword_field METRIC_FIELD kw)), (''size'', jint METRIC_NAMES_TERMS_SIZE)])])])]"

definition metric_names_of :: "json \<Rightarrow> JsonError + string list" where
  "metric_names_of resp =
     bind_res (jget resp ''aggregations'' (JObj []))
       (\<lambda>aggs. bind_res (jget aggs ''metrics'' (JObj []))
         (\<lambda>ms. bind_res (jget ms ''buckets'' (JArr []))
           (\<lambda>bs. bind_res (jlist bs)
             (\<lambda>buckets. bind_res (map_res (\<lambda>b. bind_res (jindex b ''key'') jstring) buckets)
               (\<lambda>keys. Inr (sort keys))))))"

definition query_metric_names ::
  "('h, 'w) es_driver \<Rightarrow> string \<Rightarrow> 'h option \<Rightarrow> string \<Rightarrow> string \<Rightarrow> string \<Rightarrow> 'w \<Rightarrow> (EsExc + string list option) \<times> 'w" where
  "query_metric_names drv kw client index_pattern category proc w =
     (case client of
        None \<Rightarrow> (Inr None, w)
      | Some h \<Rightarrow>
          (case ed_search drv h index_pattern (metric_names_body kw category proc) w of
             (Inl e, w') \<Rightarrow> (if e = EsCancelled then Inl e else Inr None, w')
           | (Inr resp, w') \<Rightarrow>
               (case metric_names_of resp of
                  Inl _ \<Rightarrow> (Inr None, w')
                | Inr names \<Rightarrow> (Inr (Some names), w'))))"

definition names_key :: "string \<Rightarrow> string \<Rightarrow> string \<Rightarrow> string" where
  "names_key index_pattern category proc = index_pattern @ '':'' @ category @ '':'' @ proc"

definition get_metric_names ::
  "('h, 'w) es_driver \<Rightarrow> string \<Rightarrow> real \<Rightarrow> (string \<Rightarrow> bool) \<Rightarrow> string \<Rightarrow> string \<Rightarrow> string \<Rightarrow> 'h ESClient \<Rightarrow> 'w \<Rightarrow>
     (EsExc + string list) \<times> 'h ESClient \<times> 'w \<times> string list option list" where
  "get_metric_names drv kw now evicted index_pattern category proc c w =
     (case dual_lookup now evicted (names_key index_pattern category proc) []
             (query_metric_names drv kw (es_client c) index_pattern category proc) (es_metrics c) w of
        (res, cache, w', qs) \<Rightarrow> (res, c\<lparr>es_metrics := cache\<rparr>, w', qs))"

subsection \<open>Cached answers come from queries\<close>

text \<open>
  A log of the queries made: time, key and outcome. A cache is backed by a log when every entry
  is the outcome of a logged query, made its time to live before the entry expires.
\<close>

type_synonym 'v query_log = "(real \<times> string \<times> 'v option) set"

definition backed :: "'v query_log \<Rightarrow> 'v DualCache \<Rightarrow> bool" where
  "backed L c \<longleftrightarrow>
     (\<forall>k v x. dc_positive c k = Some (v, x) \<longrightarrow> (x - INTROSPECT_POSITIVE_TTL, k, Some v) \<in> L) \<and>
     (\<forall>k x. dc_negative c k = Some x \<longrightarrow> (x - INTROSPECT_NEGATIVE_TTL, k, None) \<in> L)"

definition logged :: "real \<Rightarrow> string \<Rightarrow> 'v option list \<Rightarrow> 'v query_log" where
  "logged now key qs = Pair now ` Pair key ` set qs"

text \<open>An answer is recent: what a query of that key answered, within the time to live of its outcome.\<close>

definition recent :: "'v query_log \<Rightarrow> real \<Rightarrow> string \<Rightarrow> 'v \<Rightarrow> 'v \<Rightarrow> bool" where
  "recent L now key unknown v \<longleftrightarrow>
     (\<exists>t. (t, key, Some v) \<in> L \<and> now < t + INTROSPECT_POSITIVE_TTL) \<or>
     v = unknown \<and> (\<exists>t. (t, key, None) \<in> L \<and> now < t + INTROSPECT_NEGATIVE_TTL)"

lemma backed_mono: "backed L c \<Longrightarrow> L \<subseteq> L' \<Longrightarrow> backed L' c"
  unfolding backed_def by blast

lemma backed_empty: "backed L empty_cache"
  by (simp add: backed_def empty_cache_def)

lemma dual_lookup_backed:
  assumes "backed L c" "dual_lookup now ev key u q c w = (res, c', w', qs)"
  shows "backed (L \<union> logged now key qs) c'"
  using assms
  by (auto simp: dual_lookup_def backed_def logged_def
      split: option.splits if_splits prod.splits sum.splits)

lemma dual_lookup_recent:
  assumes "backed L c" "dual_lookup now ev key u q c w = (Inr v, c', w', qs)"
  shows "recent (L \<union> logged now key qs) now key u v"
proof -
  have ttl: "0 < INTROSPECT_POSITIVE_TTL" "0 < INTROSPECT_NEGATIVE_TTL"
    by (simp_all add: INTROSPECT_POSITIVE_TTL_def INTROSPECT_NEGATIVE_TTL_def)
  show ?thesis
  proof (cases "cached_positive now ev key c")
    case (Some v')
    then obtain x where x: "dc_positive c key = Some (v', x)" "now < x"
      by (auto simp: cached_positive_def split: option.splits if_splits)
    from assms(1) x(1) have "(x - INTROSPECT_POSITIVE_TTL, key, Some v') \<in> L" by (simp add: backed_def)
    moreover have "v = v'" using assms(2) Some by (simp add: dual_lookup_def)
    ultimately show ?thesis using x(2) unfolding recent_def by (intro disjI1 exI) auto
  next
    case miss: None
    show ?thesis
    proof (cases "cached_negative now ev key c")
      case True
      then obtain x where x: "dc_negative c key = Some x" "now < x"
        by (auto simp: cached_negative_def split: option.splits)
      from assms(1) x(1) have "(x - INTROSPECT_NEGATIVE_TTL, key, None) \<in> L" by (simp add: backed_def)
      moreover have "v = u" using assms(2) miss True by (simp add: dual_lookup_def)
      ultimately show ?thesis using x(2) unfolding recent_def by (intro disjI2 conjI exI) auto
    next
      case False
      with assms(2) miss ttl show ?thesis
        by (auto simp: dual_lookup_def recent_def logged_def split: option.splits prod.splits sum.splits)
    qed
  qed
qed

text \<open>The life of a client, with the logs of its queries.\<close>

record ('h, 'w) EsRun =
  run_client :: "'h ESClient"
  run_world :: 'w
  run_fields :: "json query_log"
  run_names :: "string list query_log"

inductive es_step :: "('h, 'w) es_driver \<Rightarrow> EsSettings \<Rightarrow> ('h, 'w) EsRun \<Rightarrow> ('h, 'w) EsRun \<Rightarrow> bool" for drv settings where
  step_connect: "es_connect drv settings (run_client s) (run_world s) = (res, c, w) \<Longrightarrow>
     es_step drv settings s (s\<lparr>run_client := c, run_world := w\<rparr>)"
| step_close: "es_close drv (run_client s) (run_world s) = (res, c, w) \<Longrightarrow>
     es_step drv settings s (s\<lparr>run_client := c, run_world := w\<rparr>)"
| step_introspect: "introspect_field_type drv now ev idx field (run_client s) (run_world s) = (res, c, w, qs) \<Longrightarrow>
     es_step drv settings s (s\<lparr>run_client := c, run_world := w,
       run_fields := run_fields s \<union> logged now (field_key idx field) qs\<rparr>)"
| step_names: "get_metric_names drv (es_kw_suffix settings) now ev idx category proc (run_client s) (run_world s) = (res, c, w, qs) \<Longrightarrow>
     es_step drv settings s (s\<lparr>run_client := c, run_world := w,
       run_names := run_names s \<union> logged now (names_key idx category proc) qs\<rparr>)"
| step_outside: "es_step drv settings s (s\<lparr>run_world := w\<rparr>)"

definition es_backed :: "('h, 'w) EsRun \<Rightarrow> bool" where
  "es_backed s \<longleftrightarrow> backed (run_fields s) (es_fields (run_client s)) \<and> backed (run_names s) (es_metrics (run_client s))"

definition es_initial :: "('h, 'w) EsRun \<Rightarrow> bool" where
  "es_initial s \<longleftrightarrow> run_client s = new_ESClient"

lemma es_step_backed: "es_step drv settings s s' \<Longrightarrow> es_backed s \<Longrightarrow> es_backed s'"
proof (induction rule: es_step.induct)
  case (step_introspect now ev idx field s res c w qs)
  then show ?case
    by (auto simp: introspect_field_type_def es_backed_def split: prod.splits intro: dual_lookup_backed)
next
  case (step_names now ev idx category proc s res c w qs)
  then show ?case
    by (auto simp: get_metric_names_def es_backed_def split: prod.splits intro: dual_lookup_backed)
qed (auto simp: es_connect_def es_close_def es_backed_def Let_def split: prod.splits sum.splits bool.splits option.splits)

lemma es_initial_backed: "es_initial s \<Longrightarrow> es_backed s"
  by (simp add: es_initial_def es_backed_def new_ESClient_def backed_empty)

interpretation es_cache: inductive_invariant es_initial "es_step drv settings" es_backed for drv settings
  by unfold_locales (auto intro: es_initial_backed es_step_backed)

text \<open>
  C35. Bounded staleness: at any point of a client's life, the metric names it answers are those a
  query under the same key returned less than ten minutes ago, or the empty list after a query
  that failed less than five minutes ago; likewise for the field types.
\<close>
theorem es_answers_recent:
  assumes "reachable es_initial (es_step drv settings) s"
  shows "(get_metric_names drv (es_kw_suffix settings) now ev idx category proc (run_client s) (run_world s) = (Inr names, c, w, qs) \<longrightarrow>
       recent (run_names s \<union> logged now (names_key idx category proc) qs) now (names_key idx category proc) [] names) \<and>
     (introspect_field_type drv now ev idx field (run_client s) (run_world s) = (Inr t, c', w', qs') \<longrightarrow>
       recent (run_fields s \<union> logged now (field_key idx field) qs') now (field_key idx field) (JStr ''unknown'') t)"
  using es_cache.holds [OF assms]
  by (auto simp: get_metric_names_def introspect_field_type_def es_backed_def split: prod.splits intro: dual_lookup_recent)

text \<open>
  A new index is picked up: when a lookup of metric names failed, the same lookup five minutes
  later or any time after asks the server again and answers what the server has then.
\<close>
theorem new_index_found:
  assumes "get_metric_names drv kw t ev idx category proc c w = (Inr [], c1, w1, [None])"
    and "t + 300 \<le> now" "ev (names_key idx category proc) \<longrightarrow> ev' (names_key idx category proc)"
    and "es_client c1 = Some h" "ed_search drv h idx (metric_names_body kw category proc) w2 = (Inr resp, w3)"
    and "metric_names_of resp = Inr names"
  shows "\<exists>c2. get_metric_names drv kw now ev' idx category proc c1 w2 = (Inr names, c2, w3, [Some names])"
proof -
  let ?k = "names_key idx category proc"
  from assms(1) have "cached_positive t ev ?k (es_metrics c) = None"
    and c1: "es_metrics c1 = (es_metrics c)\<lparr>dc_negative := (dc_negative (es_metrics c))(?k \<mapsto> t + INTROSPECT_NEGATIVE_TTL)\<rparr>"
    by (auto simp: get_metric_names_def dual_lookup_def split: prod.splits option.splits if_splits sum.splits)
  then have "cached_positive now ev' ?k (es_metrics c1) = None" "\<not> cached_negative now ev' ?k (es_metrics c1)"
    using assms(2,3) by (auto simp: cached_positive_def cached_negative_def INTROSPECT_NEGATIVE_TTL_def split: option.splits if_splits)
  then show ?thesis
    using assms(4-6) by (simp add: get_metric_names_def dual_lookup_def query_metric_names_def)
qed

subsection \<open>Instances\<close>

text \<open>A server whose world says whether the index exists yet.\<close>

definition rolling_driver :: "(unit, bool) es_driver" where
  "rolling_driver = \<lparr>ed_open = (\<lambda>_. ()), ed_ping = (\<lambda>_ w. (Inr True, w)), ed_close = (\<lambda>_ w. (Inr (), w)),
     ed_get_mapping = (\<lambda>_ _ w. (Inl NotFoundError, w)),
     ed_search = (\<lambda>_ _ _ w. (if w then Inr (JObj [(''aggregations'', JObj [(''metrics'', JObj [(''buckets'',
        JArr [JObj [(''key'', JStr ''b'')], JObj [(''key'', JStr ''a'')]])])])]) else Inl NotFoundError, w))\<rparr>"

definition open_client :: "unit ESClient" where
  "open_client = new_ESClient\<lparr>es_client := Some ()\<rparr>"

theorem new_index_found_witness:
  "\<exists>c2. get_metric_names rolling_driver ''.keyword'' 300 (\<lambda>_. False) ''etch_all'' ''cpu'' ''@system''
      (fst (snd (get_metric_names rolling_driver ''.keyword'' 0 (\<lambda>_. False) ''etch_all'' ''cpu'' ''@system'' open_client False))) True =
    (Inr [''a'', ''b''], c2, True, [Some [''a'', ''b'']])"
proof (rule new_index_found)
  show "get_metric_names rolling_driver ''.keyword'' 0 (\<lambda>_. False) ''etch_all'' ''cpu'' ''@system'' open_client False =
      (Inr [], fst (snd (get_metric_names rolling_driver ''.keyword'' 0 (\<lambda>_. False) ''etch_all'' ''cpu'' ''@system'' open_client False)), False, [None])"
    by (simp add: get_metric_names_def dual_lookup_def cached_positive_def cached_negative_def query_metric_names_def
        open_client_def new_ESClient_def empty_cache_def rolling_driver_def)
  show "es_client (fst (snd (get_metric_names rolling_driver ''.keyword'' 0 (\<lambda>_. False) ''etch_all'' ''cpu'' ''@system'' open_client False))) = Some ()"
    by (simp add: get_metric_names_def open_client_def split: prod.splits)
  show "ed_search rolling_driver () ''etch_all'' (metric_names_body ''.keyword'' ''cpu'' ''@system'') True =
      (Inr (JObj [(''aggregations'', JObj [(''metrics'', JObj [(''buckets'',
        JArr [JObj [(''key'', JStr ''b'')], JObj [(''key'', JStr ''a'')]])])])]), True)"
    by (simp add: rolling_driver_def)
  show "metric_names_of (JObj [(''aggregations'', JObj [(''metrics'', JObj [(''buckets'',
        JArr [JObj [(''key'', JStr ''b'')], JObj [(''key'', JStr ''a'')]])])])]) = Inr [''a'', ''b'']"
    by code_simp
qed simp_all

definition sample_es_settings :: EsSettings where
  "sample_es_settings = \<lparr>es_hosts = [''http://es:9200''], es_username = [], es_password = [], es_use_ssl = False,
     es_request_timeout = 30, es_max_retries = 3, es_kw_suffix = ''.keyword''\<rparr>"

theorem es_answers_recent_witness:
  "recent {(0, names_key ''etch_all'' ''cpu'' ''@system'', None)} 0 (names_key ''etch_all'' ''cpu'' ''@system'') ([] :: string list) []"
proof -
  let ?s = "\<lparr>run_client = new_ESClient, run_world = False, run_fields = {}, run_names = {}\<rparr>"
  have run: "reachable es_initial (es_step rolling_driver sample_es_settings) ?s"
    by (rule reachable_init) (simp add: es_initial_def)
  have ans: "get_metric_names rolling_driver (es_kw_suffix sample_es_settings) 0 (\<lambda>_. False) ''etch_all'' ''cpu'' ''@system''
      (run_client ?s) (run_world ?s) =
    (Inr [], new_ESClient\<lparr>es_metrics := empty_cache\<lparr>dc_negative := [names_key ''etch_all'' ''cpu'' ''@system'' \<mapsto> 300]\<rparr>\<rparr>,
     False, [None])"
    by (simp add: get_metric_names_def dual_lookup_def cached_positive_def cached_negative_def query_metric_names_def
        new_ESClient_def empty_cache_def INTROSPECT_NEGATIVE_TTL_def)
  from es_answers_recent [OF run, THEN conjunct1, THEN mp, OF ans] show ?thesis by (simp add: logged_def)
qed

end
