(* ===== verification/Profiles_Api.thy ===== *)
theory Profiles_Api
  imports Scheduler
begin

text \<open>
  \<open>src/src/api/profiles.py\<close>: the profile endpoints over the repository and the scheduler. A
  handler takes the state of the instance (the repository and, once started, the scheduler) and
  answers a response or the exception it raises, with the state afterwards. Request bodies are
  the models FastAPI has built from the request: their own validators have run.
\<close>

subsection \<open>Requests, responses and exceptions\<close>

record ProfileCreate =
  b_scope :: Scope
  b_enabled :: bool
  b_measures :: "Measure list"
  b_rules :: "Rule list"
  b_notify :: "(string, NotifyChannel) dict"

record ProfileReplace = ProfileCreate +
  b_expected_version :: int

record MeasureWrite =
  mw_scope :: Scope
  mw_expected_version :: int
  mw_measure :: Measure

record RuleWrite =
  rw_scope :: Scope
  rw_expected_version :: int
  rw_rule :: Rule

record NotifyWrite =
  nw_scope :: Scope
  nw_expected_version :: int
  nw_channel :: NotifyChannel

datatype ApiDetail = Detail string | IntegrityErrors "EffError list"

text \<open>
  What a handler raises: an \<open>HTTPException\<close>, an exception it does not handle (the application
  answers 500), or the cancellation of the request.
\<close>

datatype ApiRaise = HTTPException nat ApiDetail | Unhandled RepoError | RequestCancelled

fun status_code :: "ApiRaise \<Rightarrow> nat option" where
  "status_code (HTTPException n _) = Some n"
| "status_code (Unhandled _) = Some 500"
| "status_code RequestCancelled = None"

record Provenance =
  pv_measures :: "(string, string) dict"
  pv_rules :: "(string, string) dict"
  pv_notify :: "(string, string) dict"

datatype ApiResponse =
    Created string "(string, string) dict" int
  | Committed "(string, string) dict" int
  | Deleted "(string, string) dict"

record 'db ApiState =
  api_repo :: "'db ProfileRepository"
  api_scheduler :: "AnalysisScheduler option"

text \<open>The collection, the scheduler's configuration and the equipment query of \<open>reconcile\<close>.\<close>

record 'db ApiEnv =
  env_coll :: "'db collection"
  env_config :: SchedulerConfig
  env_distinct :: "'db \<Rightarrow> JobError + string list"

subsection \<open>Helpers\<close>

definition api_rank :: "Scope \<Rightarrow> nat" where
  "api_rank s =
     (if s_process s = wildcard then 0
      else if s_eqp_model s = wildcard then 1
      else if s_eqp_id s = wildcard then 2
      else 3)"

definition map_repo_error :: "RepoError \<Rightarrow> ApiRaise" where
  "map_repo_error e =
     (case e of
        ProfileVersionConflictError _ _ \<Rightarrow> HTTPException 409 (Detail ''version conflict (stale governance.version)'')
      | ProfileAlreadyExistsError _ \<Rightarrow> HTTPException 409 (Detail ''profile already exists for scope'')
      | ProfileNotFoundError _ \<Rightarrow> HTTPException 404 (Detail ''profile not found for scope'')
      | MongoUnavailableError _ \<Rightarrow> HTTPException 503 (Detail ''database unavailable'')
      | _ \<Rightarrow> HTTPException 500 (Detail ''internal error''))"

text \<open>The \<open>except\<close> clauses: which exceptions a call site maps; the others pass.\<close>

definition read_error :: "RepoError \<Rightarrow> ApiRaise" where
  "read_error e = (case e of MongoUnavailableError _ \<Rightarrow> map_repo_error e | _ \<Rightarrow> Unhandled e)"

definition commit_error :: "RepoError \<Rightarrow> ApiRaise" where
  "commit_error e =
     (case e of
        ProfileVersionConflictError _ _ \<Rightarrow> map_repo_error e
      | ProfileNotFoundError _ \<Rightarrow> map_repo_error e
      | MongoUnavailableError _ \<Rightarrow> map_repo_error e
      | _ \<Rightarrow> Unhandled e)"

definition create_error :: "RepoError \<Rightarrow> ApiRaise" where
  "create_error e =
     (case e of
        ProfileAlreadyExistsError _ \<Rightarrow> map_repo_error e
      | MongoUnavailableError _ \<Rightarrow> map_repo_error e
      | _ \<Rightarrow> Unhandled e)"

text \<open>The composed documents of an overlay: the parents stored now, with the overlay in its place.\<close>

definition compose :: "MonitorProfile list \<Rightarrow> MonitorProfile \<Rightarrow> MonitorProfile list" where
  "compose docs overlay =
     sort_key (\<lambda>p. api_rank (p_scope p)) (filter (\<lambda>d. p_scope d \<noteq> p_scope overlay) docs @ [overlay])"

definition validate_composed ::
  "'db ApiEnv \<Rightarrow> datetime \<Rightarrow> MonitorProfile \<Rightarrow> 'db ProfileRepository \<Rightarrow> ApiRaise + LintWarning list" where
  "validate_composed env now overlay r =
     (let sc = p_scope overlay
      in case collect_scope_docs (env_coll env) (s_process sc) (s_eqp_model sc) (s_eqp_id sc) r of
           Inl e \<Rightarrow> Inl (read_error e)
         | Inr docs \<Rightarrow>
             (case fold_profiles now (compose docs overlay) sc of
                Inl e \<Rightarrow> Inl (Unhandled (InvalidModel e))
              | Inr effective \<Rightarrow>
                  (let errors = validate_effective effective
                   in if errors \<noteq> [] then Inl (HTTPException 422 (IntegrityErrors errors))
                      else Inr (lint_effective effective))))"

definition load_overlay :: "'db ApiEnv \<Rightarrow> Scope \<Rightarrow> 'db ProfileRepository \<Rightarrow> ApiRaise + MonitorProfile" where
  "load_overlay env sc r =
     (case find_by_scope (env_coll env) sc r of
        Inl e \<Rightarrow> Inl (read_error e)
      | Inr None \<Rightarrow> Inl (HTTPException 404 (Detail ''profile not found for scope''))
      | Inr (Some overlay) \<Rightarrow> Inr overlay)"

definition repo_intervals :: "'db ApiEnv \<Rightarrow> 'db ProfileRepository \<Rightarrow> string \<Rightarrow> JobError + int list" where
  "repo_intervals env r p =
     (case get_scheduling_intervals (env_coll env) p r of Inl e \<Rightarrow> Inl (repo_job_error e) | Inr ivs \<Rightarrow> Inr ivs)"

definition api_reconcile :: "'db ApiEnv \<Rightarrow> 'db ProfileRepository \<Rightarrow> AnalysisScheduler \<Rightarrow> (JobError + bool) \<times> AnalysisScheduler" where
  "api_reconcile env r = reconcile (env_config env) (repo_intervals env r) (env_distinct env (database r))"

text \<open>Best effort: every failure of the reconciliation but a cancellation is swallowed.\<close>

definition trigger_reconcile :: "'db ApiEnv \<Rightarrow> 'db ApiState \<Rightarrow> (ApiRaise + unit) \<times> 'db ApiState" where
  "trigger_reconcile env st =
     (case api_scheduler st of
        None \<Rightarrow> (Inr (), st)
      | Some s \<Rightarrow>
          (case api_reconcile env (api_repo st) s of
             (Inl JobCancelled, s') \<Rightarrow> (Inl RequestCancelled, st\<lparr>api_scheduler := Some s'\<rparr>)
           | (_, s') \<Rightarrow> (Inr (), st\<lparr>api_scheduler := Some s'\<rparr>)))"

text \<open>The end of every write: reconcile, then answer.\<close>

definition finish_write ::
  "'db ApiEnv \<Rightarrow> ApiResponse \<Rightarrow> 'db ProfileRepository \<Rightarrow> 'db ApiState \<Rightarrow> (ApiRaise + ApiResponse) \<times> 'db ApiState" where
  "finish_write env resp r' st =
     (case trigger_reconcile env (st\<lparr>api_repo := r'\<rparr>) of
        (Inl e, st') \<Rightarrow> (Inl e, st')
      | (Inr _, st') \<Rightarrow> (Inr resp, st'))"

definition commit ::
  "'db ApiEnv \<Rightarrow> datetime \<Rightarrow> MonitorProfile \<Rightarrow> int \<Rightarrow> 'db ApiState \<Rightarrow> (ApiRaise + ApiResponse) \<times> 'db ApiState" where
  "commit env now overlay expected_version st =
     (case validate_composed env now overlay (api_repo st) of
        Inl e \<Rightarrow> (Inl e, st)
      | Inr _ \<Rightarrow>
          (case replace_with_version (env_coll env) now overlay expected_version (api_repo st) of
             (Inl e, r') \<Rightarrow> (Inl (commit_error e), st\<lparr>api_repo := r'\<rparr>)
           | (Inr new_version, r') \<Rightarrow>
               finish_write env (Committed (scope_to_mongo (p_scope overlay)) new_version) r' st))"

subsection \<open>Reading\<close>

definition get_overlay :: "'db ApiEnv \<Rightarrow> Scope \<Rightarrow> 'db ApiState \<Rightarrow> ApiRaise + MonitorProfile" where
  "get_overlay env sc st = load_overlay env sc (api_repo st)"

definition scope_label :: "Scope \<Rightarrow> string" where
  "scope_label s = s_process s @ ''/'' @ s_eqp_model s @ ''/'' @ s_eqp_id s"

definition label_items :: "('a \<Rightarrow> string) \<Rightarrow> (MonitorProfile \<Rightarrow> 'a list) \<Rightarrow> MonitorProfile list \<Rightarrow> (string, string) dict" where
  "label_items key items docs =
     foldl (\<lambda>d p. dict_of key (\<lambda>_. scope_label (p_scope p)) d (items p)) []
       (sort_key (\<lambda>p. api_rank (p_scope p)) docs)"

definition provenance :: "MonitorProfile list \<Rightarrow> Provenance" where
  "provenance docs =
     \<lparr>pv_measures = label_items m_id p_measures docs, pv_rules = label_items r_id p_rules docs,
      pv_notify = label_items fst p_notify docs\<rparr>"

definition get_effective ::
  "'db ApiEnv \<Rightarrow> datetime \<Rightarrow> Scope \<Rightarrow> bool \<Rightarrow> 'db ApiState \<Rightarrow> ApiRaise + MonitorProfile \<times> Provenance option" where
  "get_effective env now target with_provenance st =
     (case collect_scope_docs (env_coll env) (s_process target) (s_eqp_model target) (s_eqp_id target) (api_repo st) of
        Inl e \<Rightarrow> Inl (read_error e)
      | Inr docs \<Rightarrow>
          if docs = [] then Inl (HTTPException 404 (Detail ''no profile matches scope''))
          else (case fold_profiles now docs target of
                  Inl e \<Rightarrow> Inl (Unhandled (InvalidModel e))
                | Inr effective \<Rightarrow> Inr (effective, if with_provenance then Some (provenance docs) else None)))"

subsection \<open>Whole overlays\<close>

definition body_overlay :: "('x ProfileCreate_scheme) \<Rightarrow> Governance \<Rightarrow> MonitorProfile" where
  "body_overlay body gov =
     \<lparr>p_id = None, p_scope = b_scope body, p_enabled = b_enabled body, p_governance = gov,
      p_measures = b_measures body, p_rules = b_rules body, p_notify = b_notify body\<rparr>"

definition create_overlay ::
  "'db ApiEnv \<Rightarrow> datetime \<Rightarrow> ProfileCreate \<Rightarrow> 'db ApiState \<Rightarrow> (ApiRaise + ApiResponse) \<times> 'db ApiState" where
  "create_overlay env now body st =
     (case doc_consistency (body_overlay body (default_governance now)) of
        Inl e \<Rightarrow> (Inl (Unhandled (InvalidModel e)), st)
      | Inr overlay \<Rightarrow>
          (case validate_composed env now overlay (api_repo st) of
             Inl e \<Rightarrow> (Inl e, st)
           | Inr _ \<Rightarrow>
               (case repo_create (env_coll env) overlay (api_repo st) of
                  (Inl e, r') \<Rightarrow> (Inl (create_error e), st\<lparr>api_repo := r'\<rparr>)
                | (Inr profile_id, r') \<Rightarrow>
                    finish_write env (Created profile_id (scope_to_mongo (p_scope overlay)) 1) r' st)))"

definition replace_overlay ::
  "'db ApiEnv \<Rightarrow> datetime \<Rightarrow> ProfileReplace \<Rightarrow> 'db ApiState \<Rightarrow> (ApiRaise + ApiResponse) \<times> 'db ApiState" where
  "replace_overlay env now body st =
     (case doc_consistency (body_overlay body ((default_governance now)\<lparr>g_version := b_expected_version body\<rparr>)) of
        Inl e \<Rightarrow> (Inl (Unhandled (InvalidModel e)), st)
      | Inr overlay \<Rightarrow> commit env now overlay (b_expected_version body) st)"

definition delete_overlay ::
  "'db ApiEnv \<Rightarrow> Scope \<Rightarrow> int \<Rightarrow> 'db ApiState \<Rightarrow> (ApiRaise + ApiResponse) \<times> 'db ApiState" where
  "delete_overlay env sc version st =
     (case delete_by_scope (env_coll env) sc (Some version) (api_repo st) of
        (Inl e, r') \<Rightarrow> (Inl (commit_error e), st\<lparr>api_repo := r'\<rparr>)
      | (Inr _, r') \<Rightarrow> finish_write env (Deleted (scope_to_mongo sc)) r' st)"

subsection \<open>Items of an overlay\<close>

text \<open>Read, modify and write the overlay: the frame of the item handlers.\<close>

definition edit_overlay ::
  "'db ApiEnv \<Rightarrow> datetime \<Rightarrow> Scope \<Rightarrow> int \<Rightarrow> (MonitorProfile \<Rightarrow> ApiRaise + MonitorProfile) \<Rightarrow> 'db ApiState \<Rightarrow>
     (ApiRaise + ApiResponse) \<times> 'db ApiState" where
  "edit_overlay env now sc expected_version edit st =
     (case bind_res (load_overlay env sc (api_repo st)) edit of
        Inl e \<Rightarrow> (Inl e, st)
      | Inr overlay \<Rightarrow> commit env now overlay expected_version st)"

text \<open>The quoted id in the detail of an error.\<close>

definition item_detail :: "string \<Rightarrow> string \<Rightarrow> string \<Rightarrow> ApiDetail" where
  "item_detail kind i what = Detail (kind @ '' '' @ [CHR 0x27] @ i @ [CHR 0x27] @ '' '' @ what)"

definition mismatch_detail :: "string \<Rightarrow> string \<Rightarrow> string \<Rightarrow> ApiDetail" where
  "mismatch_detail kind path_id body_id =
     Detail (kind @ '' id mismatch: path '' @ [CHR 0x27] @ path_id @ [CHR 0x27] @ '' != body '' @ [CHR 0x27] @ body_id @ [CHR 0x27])"

fun first_index :: "('a \<Rightarrow> bool) \<Rightarrow> 'a list \<Rightarrow> nat option" where
  "first_index P [] = None"
| "first_index P (x # xs) = (if P x then Some 0 else map_option Suc (first_index P xs))"

definition add_measure ::
  "'db ApiEnv \<Rightarrow> datetime \<Rightarrow> MeasureWrite \<Rightarrow> 'db ApiState \<Rightarrow> (ApiRaise + ApiResponse) \<times> 'db ApiState" where
  "add_measure env now body =
     edit_overlay env now (mw_scope body) (mw_expected_version body)
       (\<lambda>overlay. if \<exists>m\<in>set (p_measures overlay). m_id m = m_id (mw_measure body)
                  then Inl (HTTPException 409 (item_detail ''measure'' (m_id (mw_measure body)) ''already exists''))
                  else Inr (overlay\<lparr>p_measures := p_measures overlay @ [mw_measure body]\<rparr>))"

definition update_measure ::
  "'db ApiEnv \<Rightarrow> datetime \<Rightarrow> string \<Rightarrow> MeasureWrite \<Rightarrow> 'db ApiState \<Rightarrow> (ApiRaise + ApiResponse) \<times> 'db ApiState" where
  "update_measure env now measure_id body st =
     (if m_id (mw_measure body) \<noteq> measure_id
      then (Inl (HTTPException 400 (mismatch_detail ''measure'' measure_id (m_id (mw_measure body)))), st)
      else edit_overlay env now (mw_scope body) (mw_expected_version body)
        (\<lambda>overlay. case first_index (\<lambda>m. m_id m = measure_id) (p_measures overlay) of
             None \<Rightarrow> Inl (HTTPException 404 (item_detail ''measure'' measure_id ''not found''))
           | Some idx \<Rightarrow> Inr (overlay\<lparr>p_measures := (p_measures overlay)[idx := mw_measure body]\<rparr>)) st)"

definition delete_measure ::
  "'db ApiEnv \<Rightarrow> datetime \<Rightarrow> string \<Rightarrow> Scope \<Rightarrow> int \<Rightarrow> 'db ApiState \<Rightarrow> (ApiRaise + ApiResponse) \<times> 'db ApiState" where
  "delete_measure env now measure_id sc version =
     edit_overlay env now sc version
       (\<lambda>overlay. let kept = filter (\<lambda>m. m_id m \<noteq> measure_id) (p_measures overlay)
                  in if length kept = length (p_measures overlay)
                     then Inl (HTTPException 404 (item_detail ''measure'' measure_id ''not found''))
                     else Inr (overlay\<lparr>p_measures := kept\<rparr>))"

definition add_rule ::
  "'db ApiEnv \<Rightarrow> datetime \<Rightarrow> RuleWrite \<Rightarrow> 'db ApiState \<Rightarrow> (ApiRaise + ApiResponse) \<times> 'db ApiState" where
  "add_rule env now body =
     edit_overlay env now (rw_scope body) (rw_expected_version body)
       (\<lambda>overlay. if \<exists>r\<in>set (p_rules overlay). r_id r = r_id (rw_rule body)
                  then Inl (HTTPException 409 (item_detail ''rule'' (r_id (rw_rule body)) ''already exists''))
                  else Inr (overlay\<lparr>p_rules := p_rules overlay @ [rw_rule body]\<rparr>))"

definition update_rule ::
  "'db ApiEnv \<Rightarrow> datetime \<Rightarrow> string \<Rightarrow> RuleWrite \<Rightarrow> 'db ApiState \<Rightarrow> (ApiRaise + ApiResponse) \<times> 'db ApiState" where
  "update_rule env now rule_id body st =
     (if r_id (rw_rule body) \<noteq> rule_id
      then (Inl (HTTPException 400 (mismatch_detail ''rule'' rule_id (r_id (rw_rule body)))), st)
      else edit_overlay env now (rw_scope body) (rw_expected_version body)
        (\<lambda>overlay. case first_index (\<lambda>r. r_id r = rule_id) (p_rules overlay) of
             None \<Rightarrow> Inl (HTTPException 404 (item_detail ''rule'' rule_id ''not found''))
           | Some idx \<Rightarrow> Inr (overlay\<lparr>p_rules := (p_rules overlay)[idx := rw_rule body]\<rparr>)) st)"

definition delete_rule ::
  "'db ApiEnv \<Rightarrow> datetime \<Rightarrow> string \<Rightarrow> Scope \<Rightarrow> int \<Rightarrow> 'db ApiState \<Rightarrow> (ApiRaise + ApiResponse) \<times> 'db ApiState" where
  "delete_rule env now rule_id sc version =
     edit_overlay env now sc version
       (\<lambda>overlay. let kept = filter (\<lambda>r. r_id r \<noteq> rule_id) (p_rules overlay)
                  in if length kept = length (p_rules overlay)
                     then Inl (HTTPException 404 (item_detail ''rule'' rule_id ''not found''))
                     else Inr (overlay\<lparr>p_rules := kept\<rparr>))"

definition patch_notify ::
  "'db ApiEnv \<Rightarrow> datetime \<Rightarrow> string \<Rightarrow> NotifyWrite \<Rightarrow> 'db ApiState \<Rightarrow> (ApiRaise + ApiResponse) \<times> 'db ApiState" where
  "patch_notify env now name body =
     edit_overlay env now (nw_scope body) (nw_expected_version body)
       (\<lambda>overlay. Inr (overlay\<lparr>p_notify := AList.update name (nw_channel body) (p_notify overlay)\<rparr>))"

subsection \<open>The write endpoints\<close>

datatype ApiRequest =
    PostProfile ProfileCreate | PutProfile ProfileReplace | DeleteProfile Scope int
  | PostMeasure MeasureWrite | PatchMeasure string MeasureWrite | DeleteMeasure string Scope int
  | PostRule RuleWrite | PatchRule string RuleWrite | DeleteRule string Scope int
  | PatchNotify string NotifyWrite

fun handle ::
  "'db ApiEnv \<Rightarrow> datetime \<Rightarrow> ApiRequest \<Rightarrow> 'db ApiState \<Rightarrow> (ApiRaise + ApiResponse) \<times> 'db ApiState" where
  "handle env now (PostProfile body) = create_overlay env now body"
| "handle env now (PutProfile body) = replace_overlay env now body"
| "handle env now (DeleteProfile sc version) = delete_overlay env sc version"
| "handle env now (PostMeasure body) = add_measure env now body"
| "handle env now (PatchMeasure i body) = update_measure env now i body"
| "handle env now (DeleteMeasure i sc version) = delete_measure env now i sc version"
| "handle env now (PostRule body) = add_rule env now body"
| "handle env now (PatchRule i body) = update_rule env now i body"
| "handle env now (DeleteRule i sc version) = delete_rule env now i sc version"
| "handle env now (PatchNotify name body) = patch_notify env now name body"

fun req_scope :: "ApiRequest \<Rightarrow> Scope" where
  "req_scope (PostProfile body) = b_scope body"
| "req_scope (PutProfile body) = b_scope body"
| "req_scope (DeleteProfile sc version) = sc"
| "req_scope (PostMeasure body) = mw_scope body"
| "req_scope (PatchMeasure i body) = mw_scope body"
| "req_scope (DeleteMeasure i sc version) = sc"
| "req_scope (PostRule body) = rw_scope body"
| "req_scope (PatchRule i body) = rw_scope body"
| "req_scope (DeleteRule i sc version) = sc"
| "req_scope (PatchNotify name body) = nw_scope body"

text \<open>The version a request expects, where it edits or deletes a document.\<close>

fun req_version :: "ApiRequest \<Rightarrow> int option" where
  "req_version (PostProfile body) = None"
| "req_version (PutProfile body) = Some (b_expected_version body)"
| "req_version (DeleteProfile sc version) = Some version"
| "req_version (PostMeasure body) = Some (mw_expected_version body)"
| "req_version (PatchMeasure i body) = Some (mw_expected_version body)"
| "req_version (DeleteMeasure i sc version) = Some version"
| "req_version (PostRule body) = Some (rw_expected_version body)"
| "req_version (PatchRule i body) = Some (rw_expected_version body)"
| "req_version (DeleteRule i sc version) = Some version"
| "req_version (PatchNotify name body) = Some (nw_expected_version body)"

fun is_delete :: "ApiRequest \<Rightarrow> bool" where
  "is_delete (DeleteProfile sc version) = True"
| "is_delete _ = False"

lemma scope_body_overlay [simp]: "p_scope (body_overlay body gov) = b_scope body"
  by (simp add: body_overlay_def)

subsection \<open>The composed documents are the ancestors after the write\<close>

text \<open>A scope that its own cascade reaches: no specific field below a wildcard.\<close>

definition regular_scope :: "Scope \<Rightarrow> bool" where
  "regular_scope s \<longleftrightarrow>
     (s_process s = wildcard \<longrightarrow> s_eqp_model s = wildcard) \<and> (s_eqp_model s = wildcard \<longrightarrow> s_eqp_id s = wildcard)"

abbreviation stored :: "('db \<Rightarrow> MonitorProfile list) \<Rightarrow> 'db ApiState \<Rightarrow> MonitorProfile list" where
  "stored docs st \<equiv> docs (database (api_repo st))"

abbreviation scope_ancestors :: "MonitorProfile list \<Rightarrow> Scope \<Rightarrow> MonitorProfile list" where
  "scope_ancestors ds s \<equiv> ancestors ds (s_process s) (s_eqp_model s) (s_eqp_id s)"

text \<open>What the fold and the checks see of a document.\<close>

definition behaviour :: "MonitorProfile \<Rightarrow> bool \<times> Measure list \<times> Rule list \<times> (string, NotifyChannel) dict" where
  "behaviour p = (p_enabled p, p_measures p, p_rules p, p_notify p)"

lemma foldl_behaviour:
  "foldl merge_measures d ps = foldl (\<lambda>d b. dict_of m_id (\<lambda>m. m) d (fst (snd b))) d (map behaviour ps)"
  "foldl merge_rules e ps =
     foldl (\<lambda>e b. dict_of r_id (\<lambda>r. r\<lparr>r_enabled := fst b \<and> r_enabled r\<rparr>) e (fst (snd (snd b)))) e (map behaviour ps)"
  "foldl merge_notify f ps = foldl (\<lambda>f b. dict_of fst snd f (snd (snd (snd b)))) f (map behaviour ps)"
  by (induction ps arbitrary: d e f)
    (simp_all add: merge_measures_def merge_rules_def merge_notify_def behaviour_def bake_rule_def [abs_def])

lemma validate_effective_cong:
  assumes "p_measures p = p_measures q" "p_rules p = p_rules q" "p_notify p = p_notify q"
  shows "validate_effective p = validate_effective q"
proof -
  have "rule_errors p = rule_errors q"
    by (simp add: rule_errors_def measures_by_id_def assms fun_eq_iff)
  then show ?thesis by (simp add: validate_effective_def assms)
qed

lemma validate_fold_behaviour:
  assumes "map behaviour ps = map behaviour qs"
    and "fold_profiles now ps s = Inr e" "fold_profiles now' qs s' = Inr e'"
  shows "validate_effective e = validate_effective e'"
  using assms(2,3)
  by (intro validate_effective_cong) (auto simp: fold_profiles_eq foldl_behaviour assms(1))

lemma api_rank_specificity: "api_rank = specificity_rank"
  by (simp add: fun_eq_iff api_rank_def specificity_rank_def)

lemma cascade_ends_at_scope:
  assumes "regular_scope s"
  obtains front where "cascade_triples (s_process s) (s_eqp_model s) (s_eqp_id s) = front @ [s]"
proof -
  have "s = mk_scope (s_process s) (s_eqp_model s) (s_eqp_id s)" by (simp add: mk_scope_def)
  moreover have "\<exists>front. cascade_triples p m e = front @ [mk_scope p m e]"
    if "p = wildcard \<longrightarrow> m = wildcard" "m = wildcard \<longrightarrow> e = wildcard" for p m e
    using that by (auto simp: cascade_triples_def dedupe_def mk_scope_def)
  ultimately show ?thesis using assms that unfolding regular_scope_def by metis
qed

lemma compose_is_ancestors:
  assumes reg: "regular_scope (p_scope overlay)"
    and after: "\<And>t. doc_at ds' t = (if t = p_scope overlay then Some q else doc_at ds t)"
    and q: "behaviour q = behaviour overlay"
  shows "map behaviour (scope_ancestors ds' (p_scope overlay)) =
     map behaviour (compose (scope_ancestors ds (p_scope overlay)) overlay)"
proof -
  define s where "s = p_scope overlay"
  obtain front where front: "cascade_triples (s_process s) (s_eqp_model s) (s_eqp_id s) = front @ [s]"
    using cascade_ends_at_scope reg by (metis s_def)
  have ranks: "sorted_wrt (<) (map specificity_rank (front @ [s]))" "distinct (front @ [s])"
    using cascade_triples_rank [of "s_process s" "s_eqp_model s" "s_eqp_id s"] by (simp_all add: front)
  let ?up = "List.map_filter (doc_at ds) front"
  have scopes: "map p_scope ?up = filter (\<lambda>t. t \<in> p_scope ` set ds) front"
    using map_key_lookup [of p_scope ds front] by (simp add: doc_at_def [abs_def])
  have "set (map p_scope ?up) \<subseteq> set front" unfolding scopes by auto
  then have not_s: "\<forall>d\<in>set ?up. p_scope d \<noteq> s" using ranks(2) by auto
  have here: "set (List.map_filter (doc_at ds) [s]) \<subseteq> {d. p_scope d = s}"
    by (auto simp: List.map_filter_def doc_at_def dest: find_Some_in split: option.splits)
  have "filter (\<lambda>d. p_scope d \<noteq> s) (ancestors ds (s_process s) (s_eqp_model s) (s_eqp_id s)) = ?up"
    using not_s here by (simp add: ancestors_def front map_filter_append filter_empty_conv subset_iff)
  moreover have "sorted (map (\<lambda>p. api_rank (p_scope p)) (?up @ [overlay]))"
  proof -
    have "map (\<lambda>p. api_rank (p_scope p)) (?up @ [overlay]) =
        map specificity_rank (filter (\<lambda>t. t \<in> p_scope ` set ds) front @ [s])"
      unfolding scopes [symmetric] by (simp add: api_rank_specificity s_def)
    moreover have "sorted_wrt (<) (map specificity_rank (filter (\<lambda>t. t \<in> p_scope ` set ds) front @ [s]))"
      using ranks(1) by (auto simp: sorted_wrt_append sorted_wrt_map intro: sorted_wrt_filter)
    ultimately show ?thesis by (metis strict_sorted_iff)
  qed
  ultimately have composed: "compose (scope_ancestors ds s) overlay = ?up @ [overlay]"
    by (simp add: compose_def s_def [symmetric] sorted_sort_id sort_key_id_if_sorted)
  have "List.map_filter (doc_at ds') front = ?up"
    using ranks(2) after unfolding s_def [symmetric] by (intro map_filter_cong) auto
  moreover have "doc_at ds' s = Some q" by (simp add: after s_def)
  ultimately have "scope_ancestors ds' s = ?up @ [q]"
    by (simp add: ancestors_def front map_filter_append List.map_filter_simps)
  with composed show ?thesis by (simp add: s_def [symmetric] q)
qed

subsection \<open>The outcome of a write\<close>

text \<open>The driver's promises, for the environment of the handlers.\<close>

definition env_ok :: "'db ApiEnv \<Rightarrow> ('db \<Rightarrow> MonitorProfile list) \<Rightarrow> bool" where
  "env_ok env docs \<longleftrightarrow> mongo_reads_ok (env_coll env) docs \<and> mongo_writes_ok (env_coll env) docs"

lemma finish_write_repo: "api_repo (snd (finish_write env resp r' st)) = r'"
  by (auto simp: finish_write_def trigger_reconcile_def split: option.splits prod.splits sum.splits JobError.splits)

lemma finish_write_result: "fst (finish_write env resp r' st) \<in> {Inr resp, Inl RequestCancelled}"
  by (auto simp: finish_write_def trigger_reconcile_def split: option.splits prod.splits sum.splits JobError.splits)

lemma validate_composed_clean:
  assumes "env_ok env docs" "unique_scopes (docs (database r))" "validate_composed env now overlay r = Inr ws"
  shows "\<exists>e. fold_profiles now (compose (scope_ancestors (docs (database r)) (p_scope overlay)) overlay) (p_scope overlay) = Inr e \<and>
     validate_effective e = []"
proof -
  let ?s = "p_scope overlay"
  from assms(3) obtain ds e where ds: "collect_scope_docs (env_coll env) (s_process ?s) (s_eqp_model ?s) (s_eqp_id ?s) r = Inr ds"
    "fold_profiles now (compose ds overlay) ?s = Inr e" "validate_effective e = []"
    by (auto simp: validate_composed_def Let_def split: sum.splits if_splits)
  moreover have "ds = scope_ancestors (docs (database r)) ?s"
    using ds(1) assms(1,2) sort_ancestors [of "docs (database r)"]
    by (auto simp: env_ok_def collect_scope_docs_def mongo_reads_ok_def split: sum.splits)
  ultimately show ?thesis by blast
qed

text \<open>What a successful write leaves: the document at its scope, and every other one as before.\<close>

definition put_doc :: "('db \<Rightarrow> MonitorProfile list) \<Rightarrow> MonitorProfile \<Rightarrow> 'db ApiState \<Rightarrow> 'db ApiState \<Rightarrow> bool" where
  "put_doc docs q st st' \<longleftrightarrow>
     (\<forall>t. doc_at (stored docs st') t = (if t = p_scope q then Some q else doc_at (stored docs st) t)) \<and>
     unique_scopes (stored docs st')"

text \<open>
  A write is refused, and nothing has changed, or it has put a document that passed the check of
  the composed profile and only the reconciliation is left.
\<close>

definition refused :: "('db \<Rightarrow> MonitorProfile list) \<Rightarrow> 'db ApiState \<Rightarrow> (ApiRaise + ApiResponse) \<times> 'db ApiState \<Rightarrow> bool" where
  "refused docs st out \<longleftrightarrow>
     (\<exists>e. fst out = Inl e \<and> e \<noteq> RequestCancelled) \<and> stored docs (snd out) = stored docs st \<and>
     api_scheduler (snd out) = api_scheduler st"

definition written ::
  "'db ApiEnv \<Rightarrow> datetime \<Rightarrow> ('db \<Rightarrow> MonitorProfile list) \<Rightarrow> Scope \<Rightarrow> int \<Rightarrow> 'db ApiState \<Rightarrow>
     (ApiRaise + ApiResponse) \<times> 'db ApiState \<Rightarrow> bool" where
  "written env now docs sc version st out \<longleftrightarrow>
     (\<exists>overlay q ws resp r'. p_scope overlay = sc \<and> validate_composed env now overlay (api_repo st) = Inr ws \<and>
        behaviour q = behaviour overlay \<and> p_scope q = sc \<and> g_version (p_governance q) = version \<and>
        put_doc docs q st (snd out) \<and> out = finish_write env resp r' st)"

lemma not_cancelled [simp]:
  "read_error e \<noteq> RequestCancelled" "commit_error e \<noteq> RequestCancelled" "create_error e \<noteq> RequestCancelled"
  by (simp_all add: read_error_def commit_error_def create_error_def map_repo_error_def split: RepoError.splits)

lemma validate_refused: "validate_composed env now overlay r = Inl e \<Longrightarrow> e \<noteq> RequestCancelled"
  by (auto simp: validate_composed_def Let_def split: sum.splits if_splits)

lemma create_cases:
  assumes "env_ok env docs" "unique_scopes (stored docs st)"
  shows "refused docs st (create_overlay env now body st) \<or>
     doc_at (stored docs st) (b_scope body) = None \<and>
     written env now docs (b_scope body) 1 st (create_overlay env now body st)"
proof -
  let ?o = "body_overlay body (default_governance now)"
  show ?thesis
  proof (cases "doc_consistency ?o")
    case (Inl e)
    then show ?thesis by (simp add: create_overlay_def refused_def)
  next
    case (Inr o')
    then have cons: "doc_consistency ?o = Inr ?o" by (simp add: doc_consistency_def split: if_splits)
    show ?thesis
    proof (cases "validate_composed env now ?o (api_repo st)")
      case (Inl e)
      with validate_refused [OF Inl] show ?thesis by (simp add: create_overlay_def cons refused_def)
    next
      case ws: (Inr ws)
      show ?thesis
      proof (cases "insert_one (env_coll env) ?o (database (api_repo st))")
        case (Inl e)
        then show ?thesis by (simp add: create_overlay_def cons ws repo_create_def refused_def)
      next
        case (Inr res)
        then obtain i db' where ins: "insert_one (env_coll env) ?o (database (api_repo st)) = Inr (i, db')" by (cases res) simp
        then have fin: "create_overlay env now body st = finish_write env (Created i (scope_to_mongo (p_scope ?o)) 1)
             \<lparr>database = db', resolve_cache = Map.empty\<rparr> st"
          by (simp add: create_overlay_def cons ws repo_create_def)
        let ?q = "?o\<lparr>p_id := Some i\<rparr>"
        from assms(1) have w: "mongo_writes_ok (env_coll env) docs" by (simp add: env_ok_def)
        note new = mongo_insertD [OF w ins]
        have "put_doc docs ?q st (snd (create_overlay env now body st))"
          using new unique_append [of "stored docs st" ?q] assms(2)
          by (auto simp: put_doc_def doc_at_append fin finish_write_repo split: option.splits)
        moreover have "g_version (p_governance ?q) = 1" by (simp add: body_overlay_def default_governance_def)
        ultimately have "written env now docs (b_scope body) 1 st (create_overlay env now body st)"
          unfolding written_def using ws fin
          by (intro exI [of _ ?o] exI [of _ ?q] exI [of _ ws] exI) (simp add: behaviour_def)
        with new(1) show ?thesis by simp
      qed
    qed
  qed
qed

lemma commit_cases:
  assumes "env_ok env docs" "unique_scopes (stored docs st)"
  shows "refused docs st (commit env now overlay v st) \<or>
     (\<exists>d. doc_at (stored docs st) (p_scope overlay) = Some d \<and> g_version (p_governance d) = v) \<and>
     written env now docs (p_scope overlay) (v + 1) st (commit env now overlay v st)"
proof -
  let ?p = "versioned_doc overlay (v + 1) now"
  let ?upd = "update_one (env_coll env) (p_scope ?p) v ?p (database (api_repo st))"
  from assms(1) have w: "mongo_writes_ok (env_coll env) docs" by (simp add: env_ok_def)
  show ?thesis
  proof (cases "validate_composed env now overlay (api_repo st)")
    case (Inl e)
    with validate_refused [OF Inl] show ?thesis by (simp add: commit_def refused_def)
  next
    case ws: (Inr ws)
    show ?thesis
    proof (cases ?upd)
      case (Inl e)
      then show ?thesis by (simp add: commit_def ws replace_with_version_def Let_def refused_def)
    next
      case (Inr res)
      then obtain k db' where upd: "?upd = Inr (k, db')" by (cases res) simp
      show ?thesis
      proof (cases "k = 0")
        case True
        from mongo_update_cases [OF w upd] upd True show ?thesis
          by cases (simp_all add: commit_def ws replace_with_version_def Let_def refused_def)
      next
        case False
        with upd have fin: "commit env now overlay v st = finish_write env (Committed (scope_to_mongo (p_scope overlay)) (v + 1))
             \<lparr>database = db', resolve_cache = Map.empty\<rparr> st"
          by (simp add: commit_def ws replace_with_version_def Let_def)
        from mongo_updateD [OF w upd] False obtain d where d: "doc_at (stored docs st) (p_scope overlay) = Some d"
          "g_version (p_governance d) = v" "docs db' = replace_doc ?p (stored docs st)"
          by (auto simp: version_matches_def split: option.splits if_splits)
        let ?q = "?p\<lparr>p_id := p_id d\<rparr>"
        have "put_doc docs ?q st (snd (commit env now overlay v st))"
          using d assms(2) by (simp add: put_doc_def doc_at_replace fin finish_write_repo)
        then have "written env now docs (p_scope overlay) (v + 1) st (commit env now overlay v st)"
          unfolding written_def using ws fin
          by (intro exI [of _ overlay] exI [of _ ?q] exI [of _ ws] exI) (simp add: behaviour_def versioned_doc_def)
        with d show ?thesis by blast
      qed
    qed
  qed
qed

lemma delete_cases:
  assumes "env_ok env docs" "unique_scopes (stored docs st)"
  shows "refused docs st (delete_overlay env sc v st) \<or>
     (\<exists>d. doc_at (stored docs st) sc = Some d \<and> g_version (p_governance d) = v) \<and>
     stored docs (snd (delete_overlay env sc v st)) = filter (\<lambda>q. p_scope q \<noteq> sc) (stored docs st) \<and>
     (\<exists>resp r'. delete_overlay env sc v st = finish_write env resp r' st)"
proof -
  let ?del = "delete_one (env_coll env) sc (Some v) (database (api_repo st))"
  from assms(1) have w: "mongo_writes_ok (env_coll env) docs" by (simp add: env_ok_def)
  show ?thesis
  proof (cases ?del)
    case (Inl e)
    then show ?thesis by (simp add: delete_overlay_def delete_by_scope_def refused_def)
  next
    case (Inr res)
    then obtain k db' where del: "?del = Inr (k, db')" by (cases res) simp
    show ?thesis
    proof (cases "k = 0")
      case True
      from mongo_delete_cases [OF w del] del True show ?thesis
        by cases (simp_all add: delete_overlay_def delete_by_scope_def refused_def)
    next
      case False
      with del have fin: "delete_overlay env sc v st =
          finish_write env (Deleted (scope_to_mongo sc)) \<lparr>database = db', resolve_cache = Map.empty\<rparr> st"
        by (simp add: delete_overlay_def delete_by_scope_def)
      from mongo_deleteD [OF w del] False show ?thesis
        unfolding fin by (auto simp: version_matches_def finish_write_repo split: option.splits if_splits)
    qed
  qed
qed

text \<open>
  Every editing handler is a commit of some overlay at the request's scope, under the version the
  request expects, or raises before anything is written.
\<close>

lemma load_scope:
  assumes "env_ok env docs" "load_overlay env sc r = Inr overlay"
  shows "p_scope overlay = sc"
proof -
  from assms(2) have "find_one (env_coll env) sc (database r) = Inr (Some overlay)"
    by (auto simp: load_overlay_def find_by_scope_def split: sum.splits option.splits)
  with assms(1) have "doc_at (docs (database r)) sc = Some overlay" by (auto simp: env_ok_def mongo_reads_ok_def)
  then show ?thesis by (auto simp: doc_at_def dest: find_Some_in)
qed

lemma edit_is_commit:
  assumes "env_ok env docs" "\<And>o1 o2. edit o1 = Inr o2 \<Longrightarrow> p_scope o2 = p_scope o1"
    "\<And>o1 e. edit o1 = Inl e \<Longrightarrow> e \<noteq> RequestCancelled"
  shows "refused docs st (edit_overlay env now sc v edit st) \<or>
     (\<exists>overlay. p_scope overlay = sc \<and> edit_overlay env now sc v edit st = commit env now overlay v st)"
proof (cases "bind_res (load_overlay env sc (api_repo st)) edit")
  case (Inr o2)
  then obtain o1 where "load_overlay env sc (api_repo st) = Inr o1" "edit o1 = Inr o2"
    by (auto simp: bind_res_eq_Inr)
  then have "p_scope o2 = sc" using load_scope [OF assms(1)] assms(2) by blast
  with Inr show ?thesis by (auto simp: edit_overlay_def)
next
  case (Inl e)
  then have "e \<noteq> RequestCancelled"
    using assms(3)
    by (auto simp: bind_res_def load_overlay_def split: sum.splits option.splits)
  with Inl show ?thesis by (simp add: edit_overlay_def refused_def)
qed

lemma handle_is_commit:
  assumes "env_ok env docs" "req_version req = Some v" "\<not> is_delete req"
  shows "refused docs st (handle env now req st) \<or>
     (\<exists>overlay. p_scope overlay = req_scope req \<and> handle env now req st = commit env now overlay v st)"
proof (cases req)
  case (PutProfile body)
  let ?o = "body_overlay body ((default_governance now)\<lparr>g_version := b_expected_version body\<rparr>)"
  show ?thesis
  proof (cases "doc_consistency ?o")
    case (Inl e)
    then show ?thesis by (simp add: PutProfile replace_overlay_def refused_def)
  next
    case (Inr o')
    then have "doc_consistency ?o = Inr ?o" by (simp add: doc_consistency_def split: if_splits)
    with assms(2) show ?thesis
      by (intro disjI2 exI [of _ ?o]) (simp add: PutProfile replace_overlay_def)
  qed
next
  case (PostMeasure body)
  then have v: "v = mw_expected_version body" using assms(2) by simp
  show ?thesis
    unfolding PostMeasure v handle.simps req_scope.simps add_measure_def
    by (rule edit_is_commit [OF assms(1)]) (auto simp: Let_def split: if_splits)
next
  case (PatchMeasure i body)
  then have v: "v = mw_expected_version body" using assms(2) by simp
  show ?thesis
  proof (cases "m_id (mw_measure body) = i")
    case True
    then have same: "\<not> m_id (mw_measure body) \<noteq> i" by simp
    show ?thesis
      unfolding PatchMeasure v handle.simps req_scope.simps update_measure_def if_not_P [OF same]
      by (rule edit_is_commit [OF assms(1)]) (auto split: option.splits)
  qed (simp add: PatchMeasure update_measure_def refused_def)
next
  case (DeleteMeasure i sc ver)
  then have v: "v = ver" using assms(2) by simp
  show ?thesis
    unfolding DeleteMeasure v handle.simps req_scope.simps delete_measure_def
    by (rule edit_is_commit [OF assms(1)]) (auto simp: Let_def split: if_splits)
next
  case (PostRule body)
  then have v: "v = rw_expected_version body" using assms(2) by simp
  show ?thesis
    unfolding PostRule v handle.simps req_scope.simps add_rule_def
    by (rule edit_is_commit [OF assms(1)]) (auto simp: Let_def split: if_splits)
next
  case (PatchRule i body)
  then have v: "v = rw_expected_version body" using assms(2) by simp
  show ?thesis
  proof (cases "r_id (rw_rule body) = i")
    case True
    then have same: "\<not> r_id (rw_rule body) \<noteq> i" by simp
    show ?thesis
      unfolding PatchRule v handle.simps req_scope.simps update_rule_def if_not_P [OF same]
      by (rule edit_is_commit [OF assms(1)]) (auto split: option.splits)
  qed (simp add: PatchRule update_rule_def refused_def)
next
  case (DeleteRule i sc ver)
  then have v: "v = ver" using assms(2) by simp
  show ?thesis
    unfolding DeleteRule v handle.simps req_scope.simps delete_rule_def
    by (rule edit_is_commit [OF assms(1)]) (auto simp: Let_def split: if_splits)
next
  case (PatchNotify name body)
  then have v: "v = nw_expected_version body" using assms(2) by simp
  show ?thesis
    unfolding PatchNotify v handle.simps req_scope.simps patch_notify_def
    by (rule edit_is_commit [OF assms(1)]) (auto simp: Let_def split: if_splits)
qed (use assms in auto)

text \<open>The version a request finds, and the one it leaves.\<close>

definition found_version :: "MonitorProfile list \<Rightarrow> ApiRequest \<Rightarrow> bool" where
  "found_version ds req \<longleftrightarrow>
     map_option (\<lambda>d. g_version (p_governance d)) (doc_at ds (req_scope req)) = req_version req"

definition left_version :: "ApiRequest \<Rightarrow> int" where
  "left_version req = (case req_version req of None \<Rightarrow> 1 | Some v \<Rightarrow> v + 1)"

lemma handle_cases:
  assumes "env_ok env docs" "unique_scopes (stored docs st)"
  shows "refused docs st (handle env now req st) \<or>
     found_version (stored docs st) req \<and>
     (\<exists>resp r'. handle env now req st = finish_write env resp r' st) \<and>
     (if is_delete req
      then stored docs (snd (handle env now req st)) = filter (\<lambda>q. p_scope q \<noteq> req_scope req) (stored docs st)
      else written env now docs (req_scope req) (left_version req) st (handle env now req st))"
proof (cases "req_version req")
  case None
  then obtain body where req: "req = PostProfile body" by (cases req) auto
  from create_cases [OF assms, of now body] show ?thesis
    by (auto simp: req found_version_def left_version_def written_def)
next
  case (Some v)
  show ?thesis
  proof (cases "is_delete req")
    case True
    then obtain sc where req: "req = DeleteProfile sc v" using Some by (cases req) auto
    from delete_cases [OF assms, of sc v] show ?thesis by (auto simp: req found_version_def)
  next
    case False
    from handle_is_commit [OF assms(1) Some False, of st now] show ?thesis
    proof
      assume "\<exists>overlay. p_scope overlay = req_scope req \<and> handle env now req st = commit env now overlay v st"
      then obtain overlay where o: "p_scope overlay = req_scope req" "handle env now req st = commit env now overlay v st"
        by blast
      from commit_cases [OF assms, of now overlay v] show ?thesis
        unfolding o(2) using False Some o(1) by (auto simp: found_version_def left_version_def written_def)
    qed blast
  qed
qed

subsection \<open>Properties of the write endpoints\<close>



subsection \<open>Optimistic locking\<close>

fun api_run :: "'db ApiEnv \<Rightarrow> (datetime \<times> ApiRequest) list \<Rightarrow> 'db ApiState \<Rightarrow> 'db ApiState" where
  "api_run env [] st = st"
| "api_run env ((now, req) # rs) st = api_run env rs (snd (handle env now req st))"

lemma doc_at_filter: "s \<noteq> sc \<Longrightarrow> doc_at (filter (\<lambda>q. p_scope q \<noteq> sc) ds) s = doc_at ds s"
  by (induction ds) (auto simp: doc_at_def)

text \<open>The documents keep one entry per scope, and a version never goes back while its document stays.\<close>

definition version_at_least :: "MonitorProfile list \<Rightarrow> Scope \<Rightarrow> int \<Rightarrow> bool" where
  "version_at_least ds s w \<longleftrightarrow> (\<exists>d. doc_at ds s = Some d \<and> w \<le> g_version (p_governance d))"

lemma handle_version:
  assumes "env_ok env docs" "unique_scopes (stored docs st)" "version_at_least (stored docs st) s w"
    and "\<not> (is_delete req \<and> req_scope req = s)"
  shows "unique_scopes (stored docs (snd (handle env now req st)))"
    "version_at_least (stored docs (snd (handle env now req st))) s w"
proof -
  from assms(3) obtain d where d: "doc_at (stored docs st) s = Some d" "w \<le> g_version (p_governance d)"
    by (auto simp: version_at_least_def)
  let ?st' = "snd (handle env now req st)"
  have "unique_scopes (stored docs ?st') \<and> version_at_least (stored docs ?st') s w"
    using handle_cases [OF assms(1,2), of now req]
  proof (elim disjE conjE)
    assume "refused docs st (handle env now req st)"
    then show ?thesis using assms(2,3) by (simp add: refused_def)
  next
    assume found: "found_version (stored docs st) req"
      and eff: "if is_delete req
        then stored docs ?st' = filter (\<lambda>q. p_scope q \<noteq> req_scope req) (stored docs st)
        else written env now docs (req_scope req) (left_version req) st (handle env now req st)"
    show ?thesis
    proof (cases "is_delete req")
      case True
      with eff assms d show ?thesis by (auto simp: unique_filter doc_at_filter version_at_least_def)
    next
      case False
      with eff obtain q where q: "p_scope q = req_scope req" "g_version (p_governance q) = left_version req"
        "put_doc docs q st ?st'" by (auto simp: written_def)
      then show ?thesis
        using d found by (cases "s = req_scope req") (auto simp: put_doc_def version_at_least_def found_version_def left_version_def split: option.splits)
    qed
  qed
  then show "unique_scopes (stored docs ?st')" "version_at_least (stored docs ?st') s w" by simp_all
qed

lemma run_version:
  assumes "env_ok env docs"
  shows "unique_scopes (stored docs st) \<Longrightarrow> version_at_least (stored docs st) s w \<Longrightarrow>
     \<forall>(t, r)\<in>set rs. \<not> (is_delete r \<and> req_scope r = s) \<Longrightarrow>
     unique_scopes (stored docs (api_run env rs st)) \<and> version_at_least (stored docs (api_run env rs st)) s w"
proof (induction rs arbitrary: st)
  case (Cons x rs)
  obtain t r where x: "x = (t, r)" by (cases x)
  with Cons.prems(3) have "\<not> (is_delete r \<and> req_scope r = s)" by simp
  note next_state = handle_version [OF assms Cons.prems(1,2) this, of t]
  from Cons.IH [OF next_state] Cons.prems(3) show ?case by (simp add: x)
qed simp

text \<open>
  C10. No update is lost: once an edit of a document under version \<open>v\<close> succeeded, and whatever requests
  follow that do not delete the document, no second edit of it under version \<open>v\<close> succeeds; it
  changes nothing.
\<close>
theorem no_lost_update:
  assumes "env_ok env docs" "unique_scopes (stored docs st)"
    and "handle env now req st = (Inr resp, st1)" "req_version req = Some v" "\<not> is_delete req"
    and "\<forall>(t, r)\<in>set rs. \<not> (is_delete r \<and> req_scope r = req_scope req)"
    and "req_version req' = Some v" "req_scope req' = req_scope req"
  shows "\<exists>e st2. handle env now' req' (api_run env rs st1) = (Inl e, st2) \<and>
     stored docs st2 = stored docs (api_run env rs st1)"
proof -
  let ?s = "req_scope req"
  from handle_cases [OF assms(1,2), of now req] assms(3,5) obtain q where
    q: "p_scope q = ?s" "g_version (p_governance q) = v + 1" "put_doc docs q st st1"
    by (auto simp: refused_def written_def left_version_def assms(4))
  have "unique_scopes (stored docs st1)" "version_at_least (stored docs st1) ?s (v + 1)"
    using q by (auto simp: put_doc_def version_at_least_def)
  from run_version [OF assms(1) this assms(6)]
  have after: "unique_scopes (stored docs (api_run env rs st1))"
    "version_at_least (stored docs (api_run env rs st1)) ?s (v + 1)" by simp_all
  from after(2) assms(7,8) have "\<not> found_version (stored docs (api_run env rs st1)) req'"
    by (auto simp: version_at_least_def found_version_def)
  with handle_cases [OF assms(1) after(1), of now' req'] have "refused docs (api_run env rs st1) (handle env now' req' (api_run env rs st1))"
    by blast
  then show ?thesis by (cases "handle env now' req' (api_run env rs st1)") (auto simp: refused_def)
qed

subsection \<open>Writes reach the jobs\<close>

text \<open>The intervals at which a process is due, read off the stored documents.\<close>

definition cadence :: "MonitorProfile list \<Rightarrow> string \<Rightarrow> int set" where
  "cadence ds p =
     {r_interval_minutes r | r d. d \<in> set ds \<and> s_process (p_scope d) \<in> {p, wildcard} \<and> p_enabled d \<and>
        r \<in> set (p_rules d) \<and> r_enabled r}"

lemma intervals_cadence:
  assumes "mongo_reads_ok coll docs" "get_scheduling_intervals coll p r = Inr ivs"
  shows "set ivs = cadence (docs (database r)) p"
proof -
  from assms(2) obtain qs where qs: "find_enabled coll [p, wildcard] (database r) = Inr qs"
    "ivs = sorted_list_of_set (set (concat (map (\<lambda>doc. map r_interval_minutes (filter r_enabled (p_rules doc))) qs)))"
    by (auto simp: get_scheduling_intervals_def split: sum.splits)
  have "mset qs = mset (filter (\<lambda>q. s_process (p_scope q) \<in> set [p, wildcard] \<and> p_enabled q) (docs (database r)))"
    using assms(1) qs(1) by (simp add: mongo_reads_ok_def)
  from mset_eq_setD [OF this] show ?thesis by (auto simp: qs(2) cadence_def)
qed


subsection \<open>Provenance\<close>

interpretation label_layer: overlay_layer "\<lambda>d p. dict_of key (\<lambda>_. scope_label (p_scope p)) d (items p)"
  "\<lambda>p k. map_option (\<lambda>_. scope_label (p_scope p)) (last_with key k (items p))"
  for key :: "'a \<Rightarrow> string" and items :: "MonitorProfile \<Rightarrow> 'a list"
  by unfold_locales (auto simp: dict_simps distinct_dict_of split: option.splits)

lemma winner_same_document:
  assumes "\<And>p. f p = None \<longleftrightarrow> g p = None" "winner f ps = Some y"
  shows "\<exists>p\<in>set ps. f p = Some y \<and> winner g ps = g p"
proof -
  from winner_Some_split [OF assms(2)] obtain pre p post where
    split: "ps = pre @ p # post" "f p = Some y" "\<forall>q\<in>set post. f q = None" by blast
  then have "winner g post = None" using assms(1) by (simp add: winner_None_iff)
  moreover obtain v where "g p = Some v" using split(2) assms(1) [of p] by auto
  ultimately have "winner g ps = g p" by (simp add: split(1) winner_append)
  with split show ?thesis by auto
qed

lemma label_items_winner:
  assumes "sorted (map (\<lambda>p. api_rank (p_scope p)) docs)"
  shows "map_of (label_items key items docs) k =
     winner (\<lambda>p. map_option (\<lambda>_. scope_label (p_scope p)) (last_with key k (items p))) docs"
  using assms label_layer.fold_lookup [of key items "[]" docs k]
  by (simp add: label_items_def sort_key_id_if_sorted split: option.splits)

lemma label_items_source:
  fixes g :: "MonitorProfile \<Rightarrow> string \<Rightarrow> 'b option"
  assumes sorted: "sorted (map (\<lambda>p. api_rank (p_scope p)) docs)"
    and same: "\<And>p k. g p k = None \<longleftrightarrow> last_with key k (items p) = None"
  shows "map_of (label_items key items docs) k = Some l \<Longrightarrow>
      \<exists>d\<in>set docs. l = scope_label (p_scope d) \<and> winner (\<lambda>p. g p k) docs = g d k"
    "map_of (label_items key items docs) k = None \<longleftrightarrow> winner (\<lambda>p. g p k) docs = None"
proof -
  assume "map_of (label_items key items docs) k = Some l"
  then have "winner (\<lambda>p. map_option (\<lambda>_. scope_label (p_scope p)) (last_with key k (items p))) docs = Some l"
    by (simp add: label_items_winner [OF sorted])
  from winner_same_document [OF _ this, of "\<lambda>p. g p k"] same
  show "\<exists>d\<in>set docs. l = scope_label (p_scope d) \<and> winner (\<lambda>p. g p k) docs = g d k" by auto
next
  show "map_of (label_items key items docs) k = None \<longleftrightarrow> winner (\<lambda>p. g p k) docs = None"
    by (simp add: label_items_winner [OF sorted] winner_None_iff same)
qed

text \<open>
  C33. The provenance tells where an entry of the effective profile comes from: an id has a label
  exactly when the effective profile has an entry for it, and the entry is the one declared by the
  document of that label.
\<close>
theorem provenance_names_the_source:
  assumes "env_ok env docs" "unique_scopes (stored docs st)"
    and "get_effective env now target True st = Inr (eff, Some pv)"
  shows "(\<forall>k l. map_of (pv_measures pv) k = Some l \<longrightarrow>
       (\<exists>d\<in>set (stored docs st). l = scope_label (p_scope d) \<and> last_with m_id k (p_measures eff) = declared_measure d k)) \<and>
     (\<forall>k l. map_of (pv_rules pv) k = Some l \<longrightarrow>
       (\<exists>d\<in>set (stored docs st). l = scope_label (p_scope d) \<and> last_with r_id k (p_rules eff) = declared_rule d k)) \<and>
     (\<forall>k l. map_of (pv_notify pv) k = Some l \<longrightarrow>
       (\<exists>d\<in>set (stored docs st). l = scope_label (p_scope d) \<and> map_of (p_notify eff) k = declared_channel d k)) \<and>
     dom (map_of (pv_measures pv)) = m_id ` set (p_measures eff) \<and>
     dom (map_of (pv_rules pv)) = r_id ` set (p_rules eff) \<and>
     dom (map_of (pv_notify pv)) = dom (map_of (p_notify eff))"
proof -
  let ?a = "scope_ancestors (stored docs st) target"
  from assms(3) obtain ds where ds: "collect_scope_docs (env_coll env) (s_process target) (s_eqp_model target) (s_eqp_id target) (api_repo st) = Inr ds"
    "fold_profiles now ds target = Inr eff" "pv = provenance ds"
    by (auto simp: get_effective_def split: sum.splits if_splits)
  have a: "ds = ?a"
    using ds(1) assms(1,2) sort_ancestors [of "stored docs st"]
    by (auto simp: env_ok_def collect_scope_docs_def mongo_reads_ok_def split: sum.splits)
  have sorted: "sorted (map (\<lambda>p. api_rank (p_scope p)) ds)"
    using ancestors_sorted [of "stored docs st" "s_process target" "s_eqp_model target" "s_eqp_id target"]
    unfolding a api_rank_specificity by (simp add: strict_sorted_iff)
  have from_store: "set ds \<subseteq> set (stored docs st)"
    by (auto simp: a ancestors_def doc_at_def set_map_filter_iff dest: find_Some_in)
  have eff: "last_with m_id k (p_measures eff) = winner (\<lambda>p. declared_measure p k) ds"
    "last_with r_id k (p_rules eff) = winner (\<lambda>p. declared_rule p k) ds"
    "map_of (p_notify eff) k = winner (\<lambda>p. declared_channel p k) ds" for k
    using ds(2) by (auto simp: fold_profiles_eq measure_layer.fold_last_with rule_layer.fold_last_with
        notify_layer.fold_lookup split: option.splits)
  have ms: "declared_measure p k = None \<longleftrightarrow> last_with m_id k (p_measures p) = None"
    and rs: "declared_rule p k = None \<longleftrightarrow> last_with r_id k (p_rules p) = None"
    and cs: "declared_channel p k = None \<longleftrightarrow> last_with fst k (p_notify p) = None" for p k
    by (simp_all add: declared_measure_def declared_rule_def declared_channel_def)
  note src =
    label_items_source [where g = declared_measure and key = m_id and items = p_measures, OF sorted ms]
    label_items_source [where g = declared_rule and key = r_id and items = p_rules, OF sorted rs]
    label_items_source [where g = declared_channel and key = fst and items = p_notify, OF sorted cs]
  have doms: "k \<in> m_id ` set (p_measures eff) \<longleftrightarrow> map_of (label_items m_id p_measures ds) k \<noteq> None"
    "k \<in> r_id ` set (p_rules eff) \<longleftrightarrow> map_of (label_items r_id p_rules ds) k \<noteq> None"
    "k \<in> dom (map_of (p_notify eff)) \<longleftrightarrow> map_of (label_items fst p_notify ds) k \<noteq> None" for k
    unfolding src(2,4,6) eff [symmetric] by (simp_all add: last_with_None_iff dom_def)
  have "dom (map_of (label_items m_id p_measures ds)) = m_id ` set (p_measures eff)"
    "dom (map_of (label_items r_id p_rules ds)) = r_id ` set (p_rules eff)"
    "dom (map_of (label_items fst p_notify ds)) = dom (map_of (p_notify eff))"
    using doms by (simp_all only: set_eq_iff domIff simp_thms)
  moreover have "\<exists>d\<in>set (stored docs st). l = scope_label (p_scope d) \<and> last_with m_id k (p_measures eff) = declared_measure d k"
    if "map_of (label_items m_id p_measures ds) k = Some l" for k l
    using src(1) [OF that] from_store unfolding eff(1) by blast
  moreover have "\<exists>d\<in>set (stored docs st). l = scope_label (p_scope d) \<and> last_with r_id k (p_rules eff) = declared_rule d k"
    if "map_of (label_items r_id p_rules ds) k = Some l" for k l
    using src(3) [OF that] from_store unfolding eff(2) by blast
  moreover have "\<exists>d\<in>set (stored docs st). l = scope_label (p_scope d) \<and> map_of (p_notify eff) k = declared_channel d k"
    if "map_of (label_items fst p_notify ds) k = Some l" for k l
    using src(5) [OF that] from_store unfolding eff(3) by blast
  ultimately show ?thesis unfolding ds(3) provenance_def Provenance.simps by blast
qed

subsection \<open>Instances\<close>

definition sample_env :: "MonitorProfile list ApiEnv" where
  "sample_env = \<lparr>env_coll = list_collection, env_config = sample_config, env_distinct = (\<lambda>_. Inr [])\<rparr>"

definition sample_state :: "MonitorProfile list ApiState" where
  "sample_state = \<lparr>api_repo = sample_repo, api_scheduler = Some sample_scheduler\<rparr>"

definition slower_rule :: Rule where
  "slower_rule = sample_rule\<lparr>r_interval_minutes := 10\<rparr>"

definition sample_edit :: ApiRequest where
  "sample_edit = PatchRule ''disk_full'' \<lparr>rw_scope = global_scope, rw_expected_version = 1, rw_rule = slower_rule\<rparr>"

lemma sample_env_ok: "env_ok sample_env (\<lambda>ds. ds)"
  by (simp add: env_ok_def sample_env_def list_collection_ok)

lemma sample_state_unique: "unique_scopes (stored (\<lambda>ds. ds) sample_state)"
  using sample_repo_unique by (simp add: sample_state_def)

lemma sample_edit_done: "fst (handle sample_env 0 sample_edit sample_state) = Inr (Committed (scope_to_mongo global_scope) 2)"
  by code_simp

definition edited_state :: "MonitorProfile list ApiState" where
  "edited_state = snd (handle sample_env 0 sample_edit sample_state)"

lemma sample_edit_pair:
  "handle sample_env 0 sample_edit sample_state = (Inr (Committed (scope_to_mongo global_scope) 2), edited_state)"
  using sample_edit_done by (simp add: edited_state_def prod_eq_iff)

lemma sample_edit_meta: "\<not> is_delete sample_edit" "req_scope sample_edit = global_scope" "req_version sample_edit = Some 1"
  "regular_scope global_scope"
  by (simp_all add: sample_edit_def regular_scope_def global_scope_def mk_scope_def)

definition edited_effective :: MonitorProfile where
  "edited_effective = projr (fold_profiles 0 (scope_ancestors (database (api_repo edited_state)) global_scope) global_scope)"



theorem no_lost_update_witness:
  "\<exists>e st2. handle sample_env 9 sample_edit (api_run sample_env [(5, PostRule \<lparr>rw_scope = global_scope, rw_expected_version = 2, rw_rule = sample_rule\<rparr>)] edited_state) = (Inl e, st2)"
  using no_lost_update [OF sample_env_ok sample_state_unique sample_edit_pair sample_edit_meta(3,1), of
      "[(5, PostRule \<lparr>rw_scope = global_scope, rw_expected_version = 2, rw_rule = sample_rule\<rparr>)]" sample_edit 9]
    sample_edit_meta(3) by auto


theorem provenance_names_the_source_witness:
  "\<exists>eff pv. get_effective sample_env 0 (mk_scope ''ETCH'' ''M'' ''E1'') True sample_state = Inr (eff, Some pv) \<and>
     (\<exists>d\<in>set [sample_profile]. ''*/*/*'' = scope_label (p_scope d) \<and> last_with m_id ''disk'' (p_measures eff) = declared_measure d ''disk'')"
proof -
  have label: "map_option (\<lambda>pv. map_of (pv_measures pv) ''disk'')
      (snd (projr (get_effective sample_env 0 (mk_scope ''ETCH'' ''M'' ''E1'') True sample_state))) = Some (Some ''*/*/*'')"
    "\<not> isl (get_effective sample_env 0 (mk_scope ''ETCH'' ''M'' ''E1'') True sample_state)"
    by code_simp+
  then obtain eff pv where g: "get_effective sample_env 0 (mk_scope ''ETCH'' ''M'' ''E1'') True sample_state = Inr (eff, Some pv)"
    "map_of (pv_measures pv) ''disk'' = Some ''*/*/*''"
    by (cases "get_effective sample_env 0 (mk_scope ''ETCH'' ''M'' ''E1'') True sample_state") (auto simp: isl_def)
  from provenance_names_the_source [OF sample_env_ok sample_state_unique g(1)] g show ?thesis
    by (auto simp: sample_state_def sample_repo_def)
qed

text \<open>
  A deletion is not checked against the overlays below: removing the global document leaves an
  overlay whose rule refers to a measure and a channel that no longer exist.
\<close>

definition child_profile :: MonitorProfile where
  "child_profile = sample_profile\<lparr>p_scope := mk_scope ''ETCH'' wildcard wildcard, p_measures := [], p_notify := []\<rparr>"

definition parent_and_child :: "MonitorProfile list ApiState" where
  "parent_and_child = \<lparr>api_repo = \<lparr>database = [sample_profile, child_profile], resolve_cache = Map.empty\<rparr>, api_scheduler = None\<rparr>"

lemma deletion_unchecked:
  "fst (handle sample_env 0 (DeleteProfile global_scope 1) parent_and_child) = Inr (Deleted (scope_to_mongo global_scope)) \<and>
   validate_effective (projr (fold_profiles 0 (scope_ancestors (stored (\<lambda>ds. ds) parent_and_child) (p_scope child_profile)) (p_scope child_profile))) = [] \<and>
   validate_effective (projr (fold_profiles 0
     (scope_ancestors (stored (\<lambda>ds. ds) (snd (handle sample_env 0 (DeleteProfile global_scope 1) parent_and_child))) (p_scope child_profile))
     (p_scope child_profile))) \<noteq> []"
  by code_simp

text \<open>
  A document that is deleted and created again starts at version one: an edit based on the first
  version of the old document is accepted for the new one.
\<close>

lemma recreated_version_accepts_stale_edit:
  "fst (handle sample_env 9 sample_edit
     (api_run sample_env
       [(1, DeleteProfile global_scope 1),
        (2, PostProfile \<lparr>b_scope = global_scope, b_enabled = True, b_measures = p_measures sample_profile,
              b_rules = [sample_rule], b_notify = p_notify sample_profile\<rparr>)] sample_state)) =
   Inr (Committed (scope_to_mongo global_scope) 2)"
  by code_simp

end
