(* ===== verification/Seed.thy ===== *)
theory Seed
  imports Repository
begin

text \<open>
  \<open>src/src/db/seed.py\<close>: the built-in global profile and the seeding of it. The constructors run
  the models' validators, so building the profile may raise. The digest of the canonical JSON text
  is an argument; the text is determined by the structural content.
\<close>

subsection \<open>The default profile\<close>

definition new_fact :: "FactType \<Rightarrow> rat option \<Rightarrow> Direction option \<Rightarrow> ModelError + Fact" where
  "new_fact t over direction =
     fact_per_type_params \<lparr>f_type = t, f_over = over, f_direction = direction, f_mode = None, f_unit = None\<rparr>"

definition new_measure ::
  "string \<Rightarrow> string \<Rightarrow> string \<Rightarrow> string \<Rightarrow> int \<Rightarrow> (ModelError + Fact) list \<Rightarrow> ModelError + Measure" where
  "new_measure mid category metric proc window facts =
     bind_res (map_res (\<lambda>f. f) facts)
       (\<lambda>fs. measure_consistency
          \<lparr>m_id = mid, m_category = category, m_metric = metric, m_proc = proc, m_window_minutes = window,
           m_group_by = [Key_eqpId], m_expand = Expand_scalar, m_metric_kind = None, m_bucketing = None,
           m_baseline = None, m_facts = fs\<rparr>)"

definition new_condition :: "string \<Rightarrow> Operator \<Rightarrow> rat \<Rightarrow> ModelError + Condition" where
  "new_condition fact_ref op v =
     condition_checks \<lparr>c_fact = fact_ref, c_op = op, c_value = Num v, c_quantifier = Q_any, c_count_min = None\<rparr>"

definition new_rule ::
  "string \<Rightarrow> int \<Rightarrow> Severity \<Rightarrow> Combine \<Rightarrow> (ModelError + Condition) list \<Rightarrow> ModelError + Rule" where
  "new_rule rid interval severity combine conds =
     bind_res (map_res (\<lambda>c. c) conds)
       (\<lambda>cs. rule_nonempty \<lparr>r_id = rid, r_interval_minutes = interval, r_severity = severity, r_combine = combine,
               r_when = cs, r_notify = ''default'', r_enabled = True\<rparr>)"

definition default_measures :: "ModelError + Measure list" where
  "default_measures = map_res (\<lambda>m. m) [
      new_measure ''cpu'' ''cpu'' ''total_used_pct'' ''@system'' 15 [new_fact FT_MAX None None, new_fact FT_P95 None None, new_fact FT_SPIKE_COUNT (Some 90) (Some Dir_above)],
      new_measure ''mem_used'' ''memory'' ''total_used_pct'' ''@system'' 15 [new_fact FT_MAX None None],
      new_measure ''mem_free'' ''memory'' ''total_free_pct'' ''@system'' 15 [new_fact FT_MIN None None],
      new_measure ''disk'' ''disk'' ''*'' ''@system'' 30 [new_fact FT_MAX None None],
      new_measure ''temp'' ''temperature'' ''*'' ''@system'' 15 [new_fact FT_MAX None None],
      new_measure ''fan'' ''fan'' ''*'' ''@system'' 15 [new_fact FT_MIN None None],
      new_measure ''volt_vcore'' ''voltage'' ''CPU_Vcore'' ''@system'' 15 [new_fact FT_MIN None None, new_fact FT_MAX None None],
      new_measure ''gpu_load'' ''gpu'' ''*_core_load'' ''@system'' 15 [new_fact FT_P95 None None],
      new_measure ''ssd_life'' ''storage_smart'' ''*_remaining_life'' ''@system'' 60 [new_fact FT_MIN None None],
      new_measure ''disk_health'' ''storage_health'' ''*_status'' ''@system'' 60 [new_fact FT_MAX None None],
      new_measure ''proc_required'' ''process_watch'' ''required'' ''*'' 5 [new_fact FT_MIN None None],
      new_measure ''proc_forbidden'' ''process_watch'' ''forbidden'' ''*'' 5 [new_fact FT_MAX None None]]"

definition default_rules :: "ModelError + Rule list" where
  "default_rules = map_res (\<lambda>r. r) [
      new_rule ''cpu_warn'' 5 WARNING Combine_AND [new_condition ''cpu.max'' OP_GE 80],
      new_rule ''cpu_crit'' 5 CRITICAL Combine_AND [new_condition ''cpu.max'' OP_GE 95],
      new_rule ''cpu_anomaly'' 5 WARNING Combine_AND [new_condition ''cpu.p95'' OP_GT 80, new_condition ''cpu.spike_count'' OP_GT 5],
      new_rule ''mem_high'' 5 WARNING Combine_AND [new_condition ''mem_used.max'' OP_GE 90],
      new_rule ''mem_low_free'' 5 WARNING Combine_AND [new_condition ''mem_free.min'' OP_LE 5],
      new_rule ''disk_full'' 5 CRITICAL Combine_AND [new_condition ''disk.max'' OP_GE 95],
      new_rule ''temp_high'' 5 WARNING Combine_AND [new_condition ''temp.max'' OP_GE 90],
      new_rule ''fan_low'' 5 WARNING Combine_AND [new_condition ''fan.min'' OP_LE 300],
      new_rule ''volt_out'' 5 WARNING Combine_OR [new_condition ''volt_vcore.min'' OP_LT (11 / 10), new_condition ''volt_vcore.max'' OP_GT (14 / 10)],
      new_rule ''gpu_hot'' 5 WARNING Combine_AND [new_condition ''gpu_load.p95'' OP_GE 95],
      new_rule ''ssd_life_low'' 5 WARNING Combine_AND [new_condition ''ssd_life.min'' OP_LE 20],
      new_rule ''disk_failing'' 5 CRITICAL Combine_AND [new_condition ''disk_health.max'' OP_GE 2],
      new_rule ''proc_down'' 5 CRITICAL Combine_AND [new_condition ''proc_required.min'' OP_EQ 0],
      new_rule ''proc_forbidden_run'' 5 CRITICAL Combine_AND [new_condition ''proc_forbidden.max'' OP_GT 0]]"

definition default_channel :: NotifyChannel where
  "default_channel = \<lparr>n_cooldown_minutes = 30, n_email_code = ''RESOURCE_MONITOR'', n_email_subcode = None,
     n_group_by = By_eqp, n_email_group = None\<rparr>"

definition build_default_profile :: "datetime \<Rightarrow> ModelError + MonitorProfile" where
  "build_default_profile now =
     bind_res default_measures (\<lambda>measures. bind_res default_rules (\<lambda>rules.
       doc_consistency \<lparr>p_id = None, p_scope = mk_scope wildcard wildcard wildcard, p_enabled = True,
         p_governance = (default_governance now)\<lparr>g_updated_by := ''system'', g_change_reason := ''initial seed''\<rparr>,
         p_measures = measures, p_rules = rules, p_notify = [(''default'', default_channel)]\<rparr>))"

subsection \<open>Seeding\<close>

text \<open>The document without its governance block; the keys of the notify object are sorted in the text.\<close>

type_synonym profile_structure = "Scope \<times> bool \<times> Measure list \<times> Rule list \<times> (string, NotifyChannel) dict"

definition structural_mongo :: "MonitorProfile \<Rightarrow> profile_structure" where
  "structural_mongo p = (p_scope p, p_enabled p, p_measures p, p_rules p, sort_key fst (p_notify p))"

definition profile_hash :: "(profile_structure \<Rightarrow> string) \<Rightarrow> MonitorProfile \<Rightarrow> string" where
  "profile_hash digest p = digest (structural_mongo p)"

datatype SeedOutcome = SeedUnchanged | OperatorEdited | Reseeded | SeedCreated | LostRace

definition seed_upsert ::
  "'db collection \<Rightarrow> SeedOutcome \<Rightarrow> MonitorProfile \<Rightarrow> 'db ProfileRepository \<Rightarrow>
     (RepoError + SeedOutcome) \<times> 'db ProfileRepository" where
  "seed_upsert coll outcome builtin r =
     (case repo_upsert coll builtin r of
        (Inl e, r') \<Rightarrow> (if e = DriverError DuplicateKeyError then Inr LostRace else Inl e, r')
      | (Inr _, r') \<Rightarrow> (Inr outcome, r'))"

definition seed_default_profile ::
  "'db collection \<Rightarrow> (profile_structure \<Rightarrow> string) \<Rightarrow> datetime \<Rightarrow> 'db ProfileRepository \<Rightarrow>
     (RepoError + SeedOutcome) \<times> 'db ProfileRepository" where
  "seed_default_profile coll digest now r =
     (case build_default_profile now of
        Inl e \<Rightarrow> (Inl (InvalidModel e), r)
      | Inr builtin \<Rightarrow>
          (case find_by_scope coll (p_scope builtin) r of
             Inl e \<Rightarrow> (Inl e, r)
           | Inr None \<Rightarrow> seed_upsert coll SeedCreated builtin r
           | Inr (Some existing) \<Rightarrow>
               if profile_hash digest existing = profile_hash digest builtin then (Inr SeedUnchanged, r)
               else if g_updated_by (p_governance existing) \<noteq> ''system'' then (Inr OperatorEdited, r)
               else seed_upsert coll Reseeded builtin r))"

subsection \<open>The default profile is in order\<close>

definition default_measure_list :: "Measure list" where "default_measure_list = projr default_measures"
definition default_rule_list :: "Rule list" where "default_rule_list = projr default_rules"

definition default_profile :: "datetime \<Rightarrow> MonitorProfile" where
  "default_profile now =
     \<lparr>p_id = None, p_scope = mk_scope wildcard wildcard wildcard, p_enabled = True,
      p_governance = (default_governance now)\<lparr>g_updated_by := ''system'', g_change_reason := ''initial seed''\<rparr>,
      p_measures = default_measure_list, p_rules = default_rule_list, p_notify = [(''default'', default_channel)]\<rparr>"

lemma default_items_ok: "\<not> isl default_measures" "\<not> isl default_rules"
  "distinct (map m_id default_measure_list)" "distinct (map r_id default_rule_list)"
  by code_simp+

lemma build_default: "build_default_profile now = Inr (default_profile now)"
proof -
  have m: "default_measures = Inr default_measure_list" and r: "default_rules = Inr default_rule_list"
    using default_items_ok(1,2) by (simp_all add: default_measure_list_def default_rule_list_def)
  show ?thesis
    unfolding build_default_profile_def m r bind_res_simps
    by (simp add: doc_consistency_def default_items_ok(3,4) default_profile_def)
qed

lemma default_measures_accepted:
  "list_all (\<lambda>m. measure_consistency m = Inr m \<and> list_all (is_implemented \<circ> f_type) (m_facts m)) default_measure_list"
  by code_simp

lemma default_rules_accepted:
  "list_all (\<lambda>r. r_when r \<noteq> [] \<and> list_all (\<lambda>c. condition_checks c = Inr c) (r_when r)) default_rule_list"
  by code_simp

lemma default_clean: "validate_effective (default_profile now) = []" "lint_effective (default_profile now) = []"
  by code_simp+

text \<open>
  The built-in profile is constructed without an exception; it satisfies the model's invariant, its
  rules refer only to declared facts with admissible operators, every fact type is implemented, no
  declared fact is unused, and every rule runs every five minutes through the one declared channel.
\<close>
theorem default_profile_valid:
  "\<exists>p. build_default_profile now = Inr p \<and> wf_profile p \<and> validate_effective p = [] \<and> lint_effective p = []
     \<and> (\<forall>m\<in>set (p_measures p). \<forall>f\<in>set (m_facts m). is_implemented (f_type f))
     \<and> (\<forall>r\<in>set (p_rules p). r_enabled r \<and> r_interval_minutes r = 5 \<and> r_notify r \<in> fst ` set (p_notify p))"
proof -
  let ?p = "default_profile now"
  have "list_all (\<lambda>r. r_enabled r \<and> r_interval_minutes r = 5 \<and> r_notify r = ''default'') default_rule_list"
    by code_simp
  then have "\<forall>r\<in>set (p_rules ?p). r_enabled r \<and> r_interval_minutes r = 5 \<and> r_notify r \<in> fst ` set (p_notify ?p)"
    by (simp add: default_profile_def list_all_iff)
  moreover have "wf_profile ?p"
    using default_measures_accepted default_rules_accepted
    by (auto simp: wf_profile_def default_profile_def default_items_ok wf_rule_def condition_accepted_iff
        list_all_iff dest: measure_accepted_wf(2))
  moreover have "\<forall>m\<in>set (p_measures ?p). \<forall>f\<in>set (m_facts m). is_implemented (f_type f)"
    using default_measures_accepted by (simp add: default_profile_def list_all_iff)
  ultimately show ?thesis using build_default default_clean by blast
qed

theorem default_profile_valid_witness:
  "\<exists>p. build_default_profile 0 = Inr p \<and> (\<forall>m\<in>set (p_measures p). \<forall>f\<in>set (m_facts m). is_implemented (f_type f))"
  using default_profile_valid [of 0] by blast

subsection \<open>What seeding changes\<close>

lemma default_profile_fields [simp]:
  "p_scope (default_profile now) = global_scope"
  "g_updated_by (p_governance (default_profile now)) = ''system''"
  by (simp_all add: default_profile_def global_scope_def)

lemma structural_mongo_id [simp]: "structural_mongo (p\<lparr>p_id := i\<rparr>) = structural_mongo p"
  by (simp add: structural_mongo_def)

lemma default_structure: "structural_mongo (default_profile now) = structural_mongo (default_profile now')"
  by (simp add: structural_mongo_def default_profile_def)

lemma seed_upsert_cases:
  assumes "mongo_writes_ok coll docs" "seed_upsert coll outcome p r = (res, r')"
  shows "(\<forall>out. res = Inr out \<longrightarrow> out \<noteq> LostRace \<longrightarrow> out = outcome) \<and>
    (r' = r \<and> (\<forall>out. res = Inr out \<longrightarrow> out = LostRace)
     \<or> res = Inr outcome \<and> (\<exists>i. doc_at (docs (database r')) (p_scope p) = Some (p\<lparr>p_id := i\<rparr>))
        \<and> (\<forall>sc. sc \<noteq> p_scope p \<longrightarrow> doc_at (docs (database r')) sc = doc_at (docs (database r)) sc))"
proof (cases "replace_one coll (p_scope p) p (database r)")
  case (Inl e)
  with assms(2) show ?thesis by (auto simp: seed_upsert_def repo_upsert_def split: if_splits)
next
  case (Inr db')
  with assms(1) have "if doc_at (docs (database r)) (p_scope p) = None
      then (\<exists>i. docs db' = docs (database r) @ [p\<lparr>p_id := Some i\<rparr>]) else docs db' = replace_doc p (docs (database r))"
    unfolding mongo_writes_ok_def by blast
  then show ?thesis using assms(2) Inr
    by (auto simp: seed_upsert_def repo_upsert_def doc_at_append doc_at_replace split: if_splits option.splits)
qed

lemma seed_found:
  "mongo_reads_ok coll docs \<Longrightarrow> find_by_scope coll sc r = Inr d \<Longrightarrow> d = doc_at (docs (database r)) sc"
  unfolding mongo_reads_ok_def find_by_scope_def by (auto split: sum.splits)

text \<open>One call of the seeding: untouched, or the global document is the built-in profile.\<close>

lemma seed_cases:
  assumes reads: "mongo_reads_ok coll docs" and writes: "mongo_writes_ok coll docs"
    and run: "seed_default_profile coll digest now r = (res, r')"
  shows "r' = r \<and> (\<forall>out. res = Inr out \<longrightarrow> out = LostRace \<or>
            (\<exists>d. doc_at (docs (database r)) global_scope = Some d \<and>
               (out = SeedUnchanged \<and> digest (structural_mongo d) = digest (structural_mongo (default_profile now))
                \<or> out = OperatorEdited \<and> digest (structural_mongo d) \<noteq> digest (structural_mongo (default_profile now))
                   \<and> g_updated_by (p_governance d) \<noteq> ''system'')))
     \<or> (res = Inr SeedCreated \<and> doc_at (docs (database r)) global_scope = None
         \<or> res = Inr Reseeded \<and> (\<exists>d. doc_at (docs (database r)) global_scope = Some d
              \<and> digest (structural_mongo d) \<noteq> digest (structural_mongo (default_profile now))
              \<and> g_updated_by (p_governance d) = ''system''))
        \<and> (\<exists>i. doc_at (docs (database r')) global_scope = Some (default_profile now\<lparr>p_id := i\<rparr>))
        \<and> (\<forall>sc. sc \<noteq> global_scope \<longrightarrow> doc_at (docs (database r')) sc = doc_at (docs (database r)) sc)"
proof (cases "find_by_scope coll global_scope r")
  case (Inl e)
  with run show ?thesis by (auto simp: seed_default_profile_def build_default)
next
  case (Inr d)
  note found = seed_found [OF reads Inr, symmetric]
  show ?thesis
  proof (cases d)
    case None
    with run Inr have "seed_upsert coll SeedCreated (default_profile now) r = (res, r')"
      by (simp add: seed_default_profile_def build_default)
    from seed_upsert_cases [OF writes this] found None show ?thesis by auto
  next
    case (Some x)
    show ?thesis
    proof (cases "digest (structural_mongo x) = digest (structural_mongo (default_profile now))
        \<or> g_updated_by (p_governance x) \<noteq> ''system''")
      case True
      with run Inr Some found show ?thesis
        by (auto simp: seed_default_profile_def build_default profile_hash_def split: if_splits)
    next
      case False
      with run Inr Some have "seed_upsert coll Reseeded (default_profile now) r = (res, r')"
        by (simp add: seed_default_profile_def build_default profile_hash_def)
      from seed_upsert_cases [OF writes this] found Some False show ?thesis by auto
    qed
  qed
qed

text \<open>
  Seeding never touches the document of another scope, and leaves the whole store as it is when the
  global document was last written by an operator or already has the built-in content; a seeding
  that reports a write has stored the built-in profile, and a failing one has changed nothing.
\<close>
theorem seed_respects_operators:
  assumes "mongo_reads_ok coll docs" "mongo_writes_ok coll docs"
    and "seed_default_profile coll digest now r = (res, r')"
  shows "(\<forall>sc. sc \<noteq> global_scope \<longrightarrow> doc_at (docs (database r')) sc = doc_at (docs (database r)) sc)
    \<and> (\<forall>d. doc_at (docs (database r)) global_scope = Some d \<longrightarrow>
          g_updated_by (p_governance d) \<noteq> ''system'' \<or> structural_mongo d = structural_mongo (default_profile now) \<longrightarrow> r' = r)
    \<and> (res = Inr SeedCreated \<or> res = Inr Reseeded \<longrightarrow>
          (\<exists>i. doc_at (docs (database r')) global_scope = Some (default_profile now\<lparr>p_id := i\<rparr>)))
    \<and> (\<forall>e. res = Inl e \<longrightarrow> r' = r)"
  using seed_cases [OF assms] by auto

text \<open>
  Seeding is idempotent: after a start that seeded the profile or found one, a start of the same
  release at any later time changes nothing, and reports the same operator edit or an unchanged profile.
\<close>
theorem seed_idempotent:
  assumes "mongo_reads_ok coll docs" "mongo_writes_ok coll docs"
    and "seed_default_profile coll digest now r = (Inr out, r')" "out \<noteq> LostRace"
    and "seed_default_profile coll digest now' r' = (Inr out', r'')"
  shows "r'' = r' \<and> (out' = LostRace \<or> out' = (if out = OperatorEdited then OperatorEdited else SeedUnchanged))"
proof -
  note s = default_structure [of now now']
  note first = seed_cases [OF assms(1-3)] and second = seed_cases [OF assms(1,2,5)]
  show ?thesis using first second assms(4) by (auto simp: s)
qed

definition empty_repo :: "MonitorProfile list ProfileRepository" where
  "empty_repo = \<lparr>database = [], resolve_cache = Map.empty\<rparr>"

definition seeded_repo :: "MonitorProfile list ProfileRepository" where
  "seeded_repo = \<lparr>database = [default_profile 0\<lparr>p_id := Some ''oid''\<rparr>], resolve_cache = Map.empty\<rparr>"

lemma seed_first_start:
  "seed_default_profile list_collection digest 0 empty_repo = (Inr SeedCreated, seeded_repo)"
  by (simp add: seed_default_profile_def build_default find_by_scope_def list_collection_def empty_repo_def
      seeded_repo_def doc_at_def seed_upsert_def repo_upsert_def)

lemma seed_second_start:
  "seed_default_profile list_collection digest 9 seeded_repo = (Inr SeedUnchanged, seeded_repo)"
  by (simp add: seed_default_profile_def build_default find_by_scope_def list_collection_def
      seeded_repo_def doc_at_def profile_hash_def default_structure [of 0 9])

theorem seed_respects_operators_witness:
  "\<exists>i. doc_at (database seeded_repo) global_scope = Some (default_profile 0\<lparr>p_id := i\<rparr>)"
  using seed_respects_operators [OF list_collection_ok seed_first_start] by simp

theorem seed_idempotent_witness: "seeded_repo = seeded_repo \<and> SeedUnchanged \<noteq> OperatorEdited"
  using seed_idempotent [OF list_collection_ok seed_first_start _ seed_second_start] by simp

end
