(* ===== verification/Mongo_Documents.thy ===== *)
theory Mongo_Documents
  imports Alert_Builder
begin

text \<open>
  \<open>src/src/db/models.py\<close>, last part: a profile as a Mongo document. \<open>to_mongo\<close> writes every model
  with \<open>model_dump(mode="json")\<close>; \<open>from_mongo\<close> reads a document, which may have been written by hand or
  by an earlier release, back through the models. Pydantic's conversion of a scalar to the declared
  type is an argument; what is relied on is that a value of the declared type is taken as it is.
\<close>

subsection \<open>Scalars\<close>

record Coercion =
  co_int :: "json \<Rightarrow> int option"
  co_float :: "json \<Rightarrow> rat option"
  co_bool :: "json \<Rightarrow> bool option"
  co_str :: "json \<Rightarrow> string option"
  co_value :: "json \<Rightarrow> Value option"
  co_datetime :: "json \<Rightarrow> datetime option"
  co_text :: "json \<Rightarrow> string"

text \<open>
  The last component is \<open>str()\<close>, applied to the \<open>_id\<close> of a document; an \<open>ObjectId\<close> is represented by
  its text. \<open>show_dt\<close> is the text of a datetime.
\<close>

definition coerces :: "(datetime \<Rightarrow> string) \<Rightarrow> Coercion \<Rightarrow> bool" where
  "coerces show_dt co \<longleftrightarrow>
     (\<forall>n. co_int co (JNum (of_int n)) = Some n) \<and> (\<forall>x. co_float co (JNum x) = Some x) \<and>
     (\<forall>b. co_bool co (JBool b) = Some b) \<and> (\<forall>s. co_str co (JStr s) = Some s) \<and>
     (\<forall>x. co_value co (JNum x) = Some (Num x)) \<and> (\<forall>s. co_value co (JStr s) = Some (Str s)) \<and>
     (\<forall>t. co_datetime co (JStr (show_dt t)) = Some t) \<and> (\<forall>s. co_text co (JStr s) = s)"

text \<open>What a load raises: the lookups of the dictionary, or a \<open>ValidationError\<close> of the models.\<close>

datatype DocError = Doc_key_error string | Doc_type_error | Doc_attribute_error | Doc_validation_error

definition valid :: "'a option \<Rightarrow> DocError + 'a" where
  "valid x = (case x of None \<Rightarrow> Inl Doc_validation_error | Some v \<Rightarrow> Inr v)"

definition validated :: "ModelError + 'a \<Rightarrow> DocError + 'a" where
  "validated r = map_sum (\<lambda>_. Doc_validation_error) (\<lambda>x. x) r"

text \<open>A \<open>Literal\<close> or an enum: one of the listed values, by its name.\<close>

definition read_literal :: "('a \<Rightarrow> string) \<Rightarrow> 'a list \<Rightarrow> json \<Rightarrow> DocError + 'a" where
  "read_literal name all j =
     valid (case j of JStr s \<Rightarrow> find (\<lambda>x. name x = s) all | _ \<Rightarrow> None)"

text \<open>The fields of a model that forbids extra ones, a required field, one with a default, and \<open>X | None\<close>.\<close>

definition read_fields :: "string list \<Rightarrow> json \<Rightarrow> DocError + (string, json) dict" where
  "read_fields names j =
     (case j of
        JObj kvs \<Rightarrow> if list_all (\<lambda>(k, _). k \<in> set names) kvs then Inr kvs else Inl Doc_validation_error
      | _ \<Rightarrow> Inl Doc_validation_error)"

definition required :: "(json \<Rightarrow> DocError + 'a) \<Rightarrow> (string, json) dict \<Rightarrow> string \<Rightarrow> DocError + 'a" where
  "required rd kvs k = (case map_of kvs k of None \<Rightarrow> Inl Doc_validation_error | Some j \<Rightarrow> rd j)"

definition with_default :: "'a \<Rightarrow> (json \<Rightarrow> DocError + 'a) \<Rightarrow> (string, json) dict \<Rightarrow> string \<Rightarrow> DocError + 'a" where
  "with_default d rd kvs k = (case map_of kvs k of None \<Rightarrow> Inr d | Some j \<Rightarrow> rd j)"

definition nullable :: "(json \<Rightarrow> DocError + 'a) \<Rightarrow> json \<Rightarrow> DocError + 'a option" where
  "nullable rd j = (if j = JNull then Inr None else map_sum (\<lambda>e. e) Some (rd j))"

definition read_array :: "(json \<Rightarrow> DocError + 'a) \<Rightarrow> json \<Rightarrow> DocError + 'a list" where
  "read_array rd j = (case j of JArr xs \<Rightarrow> map_res rd xs | _ \<Rightarrow> Inl Doc_validation_error)"

definition null_or :: "('a \<Rightarrow> json) \<Rightarrow> 'a option \<Rightarrow> json" where
  "null_or f x = (case x of None \<Rightarrow> JNull | Some v \<Rightarrow> f v)"

definition jint_of :: "int \<Rightarrow> json" where
  "jint_of n = JNum (of_int n)"

subsection \<open>Names of the literals\<close>

fun direction_name :: "Direction \<Rightarrow> string" where
  "direction_name Dir_above = ''above''"
| "direction_name Dir_below = ''below''"
| "direction_name Dir_high = ''high''"
| "direction_name Dir_low = ''low''"

fun mode_name :: "DeltaMode \<Rightarrow> string" where
  "mode_name Last_minus_first = ''last_minus_first''"
| "mode_name Max_minus_min = ''max_minus_min''"

fun unit_name :: "GrowthUnit \<Rightarrow> string" where
  "unit_name Per_hour = ''per_hour''"
| "unit_name Per_day = ''per_day''"

fun combine_name :: "Combine \<Rightarrow> string" where
  "combine_name Combine_AND = ''AND''"
| "combine_name Combine_OR = ''OR''"

fun key_name :: "GroupByKey \<Rightarrow> string" where
  "key_name Key_eqpId = ''eqpId''"
| "key_name Key_proc = ''proc''"

fun expand_name :: "ExpandMode \<Rightarrow> string" where
  "expand_name Expand_scalar = ''scalar''"
| "expand_name Expand_instance = ''instance''"

fun kind_name :: "MetricKind \<Rightarrow> string" where
  "kind_name Gauge = ''gauge''"
| "kind_name Counter = ''counter''"
| "kind_name Cumulative = ''cumulative''"

fun quantifier_name :: "Quantifier \<Rightarrow> string" where
  "quantifier_name Q_any = ''any''"
| "quantifier_name Q_all = ''all''"
| "quantifier_name Q_count = ''count''"

definition read_fact_type :: "json \<Rightarrow> DocError + FactType" where
  "read_fact_type = read_literal fact_name [FT_MAX, FT_MIN, FT_AVG, FT_LAST, FT_P50, FT_P90, FT_P95, FT_P99, FT_SPIKE_COUNT,
     FT_DURATION, FT_DELTA, FT_GROWTH_RATE, FT_MOVING_AVG, FT_TREND, FT_ZSCORE, FT_BASELINE_DEV]"

definition read_operator :: "json \<Rightarrow> DocError + Operator" where
  "read_operator = read_literal op_name [OP_GE, OP_GT, OP_LE, OP_LT, OP_EQ, OP_NE, OP_TREND]"

subsection \<open>Writing\<close>

definition bucketing_json :: "Bucketing \<Rightarrow> json" where
  "bucketing_json b = JObj [(''seconds'', jint_of (b_seconds b)), (''points'', null_or jint_of (b_points b))]"

definition baseline_json :: "BaselineSpec \<Rightarrow> json" where
  "baseline_json b =
     JObj [(''days'', jint_of (bl_days b)), (''same_hour'', JBool (bl_same_hour b)),
       (''min_points'', jint_of (bl_min_points b)), (''deviation_floor'', JNum (bl_deviation_floor b))]"

definition fact_json :: "Fact \<Rightarrow> json" where
  "fact_json f =
     JObj [(''type'', JStr (fact_name (f_type f))), (''over'', null_or JNum (f_over f)),
       (''direction'', null_or (\<lambda>d. JStr (direction_name d)) (f_direction f)),
       (''mode'', null_or (\<lambda>d. JStr (mode_name d)) (f_mode f)), (''unit'', null_or (\<lambda>u. JStr (unit_name u)) (f_unit f))]"

definition measure_json :: "Measure \<Rightarrow> json" where
  "measure_json m =
     JObj [(''id'', JStr (m_id m)), (''category'', JStr (m_category m)), (''metric'', JStr (m_metric m)),
       (''proc'', JStr (m_proc m)), (''window_minutes'', jint_of (m_window_minutes m)),
       (''group_by'', JArr (map (\<lambda>k. JStr (key_name k)) (m_group_by m))), (''expand'', JStr (expand_name (m_expand m))),
       (''metric_kind'', null_or (\<lambda>k. JStr (kind_name k)) (m_metric_kind m)),
       (''bucketing'', null_or bucketing_json (m_bucketing m)), (''baseline'', null_or baseline_json (m_baseline m)),
       (''facts'', JArr (map fact_json (m_facts m)))]"

fun value_json :: "Value \<Rightarrow> json" where
  "value_json (Num x) = JNum x"
| "value_json (Str s) = JStr s"

definition condition_json :: "Condition \<Rightarrow> json" where
  "condition_json c =
     JObj [(''fact'', JStr (c_fact c)), (''op'', JStr (op_name (c_op c))), (''value'', value_json (c_value c)),
       (''quantifier'', JStr (quantifier_name (c_quantifier c))), (''count_min'', null_or jint_of (c_count_min c))]"

definition rule_json :: "Rule \<Rightarrow> json" where
  "rule_json r =
     JObj [(''id'', JStr (r_id r)), (''interval_minutes'', jint_of (r_interval_minutes r)),
       (''severity'', JStr (severity_name (r_severity r))), (''combine'', JStr (combine_name (r_combine r))),
       (''when'', JArr (map condition_json (r_when r))), (''notify'', JStr (r_notify r)), (''enabled'', JBool (r_enabled r))]"

definition channel_json :: "NotifyChannel \<Rightarrow> json" where
  "channel_json n =
     JObj [(''cooldown_minutes'', jint_of (n_cooldown_minutes n)), (''email_code'', JStr (n_email_code n)),
       (''email_subcode'', null_or JStr (n_email_subcode n)), (''group_by'', JStr (group_by_name (n_group_by n))),
       (''email_group'', null_or JStr (n_email_group n))]"

definition governance_json :: "(datetime \<Rightarrow> string) \<Rightarrow> Governance \<Rightarrow> json" where
  "governance_json show_dt g =
     JObj [(''version'', jint_of (g_version g)), (''updated_by'', JStr (g_updated_by g)),
       (''updated_at'', JStr (show_dt (g_updated_at g))), (''change_reason'', JStr (g_change_reason g))]"

definition to_mongo :: "(datetime \<Rightarrow> string) \<Rightarrow> MonitorProfile \<Rightarrow> (string, json) dict" where
  "to_mongo show_dt p =
     [(''scope'', JObj (map (\<lambda>(k, s). (k, JStr s)) (scope_to_mongo (p_scope p)))), (''enabled'', JBool (p_enabled p)),
      (''governance'', governance_json show_dt (p_governance p)), (''measures'', JArr (map measure_json (p_measures p))),
      (''rules'', JArr (map rule_json (p_rules p))), (''notify'', JObj (map (\<lambda>(k, n). (k, channel_json n)) (p_notify p)))]"

subsection \<open>Reading\<close>

text \<open>\<open>model_validate\<close> of the models: fields with their defaults, then the validator of the model.\<close>

definition read_bucketing :: "Coercion \<Rightarrow> json \<Rightarrow> DocError + Bucketing" where
  "read_bucketing co j =
     bind_res (read_fields [''seconds'', ''points''] j) (\<lambda>kvs.
     bind_res (required (\<lambda>v. valid (co_int co v)) kvs ''seconds'') (\<lambda>seconds.
     bind_res (with_default None (nullable (\<lambda>v. valid (co_int co v))) kvs ''points'') (\<lambda>points.
     Inr \<lparr>b_seconds = seconds, b_points = points\<rparr>)))"

definition read_baseline :: "Coercion \<Rightarrow> json \<Rightarrow> DocError + BaselineSpec" where
  "read_baseline co j =
     bind_res (read_fields [''days'', ''same_hour'', ''min_points'', ''deviation_floor''] j) (\<lambda>kvs.
     bind_res (with_default 7 (\<lambda>v. valid (co_int co v)) kvs ''days'') (\<lambda>days.
     bind_res (with_default True (\<lambda>v. valid (co_bool co v)) kvs ''same_hour'') (\<lambda>same_hour.
     bind_res (with_default 30 (\<lambda>v. valid (co_int co v)) kvs ''min_points'') (\<lambda>min_points.
     bind_res (with_default 1 (\<lambda>v. valid (co_float co v)) kvs ''deviation_floor'') (\<lambda>deviation_floor.
     Inr \<lparr>bl_days = days, bl_same_hour = same_hour, bl_min_points = min_points, bl_deviation_floor = deviation_floor\<rparr>)))))"

definition read_fact_model :: "Coercion \<Rightarrow> json \<Rightarrow> DocError + Fact" where
  "read_fact_model co j =
     bind_res (read_fields [''type'', ''over'', ''direction'', ''mode'', ''unit''] j) (\<lambda>kvs.
     bind_res (required read_fact_type kvs ''type'') (\<lambda>type.
     bind_res (with_default None (nullable (\<lambda>v. valid (co_float co v))) kvs ''over'') (\<lambda>over.
     bind_res (with_default None (nullable (read_literal direction_name [Dir_above, Dir_below, Dir_high, Dir_low])) kvs ''direction'') (\<lambda>direction.
     bind_res (with_default None (nullable (read_literal mode_name [Last_minus_first, Max_minus_min])) kvs ''mode'') (\<lambda>mode.
     bind_res (with_default None (nullable (read_literal unit_name [Per_hour, Per_day])) kvs ''unit'') (\<lambda>u.
     validated (fact_per_type_params
       \<lparr>f_type = type, f_over = over, f_direction = direction, f_mode = mode, f_unit = u\<rparr>)))))))"

definition read_measure :: "Coercion \<Rightarrow> json \<Rightarrow> DocError + Measure" where
  "read_measure co j =
     bind_res (read_fields [''id'', ''category'', ''metric'', ''proc'', ''window_minutes'', ''group_by'', ''expand'', ''metric_kind'',
       ''bucketing'', ''baseline'', ''facts''] j) (\<lambda>kvs.
     bind_res (required (\<lambda>v. valid (co_str co v)) kvs ''id'') (\<lambda>mid.
     bind_res (required (\<lambda>v. valid (co_str co v)) kvs ''category'') (\<lambda>category.
     bind_res (required (\<lambda>v. valid (co_str co v)) kvs ''metric'') (\<lambda>metric.
     bind_res (with_default ''@system'' (\<lambda>v. valid (co_str co v)) kvs ''proc'') (\<lambda>proc.
     bind_res (required (\<lambda>v. valid (co_int co v)) kvs ''window_minutes'') (\<lambda>window_minutes.
     bind_res (with_default [Key_eqpId] (read_array (read_literal key_name [Key_eqpId, Key_proc])) kvs ''group_by'') (\<lambda>group_by.
     bind_res (with_default Expand_scalar (read_literal expand_name [Expand_scalar, Expand_instance]) kvs ''expand'') (\<lambda>expand.
     bind_res (with_default None (nullable (read_literal kind_name [Gauge, Counter, Cumulative])) kvs ''metric_kind'') (\<lambda>metric_kind.
     bind_res (with_default None (nullable (read_bucketing co)) kvs ''bucketing'') (\<lambda>bucketing.
     bind_res (with_default None (nullable (read_baseline co)) kvs ''baseline'') (\<lambda>baseline.
     bind_res (required (read_array (read_fact_model co)) kvs ''facts'') (\<lambda>facts.
     validated (measure_consistency
       \<lparr>m_id = mid, m_category = category, m_metric = metric, m_proc = proc, m_window_minutes = window_minutes,
        m_group_by = group_by, m_expand = expand, m_metric_kind = metric_kind, m_bucketing = bucketing,
        m_baseline = baseline, m_facts = facts\<rparr>)))))))))))))"

definition read_condition :: "Coercion \<Rightarrow> json \<Rightarrow> DocError + Condition" where
  "read_condition co j =
     bind_res (read_fields [''fact'', ''op'', ''value'', ''quantifier'', ''count_min''] j) (\<lambda>kvs.
     bind_res (required (\<lambda>v. valid (co_str co v)) kvs ''fact'') (\<lambda>ref.
     bind_res (required read_operator kvs ''op'') (\<lambda>op.
     bind_res (required (\<lambda>v. valid (co_value co v)) kvs ''value'') (\<lambda>val.
     bind_res (with_default Q_any (read_literal quantifier_name [Q_any, Q_all, Q_count]) kvs ''quantifier'') (\<lambda>quantifier.
     bind_res (with_default None (nullable (\<lambda>v. valid (co_int co v))) kvs ''count_min'') (\<lambda>count_min.
     validated (condition_checks
       \<lparr>c_fact = ref, c_op = op, c_value = val, c_quantifier = quantifier, c_count_min = count_min\<rparr>)))))))"

definition read_rule :: "Coercion \<Rightarrow> json \<Rightarrow> DocError + Rule" where
  "read_rule co j =
     bind_res (read_fields [''id'', ''interval_minutes'', ''severity'', ''combine'', ''when'', ''notify'', ''enabled''] j) (\<lambda>kvs.
     bind_res (required (\<lambda>v. valid (co_str co v)) kvs ''id'') (\<lambda>rid.
     bind_res (required (\<lambda>v. valid (co_int co v)) kvs ''interval_minutes'') (\<lambda>interval_minutes.
     bind_res (required (read_literal severity_name [WARNING, CRITICAL]) kvs ''severity'') (\<lambda>severity.
     bind_res (with_default Combine_AND (read_literal combine_name [Combine_AND, Combine_OR]) kvs ''combine'') (\<lambda>combine.
     bind_res (required (read_array (read_condition co)) kvs ''when'') (\<lambda>conditions.
     bind_res (with_default ''default'' (\<lambda>v. valid (co_str co v)) kvs ''notify'') (\<lambda>notify.
     bind_res (with_default True (\<lambda>v. valid (co_bool co v)) kvs ''enabled'') (\<lambda>enabled.
     validated (rule_nonempty
       \<lparr>r_id = rid, r_interval_minutes = interval_minutes, r_severity = severity, r_combine = combine,
        r_when = conditions, r_notify = notify, r_enabled = enabled\<rparr>)))))))))"

definition read_channel :: "Coercion \<Rightarrow> json \<Rightarrow> DocError + NotifyChannel" where
  "read_channel co j =
     bind_res (read_fields [''cooldown_minutes'', ''email_code'', ''email_subcode'', ''group_by'', ''email_group''] j) (\<lambda>kvs.
     bind_res (required (\<lambda>v. valid (co_int co v)) kvs ''cooldown_minutes'') (\<lambda>cooldown_minutes.
     bind_res (with_default ''RESOURCE_MONITOR'' (\<lambda>v. valid (co_str co v)) kvs ''email_code'') (\<lambda>email_code.
     bind_res (with_default None (nullable (\<lambda>v. valid (co_str co v))) kvs ''email_subcode'') (\<lambda>email_subcode.
     bind_res (with_default By_eqp (read_literal group_by_name [By_eqp, By_model, By_process]) kvs ''group_by'') (\<lambda>group_by.
     bind_res (with_default None (nullable (\<lambda>v. valid (co_str co v))) kvs ''email_group'') (\<lambda>email_group.
     Inr \<lparr>n_cooldown_minutes = cooldown_minutes, n_email_code = email_code, n_email_subcode = email_subcode,
          n_group_by = group_by, n_email_group = email_group\<rparr>))))))"

definition read_governance :: "Coercion \<Rightarrow> datetime \<Rightarrow> json \<Rightarrow> DocError + Governance" where
  "read_governance co now j =
     bind_res (read_fields [''version'', ''updated_by'', ''updated_at'', ''change_reason''] j) (\<lambda>kvs.
     bind_res (with_default 1 (\<lambda>v. valid (co_int co v)) kvs ''version'') (\<lambda>version.
     bind_res (with_default [] (\<lambda>v. valid (co_str co v)) kvs ''updated_by'') (\<lambda>updated_by.
     bind_res (with_default now (\<lambda>v. valid (co_datetime co v)) kvs ''updated_at'') (\<lambda>updated_at.
     bind_res (with_default [] (\<lambda>v. valid (co_str co v)) kvs ''change_reason'') (\<lambda>change_reason.
     Inr \<lparr>g_version = version, g_updated_by = updated_by, g_updated_at = updated_at, g_change_reason = change_reason\<rparr>)))))"

text \<open>\<open>_strip_legacy_notify\<close>: \<open>in\<close> is a key test on a dictionary, membership in a list and a substring test on a text.\<close>

definition REMOVED_NOTIFY_KEYS :: "string list" where
  "REMOVED_NOTIFY_KEYS = [''representatives'']"

definition strip_legacy_notify :: "json \<Rightarrow> DocError + json" where
  "strip_legacy_notify channel =
     (case channel of
        JObj kvs \<Rightarrow>
          if list_ex (\<lambda>k. map_of kvs k \<noteq> None) REMOVED_NOTIFY_KEYS
          then Inr (JObj (filter (\<lambda>(k, _). k \<notin> set REMOVED_NOTIFY_KEYS) kvs)) else Inr channel
      | JArr xs \<Rightarrow> if list_ex (\<lambda>k. JStr k \<in> set xs) REMOVED_NOTIFY_KEYS then Inl Doc_attribute_error else Inr channel
      | JStr s \<Rightarrow> if list_ex (\<lambda>k. occurs_in k s) REMOVED_NOTIFY_KEYS then Inl Doc_attribute_error else Inr channel
      | _ \<Rightarrow> Inl Doc_type_error)"

definition read_scope :: "Coercion \<Rightarrow> json \<Rightarrow> DocError + Scope" where
  "read_scope co j =
     (case j of
        JObj kvs \<Rightarrow>
          (case map_of kvs ''process'' of
             None \<Rightarrow> Inl (Doc_key_error ''process'')
           | Some p \<Rightarrow>
               bind_res (valid (co_str co p)) (\<lambda>process_name.
               bind_res (valid (co_str co (dict_get kvs ''eqpModel'' (JStr wildcard)))) (\<lambda>model_name.
               bind_res (valid (co_str co (dict_get kvs ''eqpId'' (JStr wildcard)))) (\<lambda>eqp.
               Inr \<lparr>s_process = process_name, s_eqp_model = model_name, s_eqp_id = eqp\<rparr>))))
      | _ \<Rightarrow> Inl Doc_type_error)"

text \<open>\<open>for x in v\<close> over a JSON value: the elements of a list, the keys of a dictionary, the characters of a text.\<close>

definition iterate :: "json \<Rightarrow> DocError + json list" where
  "iterate j =
     (case j of
        JArr xs \<Rightarrow> Inr xs
      | JObj kvs \<Rightarrow> Inr (map (\<lambda>(k, _). JStr k) kvs)
      | JStr s \<Rightarrow> Inr (map (\<lambda>c. JStr [c]) s)
      | _ \<Rightarrow> Inl Doc_type_error)"

definition read_notify :: "Coercion \<Rightarrow> json \<Rightarrow> DocError + (string, NotifyChannel) dict" where
  "read_notify co j =
     (case j of
        JObj kvs \<Rightarrow>
          map_res (\<lambda>(k, v). bind_res (strip_legacy_notify v) (\<lambda>channel.
            map_sum (\<lambda>e. e) (Pair k) (read_channel co channel))) kvs
      | _ \<Rightarrow> Inl Doc_attribute_error)"

definition from_mongo :: "Coercion \<Rightarrow> datetime \<Rightarrow> (string, json) dict \<Rightarrow> DocError + MonitorProfile" where
  "from_mongo co now doc =
     (let raw_id = dict_get doc ''_id'' JNull;
          id_str = (if raw_id \<noteq> JNull then Some (co_text co raw_id) else None);
          gov_doc = dict_get doc ''governance'' JNull
      in case map_of doc ''scope'' of
           None \<Rightarrow> Inl (Doc_key_error ''scope'')
         | Some scope_doc \<Rightarrow>
             bind_res (read_scope co scope_doc) (\<lambda>scope.
             bind_res (if jtruthy gov_doc then read_governance co now gov_doc else Inr (default_governance now)) (\<lambda>governance.
             bind_res (bind_res (iterate (dict_get doc ''measures'' (JArr []))) (map_res (read_measure co))) (\<lambda>measures.
             bind_res (bind_res (iterate (dict_get doc ''rules'' (JArr []))) (map_res (read_rule co))) (\<lambda>rules.
             bind_res (read_notify co (dict_get doc ''notify'' (JObj []))) (\<lambda>notify.
             bind_res (valid (co_bool co (dict_get doc ''enabled'' (JBool True)))) (\<lambda>enabled.
             validated (doc_consistency
               \<lparr>p_id = id_str, p_scope = scope, p_enabled = enabled, p_governance = governance,
                p_measures = measures, p_rules = rules, p_notify = notify\<rparr>))))))))"

subsection \<open>Reading back what was written\<close>

lemma valid_simps [simp]: "valid (Some x) = Inr x" "valid None = Inl Doc_validation_error"
  by (simp_all add: valid_def)

lemma validated_Inr [simp]: "validated (Inr x) = Inr x"
  by (simp add: validated_def)

lemma validated_eq_Inr: "validated r = Inr x \<longleftrightarrow> r = Inr x"
  by (cases r) (simp_all add: validated_def)

lemma read_field_simps [simp]:
  "map_of kvs k = Some j \<Longrightarrow> required rd kvs k = rd j"
  "map_of kvs k = Some j \<Longrightarrow> with_default d rd kvs k = rd j"
  by (simp_all add: required_def with_default_def)

text \<open>
  A writer and a reader that agree on the values \<open>ok\<close> allows, as far as \<open>relies\<close> holds; such a pair
  extends to optional values and to lists.
\<close>

locale codec =
  fixes relies :: bool and wr :: "'a \<Rightarrow> json" and rd :: "json \<Rightarrow> DocError + 'a" and ok :: "'a \<Rightarrow> bool"
  assumes read_back: "relies \<Longrightarrow> ok x \<Longrightarrow> rd (wr x) = Inr x"
    and not_null: "wr x \<noteq> JNull"
begin

lemma nullable_back: "relies \<Longrightarrow> pred_option ok x \<Longrightarrow> nullable rd (null_or wr x) = Inr x"
  by (cases x) (auto simp: nullable_def null_or_def read_back not_null)

lemma map_back: "relies \<Longrightarrow> list_all ok xs \<Longrightarrow> map_res rd (map wr xs) = Inr xs"
  by (induction xs) (auto simp: read_back)

lemma array_back: "relies \<Longrightarrow> list_all ok xs \<Longrightarrow> read_array rd (JArr (map wr xs)) = Inr xs"
  by (simp add: read_array_def map_back)

end

lemma read_fields_JObj [simp]:
  "list_all (\<lambda>(k, _). k \<in> set names) kvs \<Longrightarrow> read_fields names (JObj kvs) = Inr kvs"
  by (simp add: read_fields_def)

lemma read_literals [simp]:
  "read_literal direction_name [Dir_above, Dir_below, Dir_high, Dir_low] (JStr (direction_name d)) = Inr d"
  "read_literal mode_name [Last_minus_first, Max_minus_min] (JStr (mode_name md)) = Inr md"
  "read_literal unit_name [Per_hour, Per_day] (JStr (unit_name u)) = Inr u"
  "read_literal combine_name [Combine_AND, Combine_OR] (JStr (combine_name cb)) = Inr cb"
  "read_literal key_name [Key_eqpId, Key_proc] (JStr (key_name k)) = Inr k"
  "read_literal expand_name [Expand_scalar, Expand_instance] (JStr (expand_name e)) = Inr e"
  "read_literal kind_name [Gauge, Counter, Cumulative] (JStr (kind_name mk)) = Inr mk"
  "read_literal quantifier_name [Q_any, Q_all, Q_count] (JStr (quantifier_name q)) = Inr q"
  "read_literal severity_name [WARNING, CRITICAL] (JStr (severity_name sv)) = Inr sv"
  "read_literal group_by_name [By_eqp, By_model, By_process] (JStr (group_by_name g)) = Inr g"
  subgoal by (cases d) (simp_all add: read_literal_def)
  subgoal by (cases md) (simp_all add: read_literal_def)
  subgoal by (cases u) (simp_all add: read_literal_def)
  subgoal by (cases cb) (simp_all add: read_literal_def)
  subgoal by (cases k) (simp_all add: read_literal_def)
  subgoal by (cases e) (simp_all add: read_literal_def)
  subgoal by (cases mk) (simp_all add: read_literal_def)
  subgoal by (cases q) (simp_all add: read_literal_def)
  subgoal by (cases sv) (simp_all add: read_literal_def severity_name_def)
  subgoal by (cases g) (simp_all add: read_literal_def group_by_name_def)
  done

lemma read_names [simp]:
  "read_fact_type (JStr (fact_name t)) = Inr t" "read_operator (JStr (op_name p)) = Inr p"
  subgoal by (cases t) (simp_all add: read_fact_type_def read_literal_def)
  subgoal by (cases p) (simp_all add: read_operator_def read_literal_def)
  done

lemma written_not_null [simp]: "jint_of n \<noteq> JNull" "value_json v \<noteq> JNull"
  by (simp add: jint_of_def) (cases v; simp)

lemma coercesD:
  assumes "coerces show_dt co"
  shows "co_int co (jint_of n) = Some n" "co_float co (JNum x) = Some x" "co_bool co (JBool b) = Some b"
    "co_str co (JStr s) = Some s" "co_value co (value_json v) = Some v" "co_datetime co (JStr (show_dt t)) = Some t"
    "co_text co (JStr s) = s"
  using assms by (cases v; simp add: coerces_def jint_of_def)+

lemma record_eta [simp]:
  "\<lparr>f_type = f_type f, f_over = f_over f, f_direction = f_direction f, f_mode = f_mode f, f_unit = f_unit f\<rparr> = f"
  "\<lparr>c_fact = c_fact c, c_op = c_op c, c_value = c_value c, c_quantifier = c_quantifier c, c_count_min = c_count_min c\<rparr> = c"
  "\<lparr>m_id = m_id m, m_category = m_category m, m_metric = m_metric m, m_proc = m_proc m,
     m_window_minutes = m_window_minutes m, m_group_by = m_group_by m, m_expand = m_expand m,
     m_metric_kind = m_metric_kind m, m_bucketing = m_bucketing m, m_baseline = m_baseline m, m_facts = m_facts m\<rparr> = m"
  by simp_all

lemma wf_fact_accepted: "wf_fact f \<Longrightarrow> fact_per_type_params f = Inr f"
  by (cases "f_type f") (auto simp: fact_per_type_params_def wf_fact_def REQUIRES_OVER_DIRECTION_def)

lemma rule_accepted_iff: "rule_nonempty r = Inr r' \<longleftrightarrow> r' = r \<and> r_when r \<noteq> []"
  by (auto simp: rule_nonempty_def)

interpretation ints: codec "coerces show_dt co" jint_of "\<lambda>v. valid (co_int co v)" "\<lambda>_. True" for show_dt co
  by unfold_locales (simp_all add: coercesD)

interpretation floats: codec "coerces show_dt co" JNum "\<lambda>v. valid (co_float co v)" "\<lambda>_. True" for show_dt co
  by unfold_locales (simp_all add: coercesD)

interpretation texts: codec "coerces show_dt co" JStr "\<lambda>v. valid (co_str co v)" "\<lambda>_. True" for show_dt co
  by unfold_locales (simp_all add: coercesD)

interpretation bucketings: codec "coerces show_dt co" bucketing_json "read_bucketing co" "\<lambda>_. True" for show_dt co
  by unfold_locales
    (simp_all add: bucketing_json_def read_bucketing_def coercesD ints.nullable_back option.pred_True)

interpretation baselines: codec "coerces show_dt co" baseline_json "read_baseline co" "\<lambda>_. True" for show_dt co
  by unfold_locales (simp_all add: baseline_json_def read_baseline_def coercesD)

interpretation directions: codec True "\<lambda>d. JStr (direction_name d)" "read_literal direction_name [Dir_above, Dir_below, Dir_high, Dir_low]" "\<lambda>_. True"
  by unfold_locales simp_all

interpretation modes: codec True "\<lambda>d. JStr (mode_name d)" "read_literal mode_name [Last_minus_first, Max_minus_min]" "\<lambda>_. True"
  by unfold_locales simp_all

interpretation growth_units: codec True "\<lambda>d. JStr (unit_name d)" "read_literal unit_name [Per_hour, Per_day]" "\<lambda>_. True"
  by unfold_locales simp_all

interpretation kinds: codec True "\<lambda>d. JStr (kind_name d)" "read_literal kind_name [Gauge, Counter, Cumulative]" "\<lambda>_. True"
  by unfold_locales simp_all

interpretation keys: codec True "\<lambda>d. JStr (key_name d)" "read_literal key_name [Key_eqpId, Key_proc]" "\<lambda>_. True"
  by unfold_locales simp_all

interpretation facts: codec "coerces show_dt co" fact_json "read_fact_model co" wf_fact for show_dt co
  by unfold_locales
    (simp_all add: fact_json_def read_fact_model_def floats.nullable_back directions.nullable_back modes.nullable_back
      growth_units.nullable_back option.pred_True wf_fact_accepted)

definition wf_document_measure :: "Measure \<Rightarrow> bool" where
  "wf_document_measure m \<longleftrightarrow> wf_measure m \<and> list_all wf_fact (m_facts m)"

interpretation measures: codec "coerces show_dt co" measure_json "read_measure co" wf_document_measure for show_dt co
  by unfold_locales
    (simp_all add: measure_json_def read_measure_def coercesD keys.array_back kinds.nullable_back bucketings.nullable_back
      baselines.nullable_back facts.array_back option.pred_True list.pred_True wf_document_measure_def wf_measure_accepted)

interpretation conditions: codec "coerces show_dt co" condition_json "read_condition co" wf_condition for show_dt co
  by unfold_locales
    (simp_all add: condition_json_def read_condition_def coercesD ints.nullable_back option.pred_True condition_accepted_iff validated_eq_Inr)

interpretation rules: codec "coerces show_dt co" rule_json "read_rule co" wf_rule for show_dt co
  by unfold_locales
    (simp_all add: rule_json_def read_rule_def coercesD conditions.array_back wf_rule_def rule_accepted_iff validated_eq_Inr)

interpretation channels: codec "coerces show_dt co" channel_json "read_channel co" "\<lambda>_. True" for show_dt co
  by unfold_locales
    (simp_all add: channel_json_def read_channel_def coercesD texts.nullable_back option.pred_True)

interpretation governances: codec "coerces show_dt co" "governance_json show_dt" "read_governance co now" "\<lambda>_. True" for show_dt co now
  by unfold_locales (simp_all add: governance_json_def read_governance_def coercesD)

lemma read_back_notify: "coerces show_dt co \<Longrightarrow> read_notify co (JObj (map (\<lambda>(k, n). (k, channel_json n)) d)) = Inr d"
proof (induction d)
  case (Cons e d)
  obtain k n where e: "e = (k, n)" by (cases e)
  have "strip_legacy_notify (channel_json n) = Inr (channel_json n)"
    by (simp add: strip_legacy_notify_def channel_json_def REMOVED_NOTIFY_KEYS_def)
  with Cons show ?case by (simp add: read_notify_def e channels.read_back)
qed (simp add: read_notify_def)

lemma read_back_scope:
  "coerces show_dt co \<Longrightarrow> read_scope co (JObj (map (\<lambda>(k, s). (k, JStr s)) (scope_to_mongo sc))) = Inr sc"
  by (simp add: read_scope_def scope_to_mongo_def dict_get_def coercesD)

definition wf_document :: "MonitorProfile \<Rightarrow> bool" where
  "wf_document p \<longleftrightarrow> wf_profile p \<and> list_all (\<lambda>m. list_all wf_fact (m_facts m)) (p_measures p)"

lemma read_back_profile:
  assumes "coerces show_dt co" "wf_document p"
  shows "from_mongo co now ((case oid of None \<Rightarrow> [] | Some i \<Rightarrow> [(''_id'', JStr i)]) @ to_mongo show_dt p)
    = Inr (p\<lparr>p_id := oid\<rparr>)"
proof -
  define doc where "doc = (case oid of None \<Rightarrow> [] | Some i \<Rightarrow> [(''_id'', JStr i)]) @ to_mongo show_dt p"
  have keys: "map_of doc ''scope'' = Some (JObj (map (\<lambda>(k, s). (k, JStr s)) (scope_to_mongo (p_scope p))))"
    "dict_get doc ''enabled'' d = JBool (p_enabled p)" "dict_get doc ''governance'' d = governance_json show_dt (p_governance p)"
    "dict_get doc ''measures'' d = JArr (map measure_json (p_measures p))" "dict_get doc ''rules'' d = JArr (map rule_json (p_rules p))"
    "dict_get doc ''notify'' d = JObj (map (\<lambda>(k, n). (k, channel_json n)) (p_notify p))"
    "dict_get doc ''_id'' JNull = (case oid of None \<Rightarrow> JNull | Some i \<Rightarrow> JStr i)" for d
    by (cases oid; simp add: doc_def to_mongo_def dict_get_def)+
  have gov: "jtruthy (governance_json show_dt g)" for g by (simp add: jtruthy_def governance_json_def)
  have "list_all wf_document_measure (p_measures p)" "list_all wf_rule (p_rules p)"
    "distinct (map m_id (p_measures p))" "distinct (map r_id (p_rules p))"
    using assms(2) by (auto simp: wf_document_def wf_profile_def wf_document_measure_def list_all_iff)
  then show ?thesis
    unfolding doc_def [symmetric]
    by (cases oid)
      (simp_all add: from_mongo_def Let_def keys gov iterate_def doc_consistency_def read_back_scope [OF assms(1)]
        governances.read_back [OF assms(1)] measures.map_back [OF assms(1)] rules.map_back [OF assms(1)]
        read_back_notify [OF assms(1)] coercesD [OF assms(1)])
qed

text \<open>
  C36. Storing and loading a profile gives the profile back: whatever \<open>to_mongo\<close> wrote for a profile the
  models accept, with or without the \<open>_id\<close> the database adds, is read by \<open>from_mongo\<close> without an
  exception and field by field as it was, the id being the one of the document.
\<close>
theorem stored_profile_loads:
  assumes "coerces show_dt co" "wf_document p"
  shows "from_mongo co now ((case oid of None \<Rightarrow> [] | Some i \<Rightarrow> [(''_id'', JStr i)]) @ to_mongo show_dt p)
    = Inr (p\<lparr>p_id := oid\<rparr>)"
  by (rule read_back_profile [OF assms])

subsection \<open>What loads is well formed\<close>

lemma map_res_all:
  "map_res f xs = Inr ys \<Longrightarrow> (\<And>x y. f x = Inr y \<Longrightarrow> P y) \<Longrightarrow> list_all P ys"
  by (induction xs arbitrary: ys) (auto split: sum.splits)

lemma map_res_keys:
  "map_res f kvs = Inr d \<Longrightarrow> (\<And>e x. f e = Inr x \<Longrightarrow> fst x = fst e) \<Longrightarrow> map fst d = map fst kvs"
  by (induction kvs arbitrary: d) (auto split: sum.splits)

lemma required_array_all:
  assumes "required (read_array rd) kvs k = Inr xs" "\<And>x y. rd x = Inr y \<Longrightarrow> P y"
  shows "list_all P xs"
proof -
  from assms(1) obtain js where "map_res rd js = Inr xs"
    by (auto simp: required_def read_array_def split: option.splits json.splits)
  then show ?thesis by (rule map_res_all) (rule assms(2))
qed

lemma map_sum_Pair_Inr: "map_sum (\<lambda>e. e) (Pair k) r = Inr x \<longleftrightarrow> (\<exists>y. r = Inr y \<and> x = (k, y))"
  by (cases r) auto

lemma read_notify_keys: "read_notify co (JObj kvs) = Inr d \<Longrightarrow> map fst d = map fst kvs"
  unfolding read_notify_def json.simps
  by (rule map_res_keys, assumption) (auto simp: bind_res_eq_Inr map_sum_Pair_Inr split: prod.splits)

lemma read_fact_wf: "read_fact_model co j = Inr f \<Longrightarrow> wf_fact f"
  by (auto simp: read_fact_model_def bind_res_eq_Inr validated_eq_Inr dest: fact_validator)

lemma read_condition_wf: "read_condition co j = Inr c \<Longrightarrow> wf_condition c"
  by (auto simp: read_condition_def bind_res_eq_Inr validated_eq_Inr condition_accepted_iff)

lemma read_rule_wf: "read_rule co j = Inr r \<Longrightarrow> wf_rule r"
  by (auto simp: read_rule_def bind_res_eq_Inr validated_eq_Inr rule_accepted_iff wf_rule_def
      elim: required_array_all [OF _ read_condition_wf])

lemma read_measure_wf: "read_measure co j = Inr m \<Longrightarrow> wf_document_measure m"
proof -
  assume "read_measure co j = Inr m"
  then obtain n kvs where n: "measure_consistency n = Inr m" and f: "required (read_array (read_fact_model co)) kvs ''facts'' = Inr (m_facts n)"
    by (auto simp: read_measure_def bind_res_eq_Inr validated_eq_Inr)
  from required_array_all [OF f read_fact_wf] measure_accepted_wf [OF n] show ?thesis
    by (simp add: wf_document_measure_def)
qed

lemma loaded_wf:
  assumes "\<And>kvs. map_of doc ''notify'' = Some (JObj kvs) \<Longrightarrow> distinct (map fst kvs)"
    and "from_mongo co now doc = Inr p"
  shows "wf_document p"
proof -
  from assms(2) have p: "doc_consistency p = Inr p" "\<exists>js. map_res (read_measure co) js = Inr (p_measures p)"
    "\<exists>js. map_res (read_rule co) js = Inr (p_rules p)"
    "read_notify co (dict_get doc ''notify'' (JObj [])) = Inr (p_notify p)"
    by (auto simp: from_mongo_def Let_def bind_res_eq_Inr validated_eq_Inr doc_consistency_def split: option.splits if_splits)
  have "distinct (map fst (p_notify p))"
  proof (cases "map_of doc ''notify''")
    case None
    with p(4) show ?thesis by (simp add: dict_get_def read_notify_def)
  next
    case (Some j)
    with p(4) obtain kvs where "j = JObj kvs" by (auto simp: dict_get_def read_notify_def split: json.splits)
    with Some p(4) assms(1) show ?thesis by (metis dict_get_def option.simps(5) read_notify_keys)
  qed
  moreover have "list_all wf_document_measure (p_measures p)" "list_all wf_rule (p_rules p)"
    using p(2,3) by (auto intro: map_res_all read_measure_wf read_rule_wf)
  ultimately show ?thesis
    using p(1) by (auto simp: wf_document_def wf_profile_def wf_document_measure_def doc_consistency_def list_all_iff split: if_splits)
qed

text \<open>
  C37. Loading is a gate: whatever a document holds (written by hand, by another release or by a client
  with other types), what \<open>from_mongo\<close> returns satisfies every condition of the models, so the
  analysis only ever sees well-formed profiles; and storing the loaded profile and loading it again
  changes nothing.
\<close>
theorem loaded_profile_wf:
  assumes "coerces show_dt co" "\<And>kvs. map_of doc ''notify'' = Some (JObj kvs) \<Longrightarrow> distinct (map fst kvs)"
    and "from_mongo co now doc = Inr p"
  shows "wf_document p \<and>
    from_mongo co later ((case p_id p of None \<Rightarrow> [] | Some i \<Rightarrow> [(''_id'', JStr i)]) @ to_mongo show_dt p) = Inr p"
  using loaded_wf [OF assms(2,3)] read_back_profile [OF assms(1), of p later "p_id p"] by simp

subsection \<open>Documents of earlier releases\<close>

text \<open>
  A channel written by an earlier release, with a value under a removed key: the model rejects it
  as it stands, and loading a document drops the key and reads the channel that was stored.
\<close>

definition legacy_channel_json :: "json \<Rightarrow> NotifyChannel \<Rightarrow> json" where
  "legacy_channel_json v n = (case channel_json n of JObj kvs \<Rightarrow> JObj (kvs @ [(''representatives'', v)]) | j \<Rightarrow> j)"

lemma legacy_channel_rejected: "read_channel co (legacy_channel_json v n) = Inl Doc_validation_error"
  by (simp add: read_channel_def legacy_channel_json_def channel_json_def read_fields_def)

lemma legacy_channel_stripped: "strip_legacy_notify (legacy_channel_json v n) = Inr (channel_json n)"
  by (simp add: strip_legacy_notify_def legacy_channel_json_def channel_json_def REMOVED_NOTIFY_KEYS_def)

lemma legacy_notify_loads:
  "coerces show_dt co \<Longrightarrow> read_notify co (JObj (map (\<lambda>(k, n). (k, legacy_channel_json (v k) n)) d)) = Inr d"
proof (induction d)
  case (Cons e d)
  obtain k n where e: "e = (k, n)" by (cases e)
  with Cons show ?case by (simp add: read_notify_def legacy_channel_stripped channels.read_back)
qed (simp add: read_notify_def)

subsection \<open>A document\<close>

text \<open>A strict conversion: every scalar has exactly its own type.\<close>

definition strict_coercion :: Coercion where
  "strict_coercion =
     \<lparr>co_int = (\<lambda>j. case j of JNum x \<Rightarrow> if of_int \<lfloor>x\<rfloor> = x then Some \<lfloor>x\<rfloor> else None | _ \<Rightarrow> None),
      co_float = (\<lambda>j. case j of JNum x \<Rightarrow> Some x | _ \<Rightarrow> None), co_bool = (\<lambda>j. case j of JBool b \<Rightarrow> Some b | _ \<Rightarrow> None),
      co_str = (\<lambda>j. case j of JStr s \<Rightarrow> Some s | _ \<Rightarrow> None),
      co_value = (\<lambda>j. case j of JNum x \<Rightarrow> Some (Num x) | JStr s \<Rightarrow> Some (Str s) | _ \<Rightarrow> None),
      co_datetime = (\<lambda>j. case j of JStr s \<Rightarrow> py_int s | _ \<Rightarrow> None), co_text = (\<lambda>j. case j of JStr s \<Rightarrow> s | _ \<Rightarrow> [])\<rparr>"

lemma strict_coerces: "coerces str_of_int strict_coercion"
  by (simp add: coerces_def strict_coercion_def py_int_str_of_int)

lemma sample_document_wf: "wf_document sample_profile"
  by (simp add: wf_document_def sample_defs wf_profile_def wf_rule_def wf_condition_def wf_measure_def measure_types_def needs_def
      measure_derive_def Let_def has_wildcard_def WILDCARD_CHARS_def wildcard_def catalog_defs wf_fact_def)

theorem stored_profile_loads_witness:
  "from_mongo strict_coercion 9 ((''_id'', JStr ''65f0'') # to_mongo str_of_int sample_profile)
    = Inr (sample_profile\<lparr>p_id := Some ''65f0''\<rparr>)"
  using stored_profile_loads [OF strict_coerces sample_document_wf, of 9 "Some ''65f0''"] by simp

text \<open>A sparse document written by hand: defaults are filled in and the expansion is derived.\<close>

definition sparse_document :: "(string, json) dict" where
  "sparse_document =
     [(''scope'', JObj [(''process'', JStr ''ETCH'')]),
      (''measures'', JArr [JObj [(''id'', JStr ''disk''), (''category'', JStr ''disk''), (''metric'', JStr ''*''),
         (''window_minutes'', JNum 30), (''facts'', JArr [JObj [(''type'', JStr ''max'')]])]])]"

theorem loaded_profile_wf_witness:
  "wf_document \<lparr>p_id = None, p_scope = \<lparr>s_process = ''ETCH'', s_eqp_model = ''*'', s_eqp_id = ''*''\<rparr>, p_enabled = True,
     p_governance = default_governance 7, p_measures = [measure_derive sample_measure], p_rules = [], p_notify = []\<rparr>"
proof -
  have "from_mongo strict_coercion 7 sparse_document = Inr
    \<lparr>p_id = None, p_scope = \<lparr>s_process = ''ETCH'', s_eqp_model = ''*'', s_eqp_id = ''*''\<rparr>, p_enabled = True,
     p_governance = default_governance 7, p_measures = [measure_derive sample_measure], p_rules = [], p_notify = []\<rparr>"
    by code_simp
  from loaded_profile_wf [OF strict_coerces _ this] show ?thesis by (simp add: sparse_document_def)
qed

end
