(* ===== verification/Analysis_Lock.thy ===== *)
theory Analysis_Lock
  imports Scheduler Reachability
begin

text \<open>
  \<open>src/src/distributed/lock.py\<close>, \<open>ZKAnalysisLock\<close> with its two layers, for any number of instances and
  tasks: the \<open>asyncio.Lock\<close> per process of an instance (a task that finds it taken queues, and a
  release hands it to the first in the queue), and the kazoo lock, a node in ZooKeeper that one
  session holds. Every point at which \<open>acquire\<close> suspends is a step, so the steps of the tasks
  interleave freely; a cancellation or the loss of a session can come at each of them.
\<close>

subsection \<open>State\<close>

record AsyncLock =
  al_owner :: "nat option"
  al_waiters :: "nat list"

definition new_AsyncLock :: AsyncLock where
  "new_AsyncLock = \<lparr>al_owner = None, al_waiters = []\<rparr>"

text \<open>
  Where a task is in \<open>acquire\<close>: waiting for the local lock, in the executor call of the kazoo
  acquire, or in the body, with the session in which it got the node.
\<close>

datatype Phase = Outside | Queued string | Acquiring string | Inside string nat

text \<open>
  Who holds a node: a task of an instance, or an executor thread of an instance that got the node
  after the task waiting for it had been cancelled.
\<close>

datatype Holder = HeldBy nat nat | HeldByThread nat

record LockSystem =
  asyncio_locks :: "nat \<Rightarrow> string \<Rightarrow> AsyncLock option"
  phase :: "nat \<Rightarrow> nat \<Rightarrow> Phase"
  node :: "string \<Rightarrow> Holder option"
  session :: "nat \<Rightarrow> nat"
  threads :: "(nat \<times> string) list"

definition lock_init :: LockSystem where
  "lock_init = \<lparr>asyncio_locks = (\<lambda>_ _. None), phase = (\<lambda>_ _. Outside), node = (\<lambda>_. None), session = (\<lambda>_. 0), threads = []\<rparr>"

definition lock_path :: "string \<Rightarrow> string \<Rightarrow> string" where
  "lock_path root_path process = root_path @ ''/locks/analysis-'' @ process"

subsection \<open>Operations\<close>

definition get_asyncio_lock :: "string \<Rightarrow> (string \<Rightarrow> AsyncLock option) \<Rightarrow> AsyncLock" where
  "get_asyncio_lock process locks = (case locks process of None \<Rightarrow> new_AsyncLock | Some lk \<Rightarrow> lk)"

definition set_phase :: "nat \<Rightarrow> nat \<Rightarrow> Phase \<Rightarrow> LockSystem \<Rightarrow> LockSystem" where
  "set_phase i t ph st = st\<lparr>phase := (phase st)(i := (phase st i)(t := ph))\<rparr>"

definition set_lock :: "nat \<Rightarrow> string \<Rightarrow> AsyncLock \<Rightarrow> LockSystem \<Rightarrow> LockSystem" where
  "set_lock i process lk st = st\<lparr>asyncio_locks := (asyncio_locks st)(i := (asyncio_locks st i)(process \<mapsto> lk))\<rparr>"

text \<open>\<open>async with self._get_asyncio_lock(process)\<close>: enter, or queue behind those already waiting.\<close>

definition lock_enter :: "nat \<Rightarrow> nat \<Rightarrow> string \<Rightarrow> LockSystem \<Rightarrow> LockSystem" where
  "lock_enter i t process st =
     (let lk = get_asyncio_lock process (asyncio_locks st i)
      in if al_owner lk = None \<and> al_waiters lk = []
         then set_phase i t (Acquiring process) (set_lock i process (lk\<lparr>al_owner := Some t\<rparr>) st)
         else set_phase i t (Queued process) (set_lock i process (lk\<lparr>al_waiters := al_waiters lk @ [t]\<rparr>) st))"

text \<open>Leaving that block, however \<open>acquire\<close> ends: the next in the queue goes on to the kazoo acquire.\<close>

definition lock_exit :: "nat \<Rightarrow> nat \<Rightarrow> string \<Rightarrow> LockSystem \<Rightarrow> LockSystem" where
  "lock_exit i t process st =
     (let lk = get_asyncio_lock process (asyncio_locks st i); st1 = set_phase i t Outside st
      in case al_waiters lk of
           [] \<Rightarrow> set_lock i process (lk\<lparr>al_owner := None\<rparr>) st1
         | w # ws \<Rightarrow> set_phase i w (Acquiring process) (set_lock i process \<lparr>al_owner = Some w, al_waiters = ws\<rparr> st1))"

definition lock_withdraw :: "nat \<Rightarrow> nat \<Rightarrow> string \<Rightarrow> LockSystem \<Rightarrow> LockSystem" where
  "lock_withdraw i t process st =
     (let lk = get_asyncio_lock process (asyncio_locks st i)
      in set_phase i t Outside (set_lock i process (lk\<lparr>al_waiters := remove1 t (al_waiters lk)\<rparr>) st))"

definition lock_granted :: "string \<Rightarrow> nat \<Rightarrow> nat \<Rightarrow> string \<Rightarrow> LockSystem \<Rightarrow> LockSystem" where
  "lock_granted root_path i t process st =
     set_phase i t (Inside process (session st i)) (st\<lparr>node := (node st)(lock_path root_path process \<mapsto> HeldBy i t)\<rparr>)"

text \<open>
  The release in the \<open>finally\<close> block: it deletes the task's own node, or is skipped because the session
  is gone, or fails and leaves the node; the exceptions are logged.
\<close>

definition lock_release :: "string \<Rightarrow> nat \<Rightarrow> nat \<Rightarrow> string \<Rightarrow> LockEvent \<Rightarrow> LockSystem \<Rightarrow> LockSystem" where
  "lock_release root_path i t process ev st =
     (if ev = LockReleased \<and> node st (lock_path root_path process) = Some (HeldBy i t)
      then st\<lparr>node := (node st)(lock_path root_path process := None)\<rparr> else st)"

definition holder_instance :: "Holder \<Rightarrow> nat" where
  "holder_instance h = (case h of HeldBy i _ \<Rightarrow> i | HeldByThread i \<Rightarrow> i)"

text \<open>The end of a session deletes its ephemeral nodes.\<close>

definition session_ends :: "nat \<Rightarrow> LockSystem \<Rightarrow> LockSystem" where
  "session_ends i st =
     st\<lparr>session := (session st)(i := Suc (session st i)),
       node := (\<lambda>path. case node st path of
                  None \<Rightarrow> None | Some h \<Rightarrow> if holder_instance h = i then None else Some h)\<rparr>"

inductive lock_step :: "string \<Rightarrow> LockSystem \<Rightarrow> LockSystem \<Rightarrow> bool" for root_path :: string where
  enters: "phase st i t = Outside \<Longrightarrow> lock_step root_path st (lock_enter i t process st)"
| withdraws: "phase st i t = Queued process \<Longrightarrow> lock_step root_path st (lock_withdraw i t process st)"
| granted: "phase st i t = Acquiring process \<Longrightarrow> node st (lock_path root_path process) = None \<Longrightarrow>
    lock_step root_path st (lock_granted root_path i t process st)"
| refused: "phase st i t = Acquiring process \<Longrightarrow> lock_step root_path st (lock_exit i t process st)"
| cancelled: "phase st i t = Acquiring process \<Longrightarrow>
    lock_step root_path st (lock_exit i t process (st\<lparr>threads := (i, process) # threads st\<rparr>))"
| leaves: "phase st i t = Inside process s \<Longrightarrow>
    lock_step root_path st (lock_exit i t process (lock_release root_path i t process ev st))"
| thread_granted: "(i, process) \<in> set (threads st) \<Longrightarrow> node st (lock_path root_path process) = None \<Longrightarrow>
    lock_step root_path st (st\<lparr>threads := remove1 (i, process) (threads st),
      node := (node st)(lock_path root_path process \<mapsto> HeldByThread i)\<rparr>)"
| thread_refused: "(i, process) \<in> set (threads st) \<Longrightarrow>
    lock_step root_path st (st\<lparr>threads := remove1 (i, process) (threads st)\<rparr>)"
| expires: "lock_step root_path st (session_ends i st)"

inductive_cases lock_stepE: "lock_step root_path st st'"

subsection \<open>The local layer\<close>

abbreviation local_lock :: "LockSystem \<Rightarrow> nat \<Rightarrow> string \<Rightarrow> AsyncLock" where
  "local_lock st i process \<equiv> get_asyncio_lock process (asyncio_locks st i)"

definition past_local :: "Phase \<Rightarrow> string \<Rightarrow> bool" where
  "past_local ph process \<longleftrightarrow> ph = Acquiring process \<or> (\<exists>s. ph = Inside process s)"

lemma past_local_simps [simp]:
  "\<not> past_local Outside q" "\<not> past_local (Queued p) q" "past_local (Acquiring p) q \<longleftrightarrow> p = q" "past_local (Inside p s) q \<longleftrightarrow> p = q"
  by (auto simp: past_local_def)

text \<open>
  The bookkeeping of one local lock: its owner is the task that is past it, the queue is the tasks
  that wait for it, each once, and nobody waits for a free lock.
\<close>

definition local_ok :: "AsyncLock \<Rightarrow> (nat \<Rightarrow> Phase) \<Rightarrow> string \<Rightarrow> bool" where
  "local_ok lk ph process \<longleftrightarrow>
     (\<forall>t. al_owner lk = Some t \<longleftrightarrow> past_local (ph t) process) \<and> (\<forall>t. t \<in> set (al_waiters lk) \<longleftrightarrow> ph t = Queued process) \<and>
     distinct (al_waiters lk) \<and> (al_owner lk = None \<longrightarrow> al_waiters lk = [])"

definition lock_ok :: "LockSystem \<Rightarrow> bool" where
  "lock_ok st \<longleftrightarrow> (\<forall>i process. local_ok (local_lock st i process) (phase st i) process)"

lemma update_simps [simp]:
  "phase (set_phase i t ph st) j = (if j = i then (phase st i)(t := ph) else phase st j)"
  "asyncio_locks (set_phase i t ph st) = asyncio_locks st" "node (set_phase i t ph st) = node st"
  "session (set_phase i t ph st) = session st" "threads (set_phase i t ph st) = threads st"
  "phase (set_lock i p lk st) = phase st" "node (set_lock i p lk st) = node st"
  "session (set_lock i p lk st) = session st" "threads (set_lock i p lk st) = threads st"
  "local_lock (set_lock i p lk st) j q = (if j = i \<and> q = p then lk else local_lock st j q)"
  by (simp_all add: set_phase_def set_lock_def get_asyncio_lock_def)

lemma lock_okD: "lock_ok st \<Longrightarrow> local_ok (local_lock st i p) (phase st i) p"
  by (simp add: lock_ok_def)

lemma local_okD:
  assumes "local_ok lk ph p"
  shows "al_owner lk = Some t \<longleftrightarrow> past_local (ph t) p" "t \<in> set (al_waiters lk) \<longleftrightarrow> ph t = Queued p"
    "distinct (al_waiters lk)" "al_owner lk = None \<Longrightarrow> al_waiters lk = []"
  using assms by (simp_all add: local_ok_def)

text \<open>A step that touches one local lock, and moves tasks only with respect to that lock.\<close>

lemma lock_ok_update:
  assumes "lock_ok st" "local_ok (local_lock st' i p) (phase st' i) p"
    and "\<And>j q. (j, q) \<noteq> (i, p) \<Longrightarrow> local_lock st' j q = local_lock st j q" "\<And>j. j \<noteq> i \<Longrightarrow> phase st' j = phase st j"
    and "\<And>t q. q \<noteq> p \<Longrightarrow> (past_local (phase st' i t) q \<longleftrightarrow> past_local (phase st i t) q)"
    and "\<And>t q. q \<noteq> p \<Longrightarrow> (phase st' i t = Queued q \<longleftrightarrow> phase st i t = Queued q)"
  shows "lock_ok st'"
  unfolding lock_ok_def
proof (intro allI)
  fix j q
  show "local_ok (local_lock st' j q) (phase st' j) q"
  proof (cases "(j, q) = (i, p)")
    case False
    then show ?thesis
      using lock_okD [OF assms(1), where i = j and p = q] assms(3) [of j q] assms(4) [of j] assms(5,6) [of q]
      by (cases "j = i") (auto simp: local_ok_def)
  qed (use assms(2) in simp)
qed

lemma past_other: "past_local ph p \<Longrightarrow> q \<noteq> p \<Longrightarrow> \<not> past_local ph q \<and> ph \<noteq> Queued q"
  by (auto simp: past_local_def)

lemma local_request_ok:
  assumes "local_ok lk ph p" "ph t = Outside"
  shows "al_owner lk = None \<Longrightarrow> local_ok (lk\<lparr>al_owner := Some t\<rparr>) (ph(t := Acquiring p)) p"
    "al_owner lk \<noteq> None \<Longrightarrow> local_ok (lk\<lparr>al_waiters := al_waiters lk @ [t]\<rparr>) (ph(t := Queued p)) p"
proof -
  have t: "al_owner lk \<noteq> Some t" "t \<notin> set (al_waiters lk)"
    using local_okD(1,2) [OF assms(1), of t] assms(2) by auto
  show "al_owner lk = None \<Longrightarrow> local_ok (lk\<lparr>al_owner := Some t\<rparr>) (ph(t := Acquiring p)) p"
    using local_okD [OF assms(1)] unfolding local_ok_def by auto
  show "al_owner lk \<noteq> None \<Longrightarrow> local_ok (lk\<lparr>al_waiters := al_waiters lk @ [t]\<rparr>) (ph(t := Queued p)) p"
    using local_okD [OF assms(1)] t unfolding local_ok_def by auto
qed

lemma local_withdraw_ok:
  assumes "local_ok lk ph p" "ph t = Queued p"
  shows "local_ok (lk\<lparr>al_waiters := remove1 t (al_waiters lk)\<rparr>) (ph(t := Outside)) p"
proof -
  have "al_owner lk \<noteq> Some t" using local_okD(1) [OF assms(1), of t] assms(2) by auto
  then show ?thesis using local_okD [OF assms(1)] unfolding local_ok_def by auto
qed

lemma local_exit_ok:
  assumes "local_ok lk ph p" "past_local (ph t) p"
  shows "al_waiters lk = [] \<Longrightarrow> local_ok (lk\<lparr>al_owner := None\<rparr>) (ph(t := Outside)) p"
    "al_waiters lk = w # ws \<Longrightarrow> local_ok \<lparr>al_owner = Some w, al_waiters = ws\<rparr> (ph(t := Outside, w := Acquiring p)) p"
proof -
  have own: "al_owner lk = Some t" using local_okD(1) [OF assms(1), of t] assms(2) by simp
  then have only: "past_local (ph u) p \<longleftrightarrow> u = t" for u using local_okD(1) [OF assms(1), of u] by auto
  have q: "ph u = Queued p \<longleftrightarrow> u \<in> set (al_waiters lk)" for u using local_okD(2) [OF assms(1), of u] by simp
  have "t \<notin> set (al_waiters lk)" using q [of t] assms(2) by auto
  then show "al_waiters lk = [] \<Longrightarrow> local_ok (lk\<lparr>al_owner := None\<rparr>) (ph(t := Outside)) p"
    "al_waiters lk = w # ws \<Longrightarrow> local_ok \<lparr>al_owner = Some w, al_waiters = ws\<rparr> (ph(t := Outside, w := Acquiring p)) p"
    using local_okD(3) [OF assms(1)] by (auto simp: local_ok_def only q)
qed

lemma enter_ok:
  assumes "lock_ok st" "phase st i t = Outside"
  shows "lock_ok (lock_enter i t p st)"
proof -
  note l = lock_okD [OF assms(1), where i = i and p = p]
  have "al_owner (local_lock st i p) = None \<and> al_waiters (local_lock st i p) = [] \<longleftrightarrow> al_owner (local_lock st i p) = None"
    using local_okD(4) [OF l] by blast
  then show ?thesis
    using local_request_ok [OF l assms(2)] assms(2)
    by (intro lock_ok_update [OF assms(1), where i = i and p = p]) (auto simp: lock_enter_def Let_def)
qed

lemma withdraw_ok:
  assumes "lock_ok st" "phase st i t = Queued p"
  shows "lock_ok (lock_withdraw i t p st)"
  using local_withdraw_ok [OF lock_okD [OF assms(1)] assms(2)] assms(2)
  by (intro lock_ok_update [OF assms(1), where i = i and p = p]) (auto simp: lock_withdraw_def Let_def)

lemma exit_ok:
  assumes "lock_ok st" "past_local (phase st i t) p"
  shows "lock_ok (lock_exit i t p st)"
proof (cases "al_waiters (local_lock st i p)")
  case Nil
  then show ?thesis
    using local_exit_ok(1) [OF lock_okD [OF assms(1)] assms(2)] past_other [OF assms(2)]
    by (intro lock_ok_update [OF assms(1), where i = i and p = p]) (auto simp: lock_exit_def Let_def)
next
  case (Cons w ws)
  then have "phase st i w = Queued p" using local_okD(2) [OF lock_okD [OF assms(1), where i = i and p = p], of w] by simp
  then show ?thesis
    using Cons local_exit_ok(2) [OF lock_okD [OF assms(1)] assms(2)] past_other [OF assms(2)]
    by (intro lock_ok_update [OF assms(1), where i = i and p = p]) (auto simp: lock_exit_def Let_def)
qed

lemma lock_ok_cong:
  assumes "asyncio_locks st' = asyncio_locks st" "\<And>i t q. past_local (phase st' i t) q \<longleftrightarrow> past_local (phase st i t) q"
    "\<And>i t q. phase st' i t = Queued q \<longleftrightarrow> phase st i t = Queued q"
  shows "lock_ok st' = lock_ok st"
  using assms by (simp add: lock_ok_def local_ok_def)

lemma release_simps [simp]:
  "phase (lock_release r i t p ev st) = phase st" "asyncio_locks (lock_release r i t p ev st) = asyncio_locks st"
  "session (lock_release r i t p ev st) = session st" "threads (lock_release r i t p ev st) = threads st"
  by (simp_all add: lock_release_def)

lemma exit_simps [simp]:
  "node (lock_exit i t p st) = node st" "session (lock_exit i t p st) = session st" "threads (lock_exit i t p st) = threads st"
  "phase (lock_exit i t p st) j u = Inside q s \<longleftrightarrow> (j, u) \<noteq> (i, t) \<and> phase st j u = Inside q s \<and>
     (\<forall>w ws. al_waiters (local_lock st i p) = w # ws \<longrightarrow> (j, u) \<noteq> (i, w))"
  by (auto simp: lock_exit_def Let_def split: list.splits)

lemma lock_ok_step: "lock_ok st \<Longrightarrow> lock_step root_path st st' \<Longrightarrow> lock_ok st'"
proof (erule lock_stepE)
  fix i t p assume "lock_ok st" "st' = lock_exit i t p (st\<lparr>threads := (i, p) # threads st\<rparr>)" "phase st i t = Acquiring p"
  then show "lock_ok st'" using exit_ok [of "st\<lparr>threads := (i, p) # threads st\<rparr>" i t p] by (simp add: lock_ok_def)
next
  fix i t p s ev assume "lock_ok st" "st' = lock_exit i t p (lock_release root_path i t p ev st)" "phase st i t = Inside p s"
  then show "lock_ok st'" using exit_ok [of "lock_release root_path i t p ev st" i t p] by (simp add: lock_ok_def)
next
  fix i t p assume "lock_ok st" "st' = lock_granted root_path i t p st" "phase st i t = Acquiring p"
  then show "lock_ok st'" by (subst lock_ok_cong [of _ st]) (auto simp: lock_granted_def set_phase_def)
next
  fix i assume "lock_ok st" "st' = session_ends i st"
  then show "lock_ok st'" by (simp add: lock_ok_def session_ends_def)
qed (simp add: enter_ok withdraw_ok exit_ok; simp add: lock_ok_def)+

lemma lock_init_ok: "lock_ok lock_init"
  by (simp add: lock_ok_def local_ok_def lock_init_def get_asyncio_lock_def new_AsyncLock_def)

interpretation local_layer: inductive_invariant "\<lambda>st. st = lock_init" "lock_step root_path" lock_ok for root_path
  by unfold_locales (auto intro: lock_init_ok lock_ok_step)

subsection \<open>The node in ZooKeeper\<close>

text \<open>
  A task in the body holds the node as long as the session in which it got it lives; no task is in a
  session still to come.
\<close>

definition node_ok :: "string \<Rightarrow> LockSystem \<Rightarrow> bool" where
  "node_ok root_path st \<longleftrightarrow>
     (\<forall>i t p s. phase st i t = Inside p s \<longrightarrow>
        s \<le> session st i \<and> (s = session st i \<longrightarrow> node st (lock_path root_path p) = Some (HeldBy i t)))"

lemma lock_path_inj [simp]: "lock_path r p = lock_path r q \<longleftrightarrow> p = q"
  by (simp add: lock_path_def)

lemma node_ok_fewer:
  assumes "node_ok r st" "session st' = session st" "\<And>i t p s. phase st' i t = Inside p s \<Longrightarrow> phase st i t = Inside p s"
    and "\<And>i t p s. phase st' i t = Inside p s \<Longrightarrow> node st (lock_path r p) = Some (HeldBy i t) \<Longrightarrow> node st' (lock_path r p) = Some (HeldBy i t)"
  shows "node_ok r st'"
  using assms unfolding node_ok_def by metis

lemma release_node:
  "node st path = Some (HeldBy j u) \<Longrightarrow> (j, u) \<noteq> (i, t) \<Longrightarrow> node (lock_release r i t p ev st) path = Some (HeldBy j u)"
  by (auto simp: lock_release_def)

lemma node_ok_step: "node_ok r st \<Longrightarrow> lock_step r st st' \<Longrightarrow> node_ok r st'"
proof (erule lock_stepE)
  fix i t p assume "node_ok r st" "st' = lock_granted r i t p st" "node st (lock_path r p) = None"
  then show "node_ok r st'" by (fastforce simp: node_ok_def lock_granted_def set_phase_def)
next
  fix i assume "node_ok r st" "st' = session_ends i st"
  then show "node_ok r st'" by (fastforce simp: node_ok_def session_ends_def holder_instance_def)
next
  fix i t p s ev assume "node_ok r st" "st' = lock_exit i t p (lock_release r i t p ev st)"
  then show "node_ok r st'" by (elim node_ok_fewer) (auto simp: release_node)
qed (elim node_ok_fewer; auto simp: lock_enter_def lock_withdraw_def Let_def split: if_splits)+

lemma node_init_ok: "node_ok r lock_init"
  by (simp add: node_ok_def lock_init_def)

interpretation node_layer: inductive_invariant "\<lambda>st. st = lock_init" "lock_step root_path" "node_ok root_path" for root_path
  by unfold_locales (auto intro: node_init_ok node_ok_step)

abbreviation lock_reachable :: "string \<Rightarrow> LockSystem \<Rightarrow> bool" where
  "lock_reachable root_path \<equiv> reachable (\<lambda>st. st = lock_init) (lock_step root_path)"

lemma lock_reach_init: "lock_reachable r lock_init"
  by (rule reachable_init) (rule refl)

lemma lock_reach_step: "lock_reachable r st \<Longrightarrow> lock_step r st st' \<Longrightarrow> lock_reachable r st'"
  by (rule reachable_step)

text \<open>
  C20. No process is analysed twice at a time: in every reachable state of any number of instances and
  tasks, a task that is in the section of a process excludes every other task of its instance, and,
  as long as the sessions in which they got the lock live, every task of the other instances.
\<close>
theorem analysis_lock_exclusive:
  assumes "lock_reachable root_path st"
    and "phase st i t = Inside p s" "phase st j u = Inside p s'"
    and "i = j \<or> s = session st i \<and> s' = session st j"
  shows "(i, t) = (j, u)"
  using assms(4)
proof
  assume "i = j"
  with local_okD(1) [OF lock_okD [OF local_layer.holds [OF assms(1)], where i = i and p = p]] assms(2,3)
  show ?thesis by (metis option.inject past_local_simps(4))
next
  assume "s = session st i \<and> s' = session st j"
  with node_layer.holds [OF assms(1)] assms(2,3)
  have "node st (lock_path root_path p) = Some (HeldBy i t)" "node st (lock_path root_path p) = Some (HeldBy j u)"
    unfolding node_ok_def by blast+
  then show ?thesis by simp
qed


subsection \<open>Runs\<close>

text \<open>One task in the section and one of the same instance behind it.\<close>

definition held :: LockSystem where
  "held = lock_enter 0 8 ''ETCH'' (lock_granted ''/rms'' 0 7 ''ETCH'' (lock_enter 0 7 ''ETCH'' lock_init))"

lemmas lock_ops =
  lock_enter_def lock_granted_def lock_exit_def get_asyncio_lock_def new_AsyncLock_def set_phase_def set_lock_def Let_def
  lock_init_def session_ends_def holder_instance_def

lemma entered: "lock_reachable r (lock_enter 0 7 ''ETCH'' lock_init)"
  by (rule lock_reach_step [OF lock_reach_init lock_step.enters]) (simp add: lock_init_def)

lemma inside: "lock_reachable r (lock_granted r 0 7 ''ETCH'' (lock_enter 0 7 ''ETCH'' lock_init))"
  by (rule lock_reach_step [OF entered lock_step.granted]) (simp_all add: lock_ops)

lemma held_reachable: "lock_reachable ''/rms'' held"
  unfolding held_def by (rule lock_reach_step [OF inside lock_step.enters]) (simp add: lock_ops)

lemma held_phases: "phase held 0 7 = Inside ''ETCH'' 0" "phase held 0 8 = Queued ''ETCH''" "session held 0 = 0"
  "al_waiters (local_lock held 0 ''ETCH'') = [8]"
  by (simp_all add: held_def lock_ops)

theorem analysis_lock_exclusive_witness: "\<forall>u. phase held 1 u \<noteq> Inside ''ETCH'' (session held 1)"
  using analysis_lock_exclusive [OF held_reachable held_phases(1), of 1] held_phases(3) by auto


text \<open>
  The limits of the two layers. A task that outlives its session is still in the section when the
  next instance enters; and a task cancelled in the executor call leaves a thread behind that may get
  the node, which then stays taken, with nobody in the section, until that session ends.
\<close>

lemma section_outlives_session:
  "\<exists>st. lock_reachable r st \<and> phase st 0 7 = Inside ''ETCH'' 0 \<and> phase st 1 9 = Inside ''ETCH'' 0"
proof -
  let ?st = "lock_enter 1 9 ''ETCH'' (session_ends 0 (lock_granted r 0 7 ''ETCH'' (lock_enter 0 7 ''ETCH'' lock_init)))"
  have "lock_reachable r ?st"
    by (rule lock_reach_step [OF lock_reach_step [OF inside lock_step.expires] lock_step.enters]) (simp add: lock_ops)
  then have "lock_reachable r (lock_granted r 1 9 ''ETCH'' ?st)"
    by (rule lock_reach_step [OF _ lock_step.granted]) (simp_all add: lock_ops)
  then show ?thesis by (intro exI conjI) (assumption, simp_all add: lock_ops)
qed

lemma cancelled_acquire_leaks:
  "\<exists>st. lock_reachable r st \<and> (\<forall>i t. phase st i t = Outside) \<and>
    node st (lock_path r ''ETCH'') = Some (HeldByThread 0)"
proof -
  let ?st = "lock_exit 0 7 ''ETCH'' (lock_enter 0 7 ''ETCH'' lock_init\<lparr>threads := [(0, ''ETCH'')]\<rparr>)"
  have "lock_step r (lock_enter 0 7 ''ETCH'' lock_init) ?st"
    using lock_step.cancelled [of "lock_enter 0 7 ''ETCH'' lock_init" 0 7 "''ETCH''" r] by (simp add: lock_ops)
  from lock_reach_step [OF entered this] have st: "lock_reachable r ?st" .
  have "lock_step r ?st (?st\<lparr>threads := remove1 (0, ''ETCH'') (threads ?st), node := (node ?st)(lock_path r ''ETCH'' \<mapsto> HeldByThread 0)\<rparr>)"
    by (rule lock_step.thread_granted) (simp_all add: lock_ops)
  from lock_reach_step [OF st this] show ?thesis
    by (intro exI conjI) (assumption, simp_all add: lock_ops)
qed

lemma leaked_node_stays:
  assumes "node st path = Some (HeldByThread i)" "lock_step r st st'" "st' \<noteq> session_ends i st"
  shows "node st' path = Some (HeldByThread i)"
  using assms(2,1,3)
  by cases (auto simp: lock_enter_def lock_withdraw_def lock_granted_def lock_release_def session_ends_def holder_instance_def Let_def)

end
