(* ===== verification/Analysis_Slots.thy ===== *)
theory Analysis_Slots
  imports Analysis_Lock "HOL-Library.Multiset"
begin

text \<open>
  The limit on concurrent analyses of an instance: \<open>run_analysis\<close> (\<open>src/src/analyzer/engine.py\<close>) enters the lock of its
  process and then the semaphore that the scheduler (\<open>src/src/scheduler/jobs.py\<close>) shares with the engine. The
  semaphore is asyncio's: its value, and its waiters in the order of arrival, each with the state of
  its future. The steps are the points at which the tasks suspend, so they interleave freely, and a
  cancellation can reach a task at each of them.
\<close>

subsection \<open>State\<close>

definition ES_QUERY_SEMAPHORE :: nat where "ES_QUERY_SEMAPHORE = 3"

text \<open>
  The future of a waiter: open; resolved by a release; resolved, and then its task cancelled;
  cancelled while open.
\<close>

datatype FutureState = Pending | Woken | WokenCancelled | Withdrawn

definition done_by_release :: "FutureState \<Rightarrow> bool" where
  "done_by_release f = (f = Woken \<or> f = WokenCancelled)"

record Waiter =
  wt_task :: nat
  wt_process :: string
  wt_future :: FutureState

text \<open>The tasks in the body of \<open>run_analysis\<close>, those waiting for a slot, and those giving up the lock.\<close>

record Slots =
  sem_value :: nat
  sem_waiters :: "Waiter list"
  sl_running :: "(nat \<times> string) list"
  sl_leaving :: "(nat \<times> string) list"

definition slots_init :: Slots where
  "slots_init = \<lparr>sem_value = ES_QUERY_SEMAPHORE, sem_waiters = [], sl_running = [], sl_leaving = []\<rparr>"

text \<open>The processes whose lock is held, and the tasks under way.\<close>

definition locked_processes :: "Slots \<Rightarrow> string list" where
  "locked_processes s = map snd (sl_running s) @ map wt_process (sem_waiters s) @ map snd (sl_leaving s)"

definition busy_tasks :: "Slots \<Rightarrow> nat list" where
  "busy_tasks s = map fst (sl_running s) @ map wt_task (sem_waiters s) @ map fst (sl_leaving s)"

subsection \<open>asyncio.Semaphore\<close>

definition sem_locked :: "Slots \<Rightarrow> bool" where
  "sem_locked s = (sem_value s = 0 \<or> (\<exists>w\<in>set (sem_waiters s). wt_future w \<noteq> Withdrawn))"

fun wake_first :: "Waiter list \<Rightarrow> Waiter list option" where
  "wake_first [] = None"
| "wake_first (w # ws) =
     (if wt_future w = Pending then Some (w\<lparr>wt_future := Woken\<rparr> # ws) else map_option ((#) w) (wake_first ws))"

definition wake_up_next :: "Slots \<Rightarrow> Slots" where
  "wake_up_next s =
     (case wake_first (sem_waiters s) of None \<Rightarrow> s | Some ws \<Rightarrow> s\<lparr>sem_value := sem_value s - 1, sem_waiters := ws\<rparr>)"

definition sem_acquire :: "nat \<Rightarrow> string \<Rightarrow> Slots \<Rightarrow> Slots" where
  "sem_acquire t process s =
     (if \<not> sem_locked s then s\<lparr>sem_value := sem_value s - 1, sl_running := (t, process) # sl_running s\<rparr>
      else s\<lparr>sem_waiters := sem_waiters s @ [\<lparr>wt_task = t, wt_process = process, wt_future = Pending\<rparr>]\<rparr>)"

definition sem_release :: "Slots \<Rightarrow> Slots" where
  "sem_release s = wake_up_next (s\<lparr>sem_value := sem_value s + 1\<rparr>)"

text \<open>How \<open>acquire\<close> goes on after its future: into the body, or out with the cancellation.\<close>

definition sem_resume :: "Waiter \<Rightarrow> Slots \<Rightarrow> Slots" where
  "sem_resume w s =
     (let s1 = s\<lparr>sem_waiters := remove1 w (sem_waiters s)\<rparr>; item = (wt_task w, wt_process w)
      in case wt_future w of
           Woken \<Rightarrow> (let s2 = (if sem_value s1 > 0 then wake_up_next s1 else s1) in s2\<lparr>sl_running := item # sl_running s2\<rparr>)
         | WokenCancelled \<Rightarrow> (let s2 = sem_release s1 in s2\<lparr>sl_leaving := item # sl_leaving s2\<rparr>)
         | Withdrawn \<Rightarrow> s1\<lparr>sl_leaving := item # sl_leaving s1\<rparr>
         | Pending \<Rightarrow> s)"

text \<open>\<open>Task.cancel\<close> on a task that waits for its slot.\<close>

definition cancel_future :: "FutureState \<Rightarrow> FutureState" where
  "cancel_future f = (case f of Pending \<Rightarrow> Withdrawn | Woken \<Rightarrow> WokenCancelled | _ \<Rightarrow> f)"

definition cancel_waiter :: "nat \<Rightarrow> Slots \<Rightarrow> Slots" where
  "cancel_waiter t s =
     s\<lparr>sem_waiters := map (\<lambda>w. if wt_task w = t then w\<lparr>wt_future := cancel_future (wt_future w)\<rparr> else w) (sem_waiters s)\<rparr>"

subsection \<open>run_analysis\<close>

text \<open>
  \<open>_get_engine\<close>: the engine is built once, with a semaphore of its own that is replaced at once by the
  scheduler's, so all jobs of an instance share one.
\<close>

record 's EngineRef =
  eng_semaphore :: 's

definition get_engine :: "'s \<Rightarrow> 's \<Rightarrow> 's EngineRef option \<Rightarrow> 's EngineRef \<times> 's EngineRef option" where
  "get_engine fresh_semaphore scheduler_semaphore engine =
     (case engine of
        Some e \<Rightarrow> (e, engine)
      | None \<Rightarrow> (let e = \<lparr>eng_semaphore = fresh_semaphore\<rparr>\<lparr>eng_semaphore := scheduler_semaphore\<rparr> in (e, Some e)))"

lemma engines_share_semaphore:
  assumes "get_engine f s None = (e, engine)" "get_engine f' s engine = (e', engine')"
  shows "eng_semaphore e = s \<and> e' = e \<and> engine' = engine"
  using assms by (auto simp: get_engine_def Let_def)

text \<open>Leaving the body, with a result, an exception or a cancellation: the slot first, then the lock.\<close>

definition run_exit :: "nat \<times> string \<Rightarrow> Slots \<Rightarrow> Slots" where
  "run_exit item s =
     (let s1 = sem_release (s\<lparr>sl_running := remove1 item (sl_running s)\<rparr>) in s1\<lparr>sl_leaving := item # sl_leaving s1\<rparr>)"

inductive slot_step :: "Slots \<Rightarrow> Slots \<Rightarrow> bool" where
  arrives: "process \<notin> set (locked_processes s) \<Longrightarrow> t \<notin> set (busy_tasks s) \<Longrightarrow> slot_step s (sem_acquire t process s)"
| resumes: "w \<in> set (sem_waiters s) \<Longrightarrow> wt_future w \<noteq> Pending \<Longrightarrow> slot_step s (sem_resume w s)"
| cancels: "t \<in> wt_task ` set (sem_waiters s) \<Longrightarrow> slot_step s (cancel_waiter t s)"
| exits: "item \<in> set (sl_running s) \<Longrightarrow> slot_step s (run_exit item s)"
| unlocks: "item \<in> set (sl_leaving s) \<Longrightarrow> slot_step s (s\<lparr>sl_leaving := remove1 item (sl_leaving s)\<rparr>)"

inductive_cases slot_stepE: "slot_step s s'"

abbreviation slots_reachable :: "Slots \<Rightarrow> bool" where
  "slots_reachable \<equiv> reachable (\<lambda>s. s = slots_init) slot_step"

subsection \<open>Counting the slots\<close>

definition granted :: "Slots \<Rightarrow> nat" where
  "granted s = length (filter (\<lambda>w. done_by_release (wt_future w)) (sem_waiters s))"

definition waiting :: "Slots \<Rightarrow> bool" where
  "waiting s \<longleftrightarrow> (\<exists>w\<in>set (sem_waiters s). wt_future w = Pending)"

text \<open>
  Every slot is free, in use, or on its way to a waiter; and while a slot is free, a task waits only if
  another one has been woken, who will pass the slot on.
\<close>

definition slots_ok :: "Slots \<Rightarrow> bool" where
  "slots_ok s \<longleftrightarrow>
     sem_value s + length (sl_running s) + granted s = ES_QUERY_SEMAPHORE \<and>
     (waiting s \<and> sem_value s > 0 \<longrightarrow> granted s > 0)"

lemma wake_first_cases:
  "(case wake_first ws of
      None \<Rightarrow> \<forall>w\<in>set ws. wt_future w \<noteq> Pending
    | Some ws' \<Rightarrow> length (filter (\<lambda>w. done_by_release (wt_future w)) ws') = Suc (length (filter (\<lambda>w. done_by_release (wt_future w)) ws)) \<and>
        map wt_process ws' = map wt_process ws \<and> map wt_task ws' = map wt_task ws)"
  by (induction ws) (auto simp: done_by_release_def split: option.splits)

lemma wake_up_next_facts:
  "sl_running (wake_up_next s) = sl_running s" "sl_leaving (wake_up_next s) = sl_leaving s"
  "locked_processes (wake_up_next s) = locked_processes s" "busy_tasks (wake_up_next s) = busy_tasks s"
  using wake_first_cases [of "sem_waiters s"]
  by (auto simp: wake_up_next_def locked_processes_def busy_tasks_def split: option.splits)

text \<open>A wake-up with a slot to give keeps the count, and leaves nobody behind.\<close>

lemma wake_up_next_count:
  assumes "sem_value s > 0"
  shows "sem_value (wake_up_next s) + granted (wake_up_next s) = sem_value s + granted s"
    and "waiting (wake_up_next s) \<Longrightarrow> granted (wake_up_next s) > 0"
  using assms wake_first_cases [of "sem_waiters s"]
  by (auto simp: wake_up_next_def granted_def waiting_def split: option.splits)

definition balance :: "Slots \<Rightarrow> nat" where
  "balance s = sem_value s + length (sl_running s) + granted s"

lemma wake_balance: "sem_value s > 0 \<Longrightarrow> balance (wake_up_next s) = balance s"
  using wake_up_next_count(1) [of s] by (simp add: balance_def wake_up_next_facts)

lemma release_balance: "balance (sem_release s) = Suc (balance s)"
  by (simp add: sem_release_def wake_balance) (simp add: balance_def granted_def)

lemma release_serves: "waiting (sem_release s) \<Longrightarrow> granted (sem_release s) > 0"
  unfolding sem_release_def by (rule wake_up_next_count(2)) simp_all

lemma granted_remove:
  assumes "w \<in> set (sem_waiters s)"
  shows "granted s = granted (s\<lparr>sem_waiters := remove1 w (sem_waiters s)\<rparr>) + (if done_by_release (wt_future w) then 1 else 0)"
proof -
  obtain xs ys where "sem_waiters s = xs @ w # ys" "w \<notin> set xs" using assms by (meson split_list_first)
  then show ?thesis by (simp add: granted_def remove1_append)
qed

lemma waiting_remove: "waiting (s\<lparr>sem_waiters := remove1 w (sem_waiters s)\<rparr>) \<Longrightarrow> waiting s"
  using set_remove1_subset unfolding waiting_def by fastforce

lemma slots_ok_iff: "slots_ok s \<longleftrightarrow> balance s = ES_QUERY_SEMAPHORE \<and> (waiting s \<and> sem_value s > 0 \<longrightarrow> granted s > 0)"
  by (simp add: slots_ok_def balance_def)

lemma lists_only [simp]:
  "granted (s\<lparr>sl_running := rs\<rparr>) = granted s" "granted (s\<lparr>sl_leaving := ls\<rparr>) = granted s" "granted (s\<lparr>sem_value := v\<rparr>) = granted s"
  "waiting (s\<lparr>sl_running := rs\<rparr>) = waiting s" "waiting (s\<lparr>sl_leaving := ls\<rparr>) = waiting s" "waiting (s\<lparr>sem_value := v\<rparr>) = waiting s"
  "balance (s\<lparr>sl_leaving := ls\<rparr>) = balance s"
  by (simp_all add: granted_def waiting_def balance_def)

lemma acquire_ok:
  assumes "slots_ok s"
  shows "slots_ok (sem_acquire t process s)"
proof (cases "sem_locked s")
  case True
  have "granted s > 0" if free: "sem_value s > 0"
  proof -
    obtain w where w: "w \<in> set (sem_waiters s)" "wt_future w \<noteq> Withdrawn" using True free by (auto simp: sem_locked_def)
    show ?thesis
    proof (cases "wt_future w = Pending")
      case True
      then have "waiting s" using w(1) by (auto simp: waiting_def)
      then show ?thesis using assms free by (simp add: slots_ok_def)
    next
      case False
      then have "w \<in> set (filter (\<lambda>w. done_by_release (wt_future w)) (sem_waiters s))"
        using w by (cases "wt_future w") (auto simp: done_by_release_def)
      then show ?thesis unfolding granted_def by (rule length_pos_if_in_set)
    qed
  qed
  then show ?thesis using assms True by (auto simp: sem_acquire_def slots_ok_def granted_def done_by_release_def)
next
  case False
  then show ?thesis using assms by (auto simp: sem_acquire_def sem_locked_def slots_ok_def waiting_def)
qed

lemma resume_ok:
  assumes "slots_ok s" "w \<in> set (sem_waiters s)" "wt_future w \<noteq> Pending"
  shows "slots_ok (sem_resume w s)"
proof -
  define s1 where "s1 = s\<lparr>sem_waiters := remove1 w (sem_waiters s)\<rparr>"
  have removed: "granted s = granted s1 + (if done_by_release (wt_future w) then 1 else 0)"
    unfolding s1_def by (rule granted_remove [OF assms(2)])
  then have one: "balance s1 + (if done_by_release (wt_future w) then 1 else 0) = ES_QUERY_SEMAPHORE"
    using assms(1) by (auto simp: slots_ok_iff balance_def s1_def split: if_splits)
  have still: "waiting s1 \<Longrightarrow> waiting s" unfolding s1_def by (rule waiting_remove)
  consider "wt_future w = Woken" | "wt_future w = WokenCancelled" | "wt_future w = Withdrawn"
    using assms(3) by (cases "wt_future w") auto
  then show ?thesis
  proof cases
    case 1
    let ?s2 = "if sem_value s1 > 0 then wake_up_next s1 else s1"
    have "Suc (balance ?s2) = ES_QUERY_SEMAPHORE" using one 1 wake_balance by (auto simp: done_by_release_def)
    moreover have "waiting ?s2 \<and> sem_value ?s2 > 0 \<longrightarrow> granted ?s2 > 0" using wake_up_next_count(2) [of s1] by auto
    ultimately show ?thesis using 1 by (simp add: sem_resume_def s1_def [symmetric] slots_ok_iff balance_def Let_def)
  next
    case 2
    then show ?thesis using one release_balance release_serves
      by (simp add: sem_resume_def s1_def [symmetric] slots_ok_iff done_by_release_def Let_def)
  next
    case 3
    then show ?thesis using one still removed assms(1)
      by (auto simp: sem_resume_def s1_def [symmetric] slots_ok_iff done_by_release_def Let_def) (simp add: s1_def)
  qed
qed

lemma cancel_ok:
  assumes "slots_ok s"
  shows "slots_ok (cancel_waiter t s)"
proof -
  have "done_by_release (cancel_future f) = done_by_release f" "cancel_future f \<noteq> Pending" for f
    by (cases f; simp add: cancel_future_def done_by_release_def)+
  then have "granted (cancel_waiter t s) = granted s" "waiting (cancel_waiter t s) \<Longrightarrow> waiting s"
    by (auto simp: granted_def waiting_def cancel_waiter_def filter_map comp_def if_distrib cong: if_cong split: if_splits)
  then show ?thesis using assms by (auto simp: slots_ok_def) (simp_all add: cancel_waiter_def)
qed

lemma run_exit_ok:
  assumes "slots_ok s" "item \<in> set (sl_running s)"
  shows "slots_ok (run_exit item s)"
proof -
  have "Suc (balance (s\<lparr>sl_running := remove1 item (sl_running s)\<rparr>)) = balance s"
    using assms(2) length_pos_if_in_set [OF assms(2)] by (simp add: balance_def length_remove1)
  then show ?thesis using assms(1) release_balance release_serves by (simp add: run_exit_def slots_ok_iff Let_def)
qed

text \<open>The same lists of processes and tasks, for the steps that move a task.\<close>

lemma acquire_lists:
  "mset (locked_processes (sem_acquire t process s)) = add_mset process (mset (locked_processes s))"
  "mset (busy_tasks (sem_acquire t process s)) = add_mset t (mset (busy_tasks s))"
  by (simp_all add: sem_acquire_def locked_processes_def busy_tasks_def)

lemma mset_map_remove1: "x \<in> set xs \<Longrightarrow> add_mset (f x) (mset (map f (remove1 x xs))) = mset (map f xs)"
  by (induction xs) auto

lemma release_lists:
  "locked_processes (sem_release s) = locked_processes s" "busy_tasks (sem_release s) = busy_tasks s"
  "sl_running (sem_release s) = sl_running s" "sl_leaving (sem_release s) = sl_leaving s"
  "map wt_process (sem_waiters (sem_release s)) = map wt_process (sem_waiters s)"
  "map wt_task (sem_waiters (sem_release s)) = map wt_task (sem_waiters s)"
  using wake_first_cases [of "sem_waiters s"]
  by (auto simp: sem_release_def wake_up_next_def locked_processes_def busy_tasks_def split: option.splits)

lemma wake_lists:
  "map wt_process (sem_waiters (wake_up_next s)) = map wt_process (sem_waiters s)"
  "map wt_task (sem_waiters (wake_up_next s)) = map wt_task (sem_waiters s)"
  using wake_first_cases [of "sem_waiters s"] by (auto simp: wake_up_next_def split: option.splits)

lemma resume_lists:
  assumes "w \<in> set (sem_waiters s)"
  shows "mset (locked_processes (sem_resume w s)) = mset (locked_processes s)" "mset (busy_tasks (sem_resume w s)) = mset (busy_tasks s)"
  using mset_map_remove1 [OF assms, of wt_process] mset_map_remove1 [OF assms, of wt_task]
  by (cases "wt_future w"; simp add: sem_resume_def Let_def locked_processes_def busy_tasks_def release_lists wake_lists wake_up_next_facts(1,2)
      flip: mset_map)+

lemma exit_lists:
  assumes "item \<in> set (sl_running s)"
  shows "mset (locked_processes (run_exit item s)) = mset (locked_processes s)" "mset (busy_tasks (run_exit item s)) = mset (busy_tasks s)"
  using mset_map_remove1 [OF assms, of snd] mset_map_remove1 [OF assms, of fst]
  by (simp_all add: run_exit_def Let_def locked_processes_def busy_tasks_def release_lists flip: mset_map)

lemma step_lists_distinct:
  assumes "slot_step s s'" "distinct (locked_processes s)" "distinct (busy_tasks s)"
  shows "distinct (locked_processes s') \<and> distinct (busy_tasks s')"
  using assms(1)
proof cases
  case (arrives process t)
  then have "mset (locked_processes s') = mset (process # locked_processes s)" "mset (busy_tasks s') = mset (t # busy_tasks s)"
    by (simp_all add: acquire_lists)
  note same = this [THEN mset_eq_imp_distinct_iff]
  show ?thesis unfolding same using arrives assms(2,3) by simp
next
  case (resumes w)
  then show ?thesis using assms(2,3) resume_lists [of w s, THEN mset_eq_imp_distinct_iff] by simp
next
  case (cancels t)
  have "map wt_process (sem_waiters s') = map wt_process (sem_waiters s)" "map wt_task (sem_waiters s') = map wt_task (sem_waiters s)"
    by (simp_all add: cancels cancel_waiter_def)
  moreover have "sl_running s' = sl_running s" "sl_leaving s' = sl_leaving s" by (simp_all add: cancels cancel_waiter_def)
  ultimately have "locked_processes s' = locked_processes s" "busy_tasks s' = busy_tasks s"
    unfolding locked_processes_def busy_tasks_def by (simp_all only:)
  then show ?thesis using assms(2,3) by simp
next
  case (exits item)
  then show ?thesis using assms(2,3) exit_lists [of item s, THEN mset_eq_imp_distinct_iff] by simp
next
  case (unlocks item)
  have "mset (snd item # locked_processes s') = mset (locked_processes s)" "mset (fst item # busy_tasks s') = mset (busy_tasks s)"
    using mset_map_remove1 [of item "sl_leaving s" snd] mset_map_remove1 [of item "sl_leaving s" fst] unlocks
    by (simp_all add: locked_processes_def busy_tasks_def flip: mset_map)
  note same = this [THEN mset_eq_imp_distinct_iff]
  show ?thesis using assms(2,3) unfolding same [symmetric] by simp
qed

interpretation slots: inductive_invariant "\<lambda>s. s = slots_init" slot_step
  "\<lambda>s. slots_ok s \<and> distinct (locked_processes s) \<and> distinct (busy_tasks s)"
proof unfold_locales
  fix s
  assume "s = slots_init"
  then show "slots_ok s \<and> distinct (locked_processes s) \<and> distinct (busy_tasks s)"
    by (simp add: slots_init_def slots_ok_def granted_def waiting_def locked_processes_def busy_tasks_def)
next
  fix s s'
  assume ok: "slots_ok s \<and> distinct (locked_processes s) \<and> distinct (busy_tasks s)" and step: "slot_step s s'"
  from step have "slots_ok s'"
    using ok acquire_ok resume_ok cancel_ok run_exit_ok
    by (cases rule: slot_stepE) (auto simp: slots_ok_iff)
  then show "slots_ok s' \<and> distinct (locked_processes s') \<and> distinct (busy_tasks s')"
    using step_lists_distinct [OF step] ok by blast
qed


subsection \<open>First come, first served\<close>

fun ahead :: "nat \<Rightarrow> Waiter list \<Rightarrow> nat" where
  "ahead t [] = 0"
| "ahead t (w # ws) = (if wt_task w = t then 0 else (if wt_future w = Pending then 1 else 0) + ahead t ws)"

definition has_future :: "nat \<Rightarrow> FutureState \<Rightarrow> Waiter list \<Rightarrow> bool" where
  "has_future t f ws \<longleftrightarrow> (\<exists>w\<in>set ws. wt_task w = t \<and> wt_future w = f)"

lemma has_future_Cons [simp]: "has_future t f (w # ws) \<longleftrightarrow> wt_task w = t \<and> wt_future w = f \<or> has_future t f ws"
  by (auto simp: has_future_def)

lemma has_future_task: "has_future t f ws \<Longrightarrow> t \<in> wt_task ` set ws"
  by (auto simp: has_future_def)

lemma wake_first_ahead:
  assumes "distinct (map wt_task ws)" "has_future t Pending ws"
  shows "\<exists>ws'. wake_first ws = Some ws' \<and>
    (ahead t ws = 0 \<and> has_future t Woken ws' \<and> \<not> has_future t Pending ws' \<or> has_future t Pending ws' \<and> Suc (ahead t ws') = ahead t ws)"
  using assms
proof (induction ws)
  case Nil
  then show ?case by (simp add: has_future_def)
next
  case (Cons w ws)
  show ?case
  proof (cases "wt_task w = t")
    case True
    then have "\<not> has_future t f ws" for f using Cons.prems(1) has_future_task by fastforce
    then show ?thesis using True Cons.prems(2) by auto
  next
    case False
    show ?thesis
    proof (cases "wt_future w = Pending")
      case True
      then show ?thesis using False Cons.prems(2) by auto
    next
      case other: False
      then obtain ws' where "wake_first ws = Some ws'"
        "ahead t ws = 0 \<and> has_future t Woken ws' \<and> \<not> has_future t Pending ws' \<or> has_future t Pending ws' \<and> Suc (ahead t ws') = ahead t ws"
        using Cons False by auto
      then show ?thesis using False other by auto
    qed
  qed
qed

lemma ahead_append: "t \<in> wt_task ` set ws \<Longrightarrow> ahead t (ws @ vs) = ahead t ws"
  by (induction ws) auto

lemma ahead_remove1: "wt_task w \<noteq> t \<Longrightarrow> ahead t (remove1 w ws) \<le> ahead t ws"
  by (induction ws) auto

lemma ahead_cancel:
  "ahead t (map (\<lambda>w. if wt_task w = u then w\<lparr>wt_future := cancel_future (wt_future w)\<rparr> else w) ws) \<le> ahead t ws"
proof -
  have "cancel_future f \<noteq> Pending" for f by (cases f) (simp_all add: cancel_future_def)
  then show ?thesis by (induction ws) auto
qed

lemma wake_ahead:
  assumes "distinct (map wt_task (sem_waiters s))" "has_future t Pending (sem_waiters s)"
  shows "ahead t (sem_waiters s) = 0 \<and> has_future t Woken (sem_waiters (wake_up_next s)) \<and> \<not> has_future t Pending (sem_waiters (wake_up_next s)) \<or>
    has_future t Pending (sem_waiters (wake_up_next s)) \<and> Suc (ahead t (sem_waiters (wake_up_next s))) = ahead t (sem_waiters s)"
  using wake_first_ahead [OF assms] by (auto simp: wake_up_next_def)

lemma has_future_remove1:
  "has_future t Pending ws \<Longrightarrow> wt_future w \<noteq> Pending \<Longrightarrow> has_future t Pending (remove1 w ws)"
  unfolding has_future_def by (metis in_set_remove1)

lemma resume_ahead:
  assumes "distinct (map wt_task (sem_waiters s))" "has_future t Pending (sem_waiters s)" "w \<in> set (sem_waiters s)" "wt_future w \<noteq> Pending"
  shows "ahead t (sem_waiters (sem_resume w s)) \<le> ahead t (sem_waiters s) \<or> \<not> has_future t Pending (sem_waiters (sem_resume w s))"
proof -
  define s1 where "s1 = s\<lparr>sem_waiters := remove1 w (sem_waiters s)\<rparr>"
  obtain v where "v \<in> set (sem_waiters s)" "wt_task v = t" "wt_future v = Pending" using assms(2) by (auto simp: has_future_def)
  then have "wt_task w \<noteq> t" using assms(1,3,4) by (auto simp: distinct_map inj_on_def)
  then have less: "ahead t (sem_waiters s1) \<le> ahead t (sem_waiters s)" by (simp add: s1_def ahead_remove1)
  have "distinct (map wt_task (sem_waiters s1))" using assms(1) by (auto simp: s1_def distinct_map intro: inj_on_diff)
  moreover have "has_future t Pending (sem_waiters s1)" using has_future_remove1 [OF assms(2,4)] by (simp add: s1_def)
  ultimately have "ahead t (sem_waiters (wake_up_next (s1\<lparr>sem_value := v\<rparr>))) \<le> ahead t (sem_waiters s1) \<or>
      \<not> has_future t Pending (sem_waiters (wake_up_next (s1\<lparr>sem_value := v\<rparr>)))" for v
    using wake_ahead [of "s1\<lparr>sem_value := v\<rparr>" t] by auto
  from this [of "sem_value s1"] this [of "sem_value s1 + 1"] less assms(4) show ?thesis
    by (cases "wt_future w") (auto simp: sem_resume_def s1_def [symmetric] sem_release_def Let_def)
qed

text \<open>
  C23. Slots are given in the order of arrival: the number of tasks ahead of a waiting one never grows
  while it waits, and the end of any analysis takes one of them away or gives the task its slot, so
  it waits for no more ends than there are tasks ahead of it, and one.
\<close>
theorem analysis_slots_fifo:
  assumes "slots_reachable s" "slot_step s s'" "has_future t Pending (sem_waiters s)"
  shows "(has_future t Pending (sem_waiters s') \<longrightarrow> ahead t (sem_waiters s') \<le> ahead t (sem_waiters s)) \<and>
    (\<forall>item. s' = run_exit item s \<longrightarrow>
       (if ahead t (sem_waiters s) = 0 then has_future t Woken (sem_waiters s')
        else has_future t Pending (sem_waiters s') \<and> Suc (ahead t (sem_waiters s')) = ahead t (sem_waiters s)))"
proof
  have dist: "distinct (map wt_task (sem_waiters s))" using slots.holds [OF assms(1)] by (simp add: busy_tasks_def)
  have freed: "ahead t (sem_waiters s) = 0 \<and> has_future t Woken (sem_waiters (run_exit item s)) \<and> \<not> has_future t Pending (sem_waiters (run_exit item s)) \<or>
    has_future t Pending (sem_waiters (run_exit item s)) \<and> Suc (ahead t (sem_waiters (run_exit item s))) = ahead t (sem_waiters s)" for item
    using wake_ahead [of "s\<lparr>sl_running := remove1 item (sl_running s), sem_value := sem_value s + 1\<rparr>" t] dist assms(3)
    by (simp add: run_exit_def sem_release_def Let_def)
  then show "\<forall>item. s' = run_exit item s \<longrightarrow>
       (if ahead t (sem_waiters s) = 0 then has_future t Woken (sem_waiters s')
        else has_future t Pending (sem_waiters s') \<and> Suc (ahead t (sem_waiters s')) = ahead t (sem_waiters s))"
    by (metis Zero_not_Suc)
  show "has_future t Pending (sem_waiters s') \<longrightarrow> ahead t (sem_waiters s') \<le> ahead t (sem_waiters s)"
    using assms(2)
  proof cases
    case (arrives process u)
    then show ?thesis using ahead_append has_future_task [OF assms(3)] by (simp add: sem_acquire_def)
  next
    case (resumes w)
    then show ?thesis using resume_ahead [OF dist assms(3)] by blast
  next
    case (cancels u)
    then show ?thesis using ahead_cancel by (simp add: cancel_waiter_def)
  next
    case (exits item)
    then show ?thesis using freed [of item] by auto
  qed simp
qed

subsection \<open>An instance\<close>

text \<open>Four analyses arrive; the fourth waits.\<close>

definition four_arrivals :: Slots where
  "four_arrivals = sem_acquire 4 ''D'' (sem_acquire 3 ''C'' (sem_acquire 2 ''B'' (sem_acquire 1 ''A'' slots_init)))"

lemmas slot_evaluation = sem_acquire_def sem_locked_def slots_init_def ES_QUERY_SEMAPHORE_def locked_processes_def busy_tasks_def

lemma four_arrivals_eq:
  "four_arrivals = \<lparr>sem_value = 0, sem_waiters = [\<lparr>wt_task = 4, wt_process = ''D'', wt_future = Pending\<rparr>],
     sl_running = [(3, ''C''), (2, ''B''), (1, ''A'')], sl_leaving = []\<rparr>"
  by (simp add: four_arrivals_def slot_evaluation)

lemma arrival_reachable:
  "slots_reachable s \<Longrightarrow> process \<notin> set (locked_processes s) \<Longrightarrow> t \<notin> set (busy_tasks s) \<Longrightarrow> slots_reachable (sem_acquire t process s)"
  by (rule reachable_step) (auto intro: arrives)

lemma four_arrivals_reachable: "slots_reachable four_arrivals"
  unfolding four_arrivals_def
  by (intro arrival_reachable reachable_init) (simp_all add: slot_evaluation)


theorem analysis_slots_fifo_witness: "has_future 4 Woken (sem_waiters (run_exit (2, ''B'') four_arrivals))"
proof -
  have "slot_step four_arrivals (run_exit (2, ''B'') four_arrivals)" by (rule exits) (simp add: four_arrivals_eq)
  moreover have "has_future 4 Pending (sem_waiters four_arrivals)" by (simp add: has_future_def four_arrivals_eq)
  ultimately show ?thesis
    using analysis_slots_fifo [OF four_arrivals_reachable, of "run_exit (2, ''B'') four_arrivals" 4]
    by (simp add: four_arrivals_eq)
qed

end
