(* ===== verification/Reconcile_Loop.thy ===== *)
theory Reconcile_Loop
  imports Scheduler
begin

text \<open>
  \<open>AnalysisScheduler._reconcile_loop\<close> of \<open>src/src/scheduler/jobs.py\<close>: the task that reconciles the cadence
  of an instance from time to time. Each round of the loop has its own answers of the repository, and
  other tasks may change the scheduler while it sleeps.
\<close>

record Tick =
  tk_cancelled :: bool
  tk_during :: "AnalysisScheduler \<Rightarrow> AnalysisScheduler"
  tk_intervals :: "string \<Rightarrow> JobError + int list"
  tk_distinct :: "JobError + string list"

text \<open>
  The loop over the rounds so far: the exception that ended it, if any, the errors it logged, and the
  scheduler.
\<close>

fun reconcile_loop :: "SchedulerConfig \<Rightarrow> Tick list \<Rightarrow> AnalysisScheduler \<Rightarrow> JobError option \<times> JobError list \<times> AnalysisScheduler" where
  "reconcile_loop cfg [] s = (None, [], s)"
| "reconcile_loop cfg (tk # ticks) s =
     (let s1 = tk_during tk s
      in if tk_cancelled tk then (Some JobCancelled, [], s1)
         else if paused s1 \<or> \<not> running s1 then reconcile_loop cfg ticks s1
         else case reconcile cfg (tk_intervals tk) (tk_distinct tk) s1 of
                (Inl e, s2) \<Rightarrow>
                  if e = JobCancelled then (Some JobCancelled, [], s2)
                  else (case reconcile_loop cfg ticks s2 of (ended, errs, s3) \<Rightarrow> (ended, e # errs, s3))
              | (Inr _, s2) \<Rightarrow> reconcile_loop cfg ticks s2)"

lemma fold_add_keeps:
  "paused (fold (\<lambda>(p, i). add_interval_job p i) ks s) = paused s" "running (fold (\<lambda>(p, i). add_interval_job p i) ks s) = running s"
  "owned_processes (fold (\<lambda>(p, i). add_interval_job p i) ks s) = owned_processes s"
  by (induction ks arbitrary: s) (auto simp: add_interval_job_def)

lemma reconcile_keeps:
  assumes "reconcile cfg iv dp s = (r, s')"
  shows "paused s' = paused s \<and> running s' = running s \<and> owned_processes s' = owned_processes s"
proof -
  have "snd (reconcile cfg iv dp s) = s \<or>
    (\<exists>ks js. snd (reconcile cfg iv dp s) = fold (\<lambda>(p, i). add_interval_job p i) ks (s\<lparr>jobs := js\<rparr>))"
    by (auto simp: reconcile_def Let_def split: sum.splits option.splits)
  with assms show ?thesis by (auto simp: fold_add_keeps)
qed

text \<open>
  A round in which nobody cancels the task and the other tasks leave the assignment and the job store
  in order; the repository answers non-negative intervals or fails, for any reason.
\<close>

definition round_ok :: "string list \<Rightarrow> Tick \<Rightarrow> bool" where
  "round_ok ps tk \<longleftrightarrow>
     \<not> tk_cancelled tk \<and> (\<forall>p\<in>set ps. case tk_intervals tk p of Inl e \<Rightarrow> e \<noteq> JobCancelled | Inr ivs \<Rightarrow> p \<noteq> [] \<and> (\<forall>i\<in>set ivs. 0 \<le> i)) \<and>
     (\<forall>s. jobs_ok s \<and> owned_processes s = Some ps \<longrightarrow>
        jobs_ok (tk_during tk s) \<and> owned_processes (tk_during tk s) = Some ps)"

lemma map_res_Inl: "map_res f xs = Inl e \<Longrightarrow> \<exists>x\<in>set xs. f x = Inl e"
  by (induction xs) (auto split: sum.splits)

lemma bind_res_eq_Inl: "bind_res r f = Inl e \<longleftrightarrow> r = Inl e \<or> (\<exists>a. r = Inr a \<and> f a = Inl e)"
  by (cases r) auto

lemma desired_error: "desired_jobs iv ps = Inl e \<Longrightarrow> \<exists>p\<in>set ps. iv p = Inl e"
  by (auto simp: desired_jobs_def bind_res_eq_Inl dest!: map_res_Inl)

lemma desired_good:
  assumes "desired_jobs iv ps = Inr ds" "\<forall>p\<in>set ps. case iv p of Inl e \<Rightarrow> e \<noteq> JobCancelled | Inr ivs \<Rightarrow> p \<noteq> [] \<and> (\<forall>i\<in>set ivs. 0 \<le> i)"
  shows "\<forall>k\<in>set ds. good_key k"
  using desired_jobs_set [OF assms(1)] assms(2) by (auto simp: good_key_def)

text \<open>One round: the loop goes on, the store stays in order, and the cadence is exact if it could be read.\<close>

lemma reconcile_round:
  assumes "round_ok ps tk" "ps \<noteq> []" "jobs_ok s" "owned_processes s = Some ps"
  shows "\<exists>errs s'. reconcile_loop cfg (tk # ticks) s = (case reconcile_loop cfg ticks s' of (ended, es, t) \<Rightarrow> (ended, errs @ es, t)) \<and>
    jobs_ok s' \<and> owned_processes s' = Some ps \<and>
    (\<forall>ds. desired_jobs (tk_intervals tk) ps = Inr ds \<longrightarrow> job_keys s' = set ds \<or> paused s' \<or> \<not> running s')"
proof -
  let ?s1 = "tk_during tk s"
  have s1: "jobs_ok ?s1" "owned_processes ?s1 = Some ps" "\<not> tk_cancelled tk"
    using assms by (auto simp: round_ok_def)
  show ?thesis
  proof (cases "paused ?s1 \<or> \<not> running ?s1")
    case True
    with s1 show ?thesis by (intro exI [of _ "[]"] exI [of _ ?s1]) (auto split: prod.splits)
  next
    case False
    then have awake: "\<not> paused ?s1" "running ?s1" by auto
    show ?thesis
    proof (cases "desired_jobs (tk_intervals tk) ps")
      case (Inl e)
      then have "e \<noteq> JobCancelled"
        using desired_error [OF Inl] assms(1) by (auto simp: round_ok_def)
      moreover have "reconcile cfg (tk_intervals tk) (tk_distinct tk) ?s1 = (Inl e, ?s1)"
        using awake s1(2) assms(2) Inl by (simp add: reconcile_def processes_to_schedule_def)
      ultimately show ?thesis
        using s1 awake Inl by (intro exI [of _ "[e]"] exI [of _ ?s1]) (auto simp: Let_def split: prod.splits)
    next
      case (Inr ds)
      have good: "\<forall>k\<in>set ds. good_key k"
        by (rule desired_good [OF Inr]) (use assms(1) in \<open>simp add: round_ok_def\<close>)
      from reconcile_sync [OF s1(1) awake s1(2) assms(2) Inr good] obtain ch s' where
        rec: "reconcile cfg (tk_intervals tk) (tk_distinct tk) ?s1 = (Inr ch, s')" and s': "jobs_ok s'" "job_keys s' = set ds"
        by metis
      from reconcile_keeps [OF rec] s1 awake rec s' Inr show ?thesis
        by (intro exI [of _ "[]"] exI [of _ s']) (auto split: prod.splits)
    qed
  qed
qed


text \<open>A round without Mongo, then one with it.\<close>

definition down_tick :: Tick where
  "down_tick = \<lparr>tk_cancelled = False, tk_during = (\<lambda>s. s), tk_intervals = (\<lambda>_. Inl MongoDown), tk_distinct = Inl MongoDown\<rparr>"

definition up_tick :: Tick where
  "up_tick = \<lparr>tk_cancelled = False, tk_during = (\<lambda>s. s), tk_intervals = sample_intervals, tk_distinct = Inr []\<rparr>"


end
