(* ===== verification/App_State.thy ===== *)
theory App_State
  imports Es_Client Connections Email_Client Partition Profiles_Api Cooldown
begin

text \<open>
  \<open>src/src/api/deps.py\<close> and the attributes the lifespan of \<open>src/src/main.py\<close> keeps on
  \<open>app.state\<close>: one optional field per attribute that a provider reads, \<open>None\<close> while it is not
  set (or set to \<open>None\<close>).
\<close>

record AppSettings =
  set_instance_id :: string
  set_debug_read_only :: bool

record ('e, 'm, 'h, 'r) AppState =
  as_settings :: "AppSettings option"
  as_es_client :: "'e ESClient option"
  as_mongo_client :: "'m MongoClient option"
  as_redis_client :: "'h RedisClient option"
  as_zk_client :: "ZKClient option"
  as_email_client :: "EmailAlertClient option"
  as_partition_manager :: "PartitionManager option"
  as_leader_election :: "LeaderElection option"
  as_cooldown_manager :: "'r AlertCooldownManager option"
  as_scheduler :: "AnalysisScheduler option"

definition empty_AppState :: "('e, 'm, 'h, 'r) AppState" where
  "empty_AppState =
     \<lparr>as_settings = None, as_es_client = None, as_mongo_client = None, as_redis_client = None,
      as_zk_client = None, as_email_client = None, as_partition_manager = None,
      as_leader_election = None, as_cooldown_manager = None, as_scheduler = None\<rparr>"

text \<open>
  What an endpoint raises: a provider's \<open>RuntimeError\<close>, an \<open>HTTPException\<close>, another exception (by
  what it wraps), or a cancellation.
\<close>

datatype EndpointExc =
    NotInitialized string | EndpointHttp nat string | EndpointFailed | EndpointCancelled

definition state_attr :: "string \<Rightarrow> 'a option \<Rightarrow> EndpointExc + 'a" where
  "state_attr name x = (case x of None \<Rightarrow> Inl (NotInitialized name) | Some obj \<Rightarrow> Inr obj)"

definition get_settings :: "('e, 'm, 'h, 'r) AppState \<Rightarrow> EndpointExc + AppSettings" where
  "get_settings st = state_attr ''settings'' (as_settings st)"

definition get_es_client :: "('e, 'm, 'h, 'r) AppState \<Rightarrow> EndpointExc + 'e ESClient" where
  "get_es_client st = state_attr ''es_client'' (as_es_client st)"

definition get_mongo_client :: "('e, 'm, 'h, 'r) AppState \<Rightarrow> EndpointExc + 'm MongoClient" where
  "get_mongo_client st = state_attr ''mongo_client'' (as_mongo_client st)"

definition get_redis_client :: "('e, 'm, 'h, 'r) AppState \<Rightarrow> EndpointExc + 'h RedisClient" where
  "get_redis_client st = state_attr ''redis_client'' (as_redis_client st)"

definition get_email_client :: "('e, 'm, 'h, 'r) AppState \<Rightarrow> EndpointExc + EmailAlertClient" where
  "get_email_client st = state_attr ''email_client'' (as_email_client st)"

definition get_cooldown_manager :: "('e, 'm, 'h, 'r) AppState \<Rightarrow> EndpointExc + 'r AlertCooldownManager" where
  "get_cooldown_manager st = state_attr ''cooldown_manager'' (as_cooldown_manager st)"

definition get_scheduler :: "('e, 'm, 'h, 'r) AppState \<Rightarrow> EndpointExc + AnalysisScheduler" where
  "get_scheduler st = state_attr ''scheduler'' (as_scheduler st)"

lemma state_attr_simps [simp]:
  "state_attr name (Some x) = Inr x" "state_attr name None = Inl (NotInitialized name)"
  by (simp_all add: state_attr_def)

lemmas provider_defs = get_settings_def get_es_client_def get_mongo_client_def get_redis_client_def
  get_email_client_def get_cooldown_manager_def get_scheduler_def

text \<open>The status the application answers: an unhandled exception becomes a 500.\<close>

fun exc_status :: "EndpointExc \<Rightarrow> nat option" where
  "exc_status (EndpointHttp n _) = Some n"
| "exc_status (NotInitialized _) = Some 500"
| "exc_status EndpointFailed = Some 500"
| "exc_status EndpointCancelled = None"

end
