(* ===== verification/Endpoints.thy ===== *)
theory Endpoints
  imports App_State
begin

text \<open>
  \<open>src/src/api/health.py\<close>, \<open>src/src/api/admin.py\<close> and \<open>src/src/middleware.py\<close>: the probes, the
  operator endpoints and the request-id middleware. The drivers' calls are arguments on a world
  \<open>'w\<close>; an endpoint answers a response or what it raises, with the application state afterwards.
\<close>

subsection \<open>Probes\<close>

datatype CheckError = CheckCancelled | CheckTimeout | CheckRaised

text \<open>\<open>asyncio.wait_for\<close>: a check that is too slow raises a timeout instead of its result.\<close>

definition wait_for :: "bool \<Rightarrow> CheckError + bool \<Rightarrow> CheckError + bool" where
  "wait_for too_slow res = (if too_slow then Inl CheckTimeout else res)"

definition safe_check :: "CheckError + bool \<Rightarrow> EndpointExc + bool" where
  "safe_check res =
     (case res of
        Inl CheckCancelled \<Rightarrow> Inl EndpointCancelled
      | Inl CheckTimeout \<Rightarrow> Inr False
      | Inl CheckRaised \<Rightarrow> Inr False
      | Inr b \<Rightarrow> Inr b)"

text \<open>The drivers behind the checks, and which of the awaited checks exceed the two seconds.\<close>

record ('e, 'm, 'h, 'w) ProbeEnv =
  pr_es :: "('e, 'w) es_driver"
  pr_mongo_ping :: "'m \<Rightarrow> 'w \<Rightarrow> (ConnError + unit) \<times> 'w"
  pr_redis :: "('h, 'w) redis_driver"
  pr_email_head :: "'w \<Rightarrow> (CheckError + bool) \<times> 'w"
  pr_zk_connected :: "'w \<Rightarrow> bool"
  pr_slow :: "string \<Rightarrow> bool"

definition es_check :: "('e, 'm, 'h, 'w) ProbeEnv \<Rightarrow> 'e ESClient \<Rightarrow> 'w \<Rightarrow> (EndpointExc + bool) \<times> 'w" where
  "es_check env c w =
     (case es_ping (pr_es env) c w of
        (res, w') \<Rightarrow> (safe_check (wait_for (pr_slow env ''elasticsearch'') (map_sum (\<lambda>_. CheckCancelled) (\<lambda>b. b) res)), w'))"

definition mongo_check :: "('e, 'm, 'h, 'w) ProbeEnv \<Rightarrow> 'm MongoClient \<Rightarrow> 'w \<Rightarrow> (EndpointExc + bool) \<times> 'w" where
  "mongo_check env c w =
     (case mongo_ping (pr_mongo_ping env) c w of
        (res, w') \<Rightarrow> (safe_check (wait_for (pr_slow env ''mongodb'') (map_sum (\<lambda>_. CheckCancelled) (\<lambda>b. b) res)), w'))"

definition redis_check :: "('e, 'm, 'h, 'w) ProbeEnv \<Rightarrow> 'h RedisClient \<Rightarrow> 'w \<Rightarrow> (EndpointExc + bool) \<times> 'w" where
  "redis_check env c w =
     (case redis_ping (pr_redis env) c w of
        (res, w') \<Rightarrow> (safe_check (wait_for (pr_slow env ''redis'') (map_sum (\<lambda>_. CheckCancelled) (\<lambda>b. b) res)), w'))"

text \<open>\<open>EmailAlertClient.health_check\<close> answers whether a HEAD request came back, without raising.\<close>

definition email_check :: "('e, 'm, 'h, 'w) ProbeEnv \<Rightarrow> EmailAlertClient \<Rightarrow> 'w \<Rightarrow> (EndpointExc + bool) \<times> 'w" where
  "email_check env c w =
     (if \<not> http_client c then (safe_check (wait_for (pr_slow env ''email_api'') (Inr (health_check False c))), w)
      else (case pr_email_head env w of
              (Inl CheckCancelled, w') \<Rightarrow> (safe_check (wait_for (pr_slow env ''email_api'') (Inl CheckCancelled)), w')
            | (Inl _, w') \<Rightarrow> (safe_check (wait_for (pr_slow env ''email_api'') (Inr (health_check False c))), w')
            | (Inr _, w') \<Rightarrow> (safe_check (wait_for (pr_slow env ''email_api'') (Inr (health_check True c))), w')))"

datatype CheckValue = CheckBool bool | SkippedDebug

record ReadyResponse =
  rr_status_code :: nat
  rr_status :: string
  rr_debug_read_only :: bool
  rr_checks :: "(string, CheckValue) dict"
  rr_scheduler_running :: bool
  rr_is_leader :: "bool option"
  rr_redistribute_unhealthy :: bool
  rr_version :: string

definition VERSION :: string where "VERSION = ''0.1.0''"

definition liveness :: "(string, string) dict" where
  "liveness = [(''status'', ''alive'')]"

text \<open>The verdict over the checks, and the updates of the gauge \<open>INFRA_UP\<close>.\<close>

definition counted :: "bool \<Rightarrow> (string, CheckValue) dict \<Rightarrow> (string, CheckValue) dict" where
  "counted debug_mode checks = filter (\<lambda>(k, v). \<not> (debug_mode \<and> k = ''zookeeper'')) checks"

definition infra_up :: "bool \<Rightarrow> (string, CheckValue) dict \<Rightarrow> (string \<times> real) list" where
  "infra_up debug_mode checks =
     map (\<lambda>(k, v). (k, if v = CheckBool True then 1 else 0)) (counted debug_mode checks)"

definition verdict ::
  "bool \<Rightarrow> (string, CheckValue) dict \<Rightarrow> PartitionManager option \<Rightarrow> LeaderElection option \<Rightarrow> AnalysisScheduler \<Rightarrow>
     ReadyResponse \<times> (string \<times> real) list" where
  "verdict debug_mode checks pm leader scheduler =
     (let redistribute_unhealthy = (case pm of None \<Rightarrow> False | Some p \<Rightarrow> redistribute_unhealthy p);
          all_ok = (list_all (\<lambda>(k, v). v = CheckBool True) (counted debug_mode checks) \<and> \<not> redistribute_unhealthy)
      in (\<lparr>rr_status_code = (if all_ok then 200 else 503),
           rr_status = (if all_ok then ''ready'' else ''not_ready''),
           rr_debug_read_only = debug_mode, rr_checks = checks,
           rr_scheduler_running = running scheduler,
           rr_is_leader = (case pm of None \<Rightarrow> None | Some _ \<Rightarrow> map_option is_leader leader),
           rr_redistribute_unhealthy = redistribute_unhealthy, rr_version = VERSION\<rparr>,
          infra_up debug_mode checks))"

definition bind_check :: "(EndpointExc + bool) \<times> 'w \<Rightarrow> (bool \<Rightarrow> 'w \<Rightarrow> (EndpointExc + 'a) \<times> 'w) \<Rightarrow> (EndpointExc + 'a) \<times> 'w" where
  "bind_check m f = (case m of (Inl e, w) \<Rightarrow> (Inl e, w) | (Inr b, w) \<Rightarrow> f b w)"

text \<open>The checks in their order; the ZooKeeper check is synchronous and skipped in debug mode.\<close>

definition run_checks ::
  "('e, 'm, 'h, 'w) ProbeEnv \<Rightarrow> bool \<Rightarrow> 'e ESClient \<Rightarrow> 'm MongoClient \<Rightarrow> 'h RedisClient \<Rightarrow> EmailAlertClient \<Rightarrow>
     ZKClient option \<Rightarrow> 'w \<Rightarrow> (EndpointExc + (string, CheckValue) dict) \<times> 'w" where
  "run_checks env debug_mode es mongo redis email zk w =
     bind_check (es_check env es w) (\<lambda>b1 w1.
     bind_check (mongo_check env mongo w1) (\<lambda>b2 w2.
     bind_check (redis_check env redis w2) (\<lambda>b3 w3.
     bind_check (email_check env email w3) (\<lambda>b4 w4.
       (Inr [(''elasticsearch'', CheckBool b1), (''mongodb'', CheckBool b2), (''redis'', CheckBool b3), (''email_api'', CheckBool b4),
             (''zookeeper'', if debug_mode then SkippedDebug
                             else CheckBool (case zk of None \<Rightarrow> False | Some z \<Rightarrow> zk_is_connected (pr_zk_connected env w4) z))],
        w4)))))"

definition readiness ::
  "('e, 'm, 'h, 'w) ProbeEnv \<Rightarrow> ('e, 'm, 'h, 'r) AppState \<Rightarrow> 'w \<Rightarrow>
     (EndpointExc + ReadyResponse \<times> (string \<times> real) list) \<times> 'w" where
  "readiness env st w =
     (case bind_res (get_settings st) (\<lambda>settings. bind_res (get_es_client st) (\<lambda>es. bind_res (get_mongo_client st) (\<lambda>mongo.
           bind_res (get_redis_client st) (\<lambda>redis. bind_res (get_email_client st) (\<lambda>email. bind_res (get_scheduler st) (\<lambda>scheduler.
           Inr (set_debug_read_only settings, es, mongo, redis, email, scheduler))))))) of
        Inl e \<Rightarrow> (Inl e, w)
      | Inr (debug_mode, es, mongo, redis, email, scheduler) \<Rightarrow>
          (case run_checks env debug_mode es mongo redis email (as_zk_client st) w of
             (Inl e, w') \<Rightarrow> (Inl e, w')
           | (Inr checks, w') \<Rightarrow>
               (Inr (verdict debug_mode checks (as_partition_manager st) (as_leader_election st) scheduler), w')))"

subsection \<open>Operator endpoints\<close>

record StatusResponse =
  sr_instance_id :: string
  sr_debug_read_only :: bool
  sr_scheduled_jobs :: "(string \<times> string option) list"
  sr_scheduler_running :: bool
  sr_is_leader :: "bool option"
  sr_leader_epoch :: "int option"
  sr_assigned_processes :: "string list option"
  sr_zk_connected :: "bool option"
  sr_zk_server_version :: "string option"

text \<open>
  \<open>GET /admin/status\<close>: \<open>next_run\<close> renders the next run of a job, and the list stays as far as it
  was built when reading a job raises (\<open>None\<close>); the partition manager reads the leadership of
  its election, the same object as the attribute's.
\<close>

fun listed_jobs :: "(string \<Rightarrow> string option option) \<Rightarrow> string list \<Rightarrow> (string \<times> string option) list" where
  "listed_jobs next_run [] = []"
| "listed_jobs next_run (j # js) =
     (case next_run j of None \<Rightarrow> [] | Some t \<Rightarrow> (j, t) # listed_jobs next_run js)"

definition admin_status ::
  "(string \<Rightarrow> string option option) \<Rightarrow> bool \<Rightarrow> ZkError + string \<Rightarrow> ('e, 'm, 'h, 'r) AppState \<Rightarrow> EndpointExc + StatusResponse" where
  "admin_status next_run kazoo_connected stat_outcome st =
     bind_res (get_settings st) (\<lambda>settings. bind_res (get_scheduler st) (\<lambda>scheduler.
     bind_res (case as_zk_client st of
                 None \<Rightarrow> Inr None
               | Some zk \<Rightarrow> (case get_server_version stat_outcome zk of Inl _ \<Rightarrow> Inl EndpointCancelled | Inr v \<Rightarrow> Inr (Some v)))
       (\<lambda>zk_version.
       Inr \<lparr>sr_instance_id = set_instance_id settings, sr_debug_read_only = set_debug_read_only settings,
            sr_scheduled_jobs = listed_jobs next_run (map fst (jobs scheduler)),
            sr_scheduler_running = running scheduler,
            sr_is_leader = (case as_partition_manager st of None \<Rightarrow> None | Some _ \<Rightarrow> map_option is_leader (as_leader_election st)),
            sr_leader_epoch = (case as_partition_manager st of
                None \<Rightarrow> None
              | Some _ \<Rightarrow> (case as_leader_election st of None \<Rightarrow> None | Some le \<Rightarrow> if is_leader le then Some (epoch le) else None)),
            sr_assigned_processes = map_option assigned_processes (as_partition_manager st),
            sr_zk_connected = map_option (zk_is_connected kazoo_connected) (as_zk_client st),
            sr_zk_server_version = zk_version\<rparr>)))"

definition cleared_label :: "CooldownKey \<Rightarrow> string" where
  "cleared_label k =
     (case k of (proc_name, eqp_id, proc, notify, severity) \<Rightarrow>
        proc_name @ '':'' @ eqp_id @ '':'' @ proc @ '':'' @ notify @ '':'' @ severity)"

text \<open>\<open>DELETE /admin/cooldowns\<close>; \<open>proc\<close> defaults to \<open>@system\<close>.\<close>

definition DEFAULT_PROC :: string where "DEFAULT_PROC = ''@system''"

definition delete_cooldown ::
  "'r redis \<Rightarrow> CooldownConfig \<Rightarrow> string \<Rightarrow> string \<Rightarrow> string \<Rightarrow> string \<Rightarrow> string option \<Rightarrow> ('e, 'm, 'h, 'r) AppState \<Rightarrow>
     (EndpointExc + (string, string) dict) \<times> ('e, 'm, 'h, 'r) AppState" where
  "delete_cooldown rd cfg proc_name eqp_id notify severity proc st =
     (let k = (proc_name, eqp_id, case proc of None \<Rightarrow> DEFAULT_PROC | Some p \<Rightarrow> p, notify, severity)
      in case get_cooldown_manager st of
           Inl e \<Rightarrow> (Inl e, st)
         | Inr m \<Rightarrow>
             (case clear_cooldown rd cfg k m of
                (Inl _, m') \<Rightarrow> (Inl EndpointFailed, st\<lparr>as_cooldown_manager := Some m'\<rparr>)
              | (Inr _, m') \<Rightarrow> (Inr [(''cleared'', cleared_label k)], st\<lparr>as_cooldown_manager := Some m'\<rparr>)))"

text \<open>\<open>POST /admin/scheduler/reload\<close>: reconcile, with an unavailable database answered by 503.\<close>

definition reload_scheduler ::
  "'db ApiEnv \<Rightarrow> 'db ProfileRepository \<Rightarrow> ('e, 'm, 'h, 'r) AppState \<Rightarrow> (EndpointExc + bool) \<times> ('e, 'm, 'h, 'r) AppState" where
  "reload_scheduler env r st =
     (case get_scheduler st of
        Inl e \<Rightarrow> (Inl e, st)
      | Inr s \<Rightarrow>
          (case api_reconcile env r s of
             (Inr changed, s') \<Rightarrow> (Inr changed, st\<lparr>as_scheduler := Some s'\<rparr>)
           | (Inl MongoDown, s') \<Rightarrow> (Inl (EndpointHttp 503 ''database unavailable''), st\<lparr>as_scheduler := Some s'\<rparr>)
           | (Inl JobCancelled, s') \<Rightarrow> (Inl EndpointCancelled, st\<lparr>as_scheduler := Some s'\<rparr>)
           | (Inl _, s') \<Rightarrow> (Inl EndpointFailed, st\<lparr>as_scheduler := Some s'\<rparr>)))"

record OutboxResponse =
  or_count :: nat
  or_max_size :: nat
  or_entries :: "OutboxEntry list"
  or_available :: bool

definition email_outbox :: "('e, 'm, 'h, 'r) AppState \<Rightarrow> OutboxResponse" where
  "email_outbox st =
     (case as_email_client st of
        None \<Rightarrow> \<lparr>or_count = 0, or_max_size = 0, or_entries = [], or_available = False\<rparr>
      | Some email_client \<Rightarrow>
          (let snapshot = get_outbox_snapshot email_client
           in \<lparr>or_count = length snapshot, or_max_size = OUTBOX_MAXLEN,
               or_entries = drop (length snapshot - 50) snapshot, or_available = True\<rparr>))"

subsection \<open>Request ids\<close>

definition SKIP_PATHS :: "string list" where
  "SKIP_PATHS = [''/healthz/live'', ''/healthz/ready'', ''/metrics'']"

text \<open>
  \<open>RequestIdMiddleware.dispatch\<close>: the log context is a map; the inner application runs in it and
  answers its response headers or raises, with the context it leaves.
\<close>

definition request_id_dispatch ::
  "string \<Rightarrow> string option \<Rightarrow> string \<Rightarrow> ((string \<rightharpoonup> string) \<Rightarrow> ('x + (string, string) dict) \<times> (string \<rightharpoonup> string)) \<Rightarrow>
     (string \<rightharpoonup> string) \<Rightarrow> ('x + (string, string) dict) \<times> (string \<rightharpoonup> string)" where
  "request_id_dispatch path header fresh_uuid call_next ctx =
     (if path \<in> set SKIP_PATHS then call_next ctx
      else let request_id = (case header of None \<Rightarrow> fresh_uuid | Some h \<Rightarrow> if h = [] then fresh_uuid else h)
           in case call_next (ctx(''request_id'' \<mapsto> request_id)) of
                (Inl e, ctx') \<Rightarrow> (Inl e, ctx'(''request_id'' := None))
              | (Inr headers, ctx') \<Rightarrow>
                  (Inr (AList.update ''X-Request-ID'' request_id headers), ctx'(''request_id'' := None)))"

subsection \<open>What the probes say\<close>

lemma safe_check_simps [simp]:
  "safe_check (Inr b) = Inr b" "safe_check (Inl CheckTimeout) = Inr False"
  "safe_check (Inl CheckRaised) = Inr False" "safe_check (Inl CheckCancelled) = Inl EndpointCancelled"
  by (simp_all add: safe_check_def)

lemma wait_for_Inr [simp]: "safe_check (wait_for slow (Inr b)) = Inr (b \<and> \<not> slow)"
  by (simp add: wait_for_def)

lemma bind_check_Inr [simp]: "bind_check (Inr b, w) f = f b w" "bind_check (Inl e, w) f = (Inl e, w)"
  by (simp_all add: bind_check_def)

text \<open>The application is up: every attribute the providers require is set.\<close>

definition serving :: "('e, 'm, 'h, 'r) AppState \<Rightarrow> bool" where
  "serving st \<longleftrightarrow> as_settings st \<noteq> None \<and> as_es_client st \<noteq> None \<and> as_mongo_client st \<noteq> None \<and>
     as_redis_client st \<noteq> None \<and> as_email_client st \<noteq> None \<and> as_cooldown_manager st \<noteq> None \<and> as_scheduler st \<noteq> None"

text \<open>The pings of one probe, in their order, with the world after them.\<close>

definition pings ::
  "('e, 'm, 'h, 'w) ProbeEnv \<Rightarrow> ('e, 'm, 'h, 'r) AppState \<Rightarrow> 'w \<Rightarrow> bool \<Rightarrow> bool \<Rightarrow> bool \<Rightarrow> bool \<Rightarrow> 'w \<Rightarrow> bool" where
  "pings env st w es mongo redis email w4 \<longleftrightarrow>
     (\<exists>w1 w2 w3 h.
        es_ping (pr_es env) (the (as_es_client st)) w = (Inr es, w1) \<and>
        mongo_ping (pr_mongo_ping env) (the (as_mongo_client st)) w1 = (Inr mongo, w2) \<and>
        redis_ping (pr_redis env) (the (as_redis_client st)) w2 = (Inr redis, w3) \<and>
        (if http_client (the (as_email_client st))
         then pr_email_head env w3 = (h, w4) \<and> h \<noteq> Inl CheckCancelled \<and> email = (\<exists>b. h = Inr b)
         else \<not> email \<and> w4 = w3))"

lemma readiness_answer:
  assumes "serving st" "pings env st w es mongo redis email w'"
  defines "debug_mode \<equiv> set_debug_read_only (the (as_settings st))"
    and "zk_up \<equiv> (\<exists>z. as_zk_client st = Some z \<and> zk_is_connected (pr_zk_connected env w') z)"
    and "stalled \<equiv> (\<exists>pm. as_partition_manager st = Some pm \<and> redistribute_unhealthy pm)"
    and "up \<equiv> [(''elasticsearch'', es \<and> \<not> pr_slow env ''elasticsearch''), (''mongodb'', mongo \<and> \<not> pr_slow env ''mongodb''),
      (''redis'', redis \<and> \<not> pr_slow env ''redis''), (''email_api'', email \<and> \<not> pr_slow env ''email_api'')]"
  shows "\<exists>resp. readiness env st w = (Inr (resp, map (\<lambda>(k, b). (k, if b then 1 else 0))
        (if debug_mode then up else up @ [(''zookeeper'', zk_up)])), w')
    \<and> rr_status_code resp = (if (\<forall>(k, b)\<in>set up. b) \<and> (debug_mode \<or> zk_up) \<and> \<not> stalled then 200 else 503)"
proof -
  obtain s e m r em sch cd where st: "as_settings st = Some s" "as_es_client st = Some e" "as_mongo_client st = Some m"
    "as_redis_client st = Some r" "as_email_client st = Some em" "as_cooldown_manager st = Some cd" "as_scheduler st = Some sch"
    using assms(1) unfolding serving_def by auto
  let ?v = "\<lambda>b. CheckBool b"
  let ?zk = "if debug_mode then SkippedDebug else ?v zk_up"
  let ?checks = "map (\<lambda>(k, b). (k, ?v b)) up @ [(''zookeeper'', ?zk)]"
  have email: "email_check env em w3 = (Inr (email \<and> \<not> pr_slow env ''email_api''), w4)"
    if "if http_client em then pr_email_head env w3 = (h, w4) \<and> h \<noteq> Inl CheckCancelled \<and> email = (\<exists>b. h = Inr b)
        else \<not> email \<and> w4 = w3" for w3 w4 h
    using that by (cases "http_client em"; cases h)
      (auto simp: email_check_def health_check_def split: CheckError.splits)
  have zk: "(case as_zk_client st of None \<Rightarrow> False | Some z \<Rightarrow> zk_is_connected (pr_zk_connected env w') z) = zk_up"
    by (auto simp: zk_up_def split: option.splits)
  from assms(2) obtain w1 w2 w3 h where p: "es_ping (pr_es env) e w = (Inr es, w1)"
      "mongo_ping (pr_mongo_ping env) m w1 = (Inr mongo, w2)" "redis_ping (pr_redis env) r w2 = (Inr redis, w3)"
    and em: "if http_client em then pr_email_head env w3 = (h, w') \<and> h \<noteq> Inl CheckCancelled \<and> email = (\<exists>b. h = Inr b)
        else \<not> email \<and> w' = w3"
    unfolding pings_def st option.sel by blast
  have "run_checks env debug_mode e m r em (as_zk_client st) w = (Inr ?checks, w')"
    by (simp add: run_checks_def es_check_def mongo_check_def redis_check_def p email [OF em] up_def zk)
  then have run: "readiness env st w = (Inr (verdict debug_mode ?checks (as_partition_manager st) (as_leader_election st) sch), w')"
    by (simp add: readiness_def provider_defs st debug_mode_def)
  have "infra_up debug_mode ?checks = map (\<lambda>(k, b). (k, if b then 1 else 0)) (if debug_mode then up else up @ [(''zookeeper'', zk_up)])"
    by (simp add: infra_up_def counted_def up_def)
  moreover have "list_all (\<lambda>(k, v). v = CheckBool True) (counted debug_mode ?checks)
      \<longleftrightarrow> (\<forall>(k, b)\<in>set up. b) \<and> (debug_mode \<or> zk_up)"
    by (auto simp: counted_def up_def)
  moreover have "(case as_partition_manager st of None \<Rightarrow> False | Some p \<Rightarrow> redistribute_unhealthy p) = stalled"
    by (auto simp: stalled_def split: option.splits)
  ultimately show ?thesis unfolding run by (simp add: verdict_def Let_def)
qed

text \<open>
  C19. The verdict of the readiness probe: with the application serving and no cancellation it never
  raises; it answers 200 exactly when every dependency answered its ping in time, ZooKeeper is
  connected (outside debug mode) and the partition manager has not given up redistributing, and 503
  otherwise; the gauge of each probed dependency is set to whether that dependency is up.
\<close>
theorem readiness_verdict:
  assumes "serving st" "pings env st w es mongo redis email w'"
  defines "debug_mode \<equiv> set_debug_read_only (the (as_settings st))"
    and "zk_up \<equiv> (\<exists>z. as_zk_client st = Some z \<and> zk_is_connected (pr_zk_connected env w') z)"
    and "stalled \<equiv> (\<exists>pm. as_partition_manager st = Some pm \<and> redistribute_unhealthy pm)"
    and "up \<equiv> [(''elasticsearch'', es \<and> \<not> pr_slow env ''elasticsearch''), (''mongodb'', mongo \<and> \<not> pr_slow env ''mongodb''),
      (''redis'', redis \<and> \<not> pr_slow env ''redis''), (''email_api'', email \<and> \<not> pr_slow env ''email_api'')]"
  shows "\<exists>resp. readiness env st w = (Inr (resp, map (\<lambda>(k, b). (k, if b then 1 else 0))
        (if debug_mode then up else up @ [(''zookeeper'', zk_up)])), w')
    \<and> rr_status_code resp = (if (\<forall>(k, b)\<in>set up. b) \<and> (debug_mode \<or> zk_up) \<and> \<not> stalled then 200 else 503)"
  unfolding debug_mode_def zk_up_def stalled_def up_def by (rule readiness_answer [OF assms(1,2)])

text \<open>
  A leader that cannot redistribute is taken out of service: once a failing redistribution has used
  up its attempts, the readiness probe answers 503 however healthy the dependencies are; after a
  successful one the probe depends on the dependencies again.
\<close>
theorem stalled_leader_unready:
  assumes "serving st" "pings env st w es mongo redis email w'"
    and "as_partition_manager st = Some (fst (do_redistribute cfg zk retry po ep ts is pm))"
    and "snd (write_assignments cfg zk po ep ts is) = Some x" "x \<noteq> Cancelled"
    and "redistribute_attempt pm + 1 \<ge> REDISTRIBUTE_MAX_ATTEMPTS"
  shows "\<exists>resp gauges. readiness env st w = (Inr (resp, gauges), w') \<and> rr_status_code resp = 503"
proof -
  have "redistribute_unhealthy (fst (do_redistribute cfg zk retry po ep ts is pm))"
    using do_redistribute_failed [OF assms(4,5)] assms(6) by (simp add: Let_def)
  then show ?thesis using readiness_answer [OF assms(1,2)] assms(3) by auto
qed

subsection \<open>Operators\<close>

text \<open>
  Clearing a cooldown works: when the endpoint answers and Redis took the deletion (or debug mode
  keeps cooldowns local), the incident it names is not cooling down any more, so its next breach is
  mailed.
\<close>
theorem cleared_cooldown_pages_again:
  assumes "\<And>key r r'. rd_delete rd key r = Inr r' \<Longrightarrow> rd_exists rd key r' = Inr 0"
    and "as_cooldown_manager st = Some m"
    and "cd_debug_read_only cfg \<or> \<not> isl (rd_delete rd (cooldown_make_key cfg (proc_name, eqp, case proc of None \<Rightarrow> DEFAULT_PROC | Some p \<Rightarrow> p, notify, severity)) (cd_redis m))"
    and "delete_cooldown rd cfg proc_name eqp notify severity proc st = (Inr ans, st')"
  shows "\<exists>m'. as_cooldown_manager st' = Some m' \<and>
    is_cooling_down rd cfg now evicted (proc_name, eqp, case proc of None \<Rightarrow> DEFAULT_PROC | Some p \<Rightarrow> p, notify, severity) m' = Inr False"
proof -
  let ?k = "(proc_name, eqp, case proc of None \<Rightarrow> DEFAULT_PROC | Some p \<Rightarrow> p, notify, severity)"
  obtain res m' where c: "clear_cooldown rd cfg ?k m = (res, m')" by fastforce
  with assms(2,4) have "as_cooldown_manager st' = Some m'"
    by (auto simp: delete_cooldown_def provider_defs Let_def split: sum.splits)
  moreover have "is_cooling_down rd cfg now evicted ?k m' = Inr False"
    using c assms(1,3)
    by (cases "rd_delete rd (cooldown_make_key cfg ?k) (cd_redis m)")
      (auto simp: clear_cooldown_def is_cooling_down_def in_local_def Let_def split: if_splits)
  ultimately show ?thesis by blast
qed

text \<open>The endpoint reports success also when Redis was unreachable and still holds the key.\<close>

lemma clear_hides_outage:
  assumes "as_cooldown_manager st = Some m" "\<not> cd_debug_read_only cfg"
    and "\<And>key r. rd_delete rd key r = Inl RedisConnectionError"
  shows "\<exists>ans st'. delete_cooldown rd cfg p e n s proc st = (Inr ans, st') \<and>
    map_option cd_redis (as_cooldown_manager st') = Some (cd_redis m)"
  using assms by (simp add: delete_cooldown_def provider_defs clear_cooldown_def REDIS_UNAVAILABLE_def Let_def)

text \<open>
  The outbox endpoint shows the newest losses: after any sequence of sends it lists exactly the last
  fifty lost mails, oldest first, and counts up to a thousand.
\<close>
theorem outbox_endpoint_newest:
  fixes sends and show_json
  defines "live_client \<equiv> new_EmailAlertClient\<lparr>http_client := True\<rparr>"
  defines "losses \<equiv> concat (map (loss_of show_json live_client) sends)"
  assumes "as_email_client st = Some (send_all show_json sends live_client)"
  shows "or_entries (email_outbox st) = drop (length losses - 50) losses \<and>
    or_count (email_outbox st) = min (length losses) 1000 \<and> or_available (email_outbox st)"
proof -
  have "outbox (send_all show_json sends live_client) = drop (length losses - OUTBOX_MAXLEN) losses"
    using outbox_keeps_newest [of show_json sends] unfolding live_client_def losses_def by (simp add: Let_def)
  then show ?thesis
    using assms(3) by (auto simp: email_outbox_def get_outbox_snapshot_def OUTBOX_MAXLEN_def Let_def min_def)
qed

text \<open>
  A request id lives exactly as long as its request: outside the probe paths the application runs
  with an id bound (the caller's if it sent one), the answer carries the same id, and the id is
  unbound afterwards whether the application answered or raised.
\<close>
theorem request_id_scoped:
  assumes "path \<notin> set SKIP_PATHS" "fresh \<noteq> []"
  shows "\<exists>i. i \<noteq> [] \<and> (\<forall>h. header = Some h \<longrightarrow> h \<noteq> [] \<longrightarrow> i = h) \<and>
    (let inner = call_next (ctx(''request_id'' \<mapsto> i)); outer = request_id_dispatch path header fresh call_next ctx
     in snd outer ''request_id'' = None \<and>
        (case fst inner of
           Inl e \<Rightarrow> fst outer = Inl e
         | Inr headers \<Rightarrow> \<exists>hs. fst outer = Inr hs \<and> map_of hs = (map_of headers)(''X-Request-ID'' \<mapsto> i)))"
  using assms
  by (intro exI [of _ "case header of None \<Rightarrow> fresh | Some h \<Rightarrow> if h = [] then fresh else h"])
    (auto simp: request_id_dispatch_def Let_def update_conv' split: option.splits sum.splits prod.splits)

subsection \<open>A healthy instance\<close>

definition healthy_env :: "(nat, nat, nat, unit) ProbeEnv" where
  "healthy_env =
     \<lparr>pr_es = \<lparr>ed_open = (\<lambda>_. 0), ed_ping = (\<lambda>_ w. (Inr True, w)), ed_close = (\<lambda>_ w. (Inr (), w)),
        ed_get_mapping = (\<lambda>_ _ w. (Inl NotFoundError, w)), ed_search = (\<lambda>_ _ _ w. (Inl NotFoundError, w))\<rparr>,
      pr_mongo_ping = (\<lambda>_ w. (Inr (), w)),
      pr_redis = \<lparr>rd_from_url = (\<lambda>_ _. Inr 0), rd_master_for = (\<lambda>_ _ _ _ _. Inr 0), rd_ping = (\<lambda>_ w. (Inr True, w)),
        rd_aclose = (\<lambda>_ w. (Inr (), w))\<rparr>,
      pr_email_head = (\<lambda>w. (Inr True, w)), pr_zk_connected = (\<lambda>_. True), pr_slow = (\<lambda>_. False)\<rparr>"

definition healthy_state :: "(nat, nat, nat, string set) AppState" where
  "healthy_state = empty_AppState
     \<lparr>as_settings := Some \<lparr>set_instance_id = ''pod-a'', set_debug_read_only = False\<rparr>,
      as_es_client := Some (new_ESClient\<lparr>es_client := Some 0\<rparr>), as_mongo_client := Some (new_MongoClient\<lparr>mongo_client := Some 0\<rparr>),
      as_redis_client := Some (new_RedisClient\<lparr>redis_client := Some 0\<rparr>),
      as_zk_client := Some (new_ZKClient\<lparr>kazoo_present := True\<rparr>),
      as_email_client := Some (new_EmailAlertClient\<lparr>http_client := True\<rparr>),
      as_partition_manager := Some new_PartitionManager, as_leader_election := Some new_LeaderElection,
      as_cooldown_manager := Some \<lparr>cd_local = Map.empty, cd_redis = {cooldown_make_key sample_cooldown_cfg sample_incident}\<rparr>,
      as_scheduler := Some new_AnalysisScheduler\<rparr>"

lemma healthy_serving: "serving healthy_state"
  by (simp add: serving_def healthy_state_def)

lemma healthy_pings: "pings healthy_env (healthy_state\<lparr>as_partition_manager := pm\<rparr>) () True True True True ()"
  by (auto simp: pings_def healthy_env_def healthy_state_def es_ping_def mongo_ping_def redis_ping_def)

theorem readiness_verdict_witness:
  "\<exists>resp gauges. readiness healthy_env healthy_state () = (Inr (resp, gauges), ()) \<and> rr_status_code resp = 200"
proof -
  have zk: "as_zk_client healthy_state = Some (new_ZKClient\<lparr>kazoo_present := True\<rparr>)"
    and pm: "as_partition_manager healthy_state = Some new_PartitionManager"
    and self: "healthy_state\<lparr>as_partition_manager := Some new_PartitionManager\<rparr> = healthy_state"
    by (simp_all add: healthy_state_def)
  from readiness_verdict [OF healthy_serving healthy_pings [of "Some new_PartitionManager", unfolded self]] show ?thesis
    by (auto simp: zk pm zk_is_connected_def healthy_env_def new_PartitionManager_def)
qed

theorem stalled_leader_unready_witness:
  "\<exists>resp gauges. readiness healthy_env (healthy_state\<lparr>as_partition_manager := Some (fst (do_redistribute sample_cfg dead_zk True
       (Inl (OtherError ''mongo'')) 1 0 [''pod-a''] (new_PartitionManager\<lparr>redistribute_attempt := 4\<rparr>)))\<rparr>) ()
     = (Inr (resp, gauges), ()) \<and> rr_status_code resp = 503"
proof -
  let ?pm = "new_PartitionManager\<lparr>redistribute_attempt := 4\<rparr>"
  let ?run = "do_redistribute sample_cfg dead_zk True (Inl (OtherError ''mongo'')) 1 0 [''pod-a''] ?pm"
  have "snd (write_assignments sample_cfg dead_zk (Inl (OtherError ''mongo'')) 1 0 [''pod-a'']) = Some (OtherError ''mongo'')"
    by (simp add: write_assignments_def)
  moreover have "REDISTRIBUTE_MAX_ATTEMPTS \<le> redistribute_attempt ?pm + 1"
    by (simp add: REDISTRIBUTE_MAX_ATTEMPTS_def)
  moreover have "serving (healthy_state\<lparr>as_partition_manager := Some (fst ?run)\<rparr>)"
    using healthy_serving by (simp add: serving_def)
  ultimately show ?thesis
    by (intro stalled_leader_unready [OF _ healthy_pings]) auto
qed

theorem cleared_cooldown_pages_again_witness:
  "\<exists>st' m'. delete_cooldown set_redis sample_cooldown_cfg ''ETCH'' ''E1'' ''default'' ''WARNING'' None healthy_state =
       (Inr [(''cleared'', ''ETCH:E1:@system:default:WARNING'')], st') \<and> as_cooldown_manager st' = Some m' \<and>
     is_cooling_down set_redis sample_cooldown_cfg 0 (\<lambda>_. False) (''ETCH'', ''E1'', DEFAULT_PROC, ''default'', ''WARNING'') m' = Inr False"
proof -
  obtain st' where run: "delete_cooldown set_redis sample_cooldown_cfg ''ETCH'' ''E1'' ''default'' ''WARNING'' None healthy_state =
       (Inr [(''cleared'', ''ETCH:E1:@system:default:WARNING'')], st')"
    by (auto simp: delete_cooldown_def provider_defs healthy_state_def clear_cooldown_def set_redis_def Let_def
        sample_cooldown_cfg_def cleared_label_def DEFAULT_PROC_def)
  have m: "as_cooldown_manager healthy_state =
      Some \<lparr>cd_local = Map.empty, cd_redis = {cooldown_make_key sample_cooldown_cfg sample_incident}\<rparr>"
    by (simp add: healthy_state_def)
  have law: "\<And>key r r'. rd_delete set_redis key r = Inr r' \<Longrightarrow> rd_exists set_redis key r' = Inr 0"
    by (auto simp: set_redis_def)
  show ?thesis
    using cleared_cooldown_pages_again [OF law m _ run, where now = 0 and evicted = "\<lambda>_. False"] run
    by (auto simp: set_redis_def)
qed

end
