(* ===== verification/Infra.thy ===== *)
theory Infra
  imports Endpoints
begin

text \<open>
  \<open>src/src/startup/infra.py\<close>: connecting the five clients in order, with the roll-back on failure.
  The clients' own operations are those of \<open>Es_Client\<close>, \<open>Connections\<close>, \<open>Email_Client\<close> and
  \<open>Zk_Client\<close>; the drivers below them are arguments on a world \<open>'w\<close>. Which client objects were
  created and closed is logged.
\<close>

subsection \<open>Context and environment\<close>

text \<open>An \<open>Exception\<close> (by what raised it), or a cancellation, which is no \<open>Exception\<close>.\<close>

datatype LifeExc = LifeError string | LifeCancelled

record ('e, 'm, 'h) InfraContext =
  ic_es :: "'e ESClient option"
  ic_mongo :: "'m MongoClient option"
  ic_redis :: "'h RedisClient option"
  ic_email :: "EmailAlertClient option"
  ic_zk :: "ZKClient option"

definition new_InfraContext :: "('e, 'm, 'h) InfraContext" where
  "new_InfraContext = \<lparr>ic_es = None, ic_mongo = None, ic_redis = None, ic_email = None, ic_zk = None\<rparr>"

record ('e, 'm, 'h, 'w) InfraEnv =
  ie_debug_read_only :: bool
  ie_es_settings :: EsSettings
  ie_mongo_db :: string
  ie_redis_settings :: RedisSettings
  ie_es :: "('e, 'w) es_driver"
  ie_mongo_open :: "'w \<Rightarrow> (ConnError + 'm) \<times> 'w"
  ie_mongo_shut :: "'m \<Rightarrow> 'w \<Rightarrow> (ConnError + unit) \<times> 'w"
  ie_redis :: "('h, 'w) redis_driver"
  ie_close_sentinel :: "string \<times> int \<Rightarrow> 'w \<Rightarrow> 'w"
  ie_email_head :: "'w \<Rightarrow> (CheckError + bool) \<times> 'w"
  ie_email_aclose :: "'w \<Rightarrow> (CheckError + bool) \<times> 'w"
  ie_zk_start :: "'w \<Rightarrow> ZkError option \<times> 'w"
  ie_zk_ensure :: "'w \<Rightarrow> ZkError option \<times> 'w"
  ie_zk_stop :: "'w \<Rightarrow> ZkError option \<times> 'w"

datatype InfraEvent = ClientCreated string | ClientClosed string

type_synonym ('e, 'm, 'h, 'w) infra_state = "('e, 'm, 'h) InfraContext \<times> 'w \<times> InfraEvent list"

definition infra_then ::
  "(LifeExc + unit) \<times> 's \<Rightarrow> ('s \<Rightarrow> (LifeExc + unit) \<times> 's) \<Rightarrow> (LifeExc + unit) \<times> 's" where
  "infra_then m f = (case m of (Inl e, s) \<Rightarrow> (Inl e, s) | (Inr _, s) \<Rightarrow> f s)"

subsection \<open>Closing\<close>

text \<open>
  One round of the loop per client: a client that is there is closed; only a cancellation passes
  the handler.
\<close>

definition close_zk :: "('e, 'm, 'h, 'w) InfraEnv \<Rightarrow> ('e, 'm, 'h, 'w) infra_state \<Rightarrow> (LifeExc + unit) \<times> ('e, 'm, 'h, 'w) infra_state" where
  "close_zk env s =
     (case s of (ctx, w, evs) \<Rightarrow>
       (case ic_zk ctx of
          None \<Rightarrow> (Inr (), s)
        | Some c \<Rightarrow>
            (case (if kazoo_present c then ie_zk_stop env w else (None, w)) of
               (outcome, w') \<Rightarrow>
                 (if outcome = Some Cancelled then Inl LifeCancelled else Inr (),
                  ctx\<lparr>ic_zk := Some (zk_close c)\<rparr>, w', evs @ [ClientClosed ''zk'']))))"

definition close_email :: "('e, 'm, 'h, 'w) InfraEnv \<Rightarrow> ('e, 'm, 'h, 'w) infra_state \<Rightarrow> (LifeExc + unit) \<times> ('e, 'm, 'h, 'w) infra_state" where
  "close_email env s =
     (case s of (ctx, w, evs) \<Rightarrow>
       (case ic_email ctx of
          None \<Rightarrow> (Inr (), s)
        | Some c \<Rightarrow>
            (case (if http_client c then ie_email_aclose env w else (Inr True, w)) of
               (outcome, w') \<Rightarrow>
                 (if outcome = Inl CheckCancelled then Inl LifeCancelled else Inr (),
                  ctx\<lparr>ic_email := Some (email_close c)\<rparr>, w', evs @ [ClientClosed ''email'']))))"

definition close_redis :: "('e, 'm, 'h, 'w) InfraEnv \<Rightarrow> ('e, 'm, 'h, 'w) infra_state \<Rightarrow> (LifeExc + unit) \<times> ('e, 'm, 'h, 'w) infra_state" where
  "close_redis env s =
     (case s of (ctx, w, evs) \<Rightarrow>
       (case ic_redis ctx of
          None \<Rightarrow> (Inr (), s)
        | Some c \<Rightarrow>
            (case redis_close (ie_redis env) (ie_close_sentinel env) c w of
               (res, c', w') \<Rightarrow>
                 (if isl res then Inl LifeCancelled else Inr (), ctx\<lparr>ic_redis := Some c'\<rparr>, w', evs @ [ClientClosed ''redis'']))))"

definition close_mongo :: "('e, 'm, 'h, 'w) InfraEnv \<Rightarrow> ('e, 'm, 'h, 'w) infra_state \<Rightarrow> (LifeExc + unit) \<times> ('e, 'm, 'h, 'w) infra_state" where
  "close_mongo env s =
     (case s of (ctx, w, evs) \<Rightarrow>
       (case ic_mongo ctx of
          None \<Rightarrow> (Inr (), s)
        | Some c \<Rightarrow>
            (case mongo_close (ie_mongo_shut env) c w of
               (c', w') \<Rightarrow> (Inr (), ctx\<lparr>ic_mongo := Some c'\<rparr>, w', evs @ [ClientClosed ''mongo'']))))"

definition close_es :: "('e, 'm, 'h, 'w) InfraEnv \<Rightarrow> ('e, 'm, 'h, 'w) infra_state \<Rightarrow> (LifeExc + unit) \<times> ('e, 'm, 'h, 'w) infra_state" where
  "close_es env s =
     (case s of (ctx, w, evs) \<Rightarrow>
       (case ic_es ctx of
          None \<Rightarrow> (Inr (), s)
        | Some c \<Rightarrow>
            (case es_close (ie_es env) c w of
               (res, c', w') \<Rightarrow>
                 (if isl res then Inl LifeCancelled else Inr (), ctx\<lparr>ic_es := Some c'\<rparr>, w', evs @ [ClientClosed ''es'']))))"

definition close_partial :: "('e, 'm, 'h, 'w) InfraEnv \<Rightarrow> ('e, 'm, 'h, 'w) infra_state \<Rightarrow> (LifeExc + unit) \<times> ('e, 'm, 'h, 'w) infra_state" where
  "close_partial env s =
     infra_then (infra_then (infra_then (infra_then (close_zk env s) (close_email env)) (close_redis env)) (close_mongo env)) (close_es env)"

subsection \<open>Connecting\<close>

definition connect_es :: "('e, 'm, 'h, 'w) InfraEnv \<Rightarrow> ('e, 'm, 'h, 'w) infra_state \<Rightarrow> (LifeExc + unit) \<times> ('e, 'm, 'h, 'w) infra_state" where
  "connect_es env s =
     (case s of (ctx, w, evs) \<Rightarrow>
       (case es_connect (ie_es env) (ie_es_settings env) new_ESClient w of
          (res, c, w') \<Rightarrow>
            (case res of
               Inr _ \<Rightarrow> Inr ()
             | Inl EsStartCancelled \<Rightarrow> Inl LifeCancelled
             | Inl _ \<Rightarrow> Inl (LifeError ''es_startup_ping_failed''),
             ctx\<lparr>ic_es := Some c\<rparr>, w', evs @ [ClientCreated ''es''])))"

text \<open>Both retrying clients: the outcome of the loop as an exception of the start.\<close>

definition conn_exc :: "ConnError + unit \<Rightarrow> LifeExc + unit" where
  "conn_exc res =
     (case res of Inr _ \<Rightarrow> Inr () | Inl ConnCancelled \<Rightarrow> Inl LifeCancelled | Inl _ \<Rightarrow> Inl (LifeError ''connect_failed''))"

definition connect_mongo :: "('e, 'm, 'h, 'w) InfraEnv \<Rightarrow> ('e, 'm, 'h, 'w) infra_state \<Rightarrow> (LifeExc + unit) \<times> ('e, 'm, 'h, 'w) infra_state" where
  "connect_mongo env s =
     (case s of (ctx, w, evs) \<Rightarrow>
       (case mongo_connect_with_retry (ie_mongo_db env) (ie_mongo_open env) 5 2 (new_MongoClient, w) of
          (res, (c, w'), _) \<Rightarrow> (conn_exc res, ctx\<lparr>ic_mongo := Some c\<rparr>, w', evs @ [ClientCreated ''mongo''])))"

definition connect_redis :: "('e, 'm, 'h, 'w) InfraEnv \<Rightarrow> ('e, 'm, 'h, 'w) infra_state \<Rightarrow> (LifeExc + unit) \<times> ('e, 'm, 'h, 'w) infra_state" where
  "connect_redis env s =
     (case s of (ctx, w, evs) \<Rightarrow>
       (case redis_connect_with_retry (ie_redis_settings env) (ie_redis env) 3 1 (new_RedisClient, w) of
          (res, (c, w'), _) \<Rightarrow> (conn_exc res, ctx\<lparr>ic_redis := Some c\<rparr>, w', evs @ [ClientCreated ''redis''])))"

text \<open>The health check of the mail client is skipped in debug mode.\<close>

definition connect_email :: "('e, 'm, 'h, 'w) InfraEnv \<Rightarrow> ('e, 'm, 'h, 'w) infra_state \<Rightarrow> (LifeExc + unit) \<times> ('e, 'm, 'h, 'w) infra_state" where
  "connect_email env s =
     (case s of (ctx, w, evs) \<Rightarrow>
       (case (if ie_debug_read_only env then (Inr True, w) else ie_email_head env w) of
          (head, w') \<Rightarrow>
            (case email_connect (ie_debug_read_only env) (\<not> isl head) new_EmailAlertClient of
               (res, c) \<Rightarrow>
                 (if head = Inl CheckCancelled then Inl LifeCancelled
                  else if isl res then Inl (LifeError ''email_startup_health_check_failed'') else Inr (),
                  ctx\<lparr>ic_email := Some c\<rparr>, w', evs @ [ClientCreated ''email'']))))"

definition connect_zk :: "('e, 'm, 'h, 'w) InfraEnv \<Rightarrow> ('e, 'm, 'h, 'w) infra_state \<Rightarrow> (LifeExc + unit) \<times> ('e, 'm, 'h, 'w) infra_state" where
  "connect_zk env s =
     (case s of (ctx, w, evs) \<Rightarrow>
       if ie_debug_read_only env then (Inr (), s)
       else (case ie_zk_start env w of
               (started, w1) \<Rightarrow>
                 (case (if started = None then ie_zk_ensure env w1 else (None, w1)) of
                    (ensured, w2) \<Rightarrow>
                      (case zk_connect started ensured new_ZKClient of
                         (c, outcome) \<Rightarrow>
                           (case outcome of
                              None \<Rightarrow> Inr ()
                            | Some Cancelled \<Rightarrow> Inl LifeCancelled
                            | Some _ \<Rightarrow> Inl (LifeError ''zk_connect_failed''),
                            ctx\<lparr>ic_zk := Some c\<rparr>, w2, evs @ [ClientCreated ''zk''])))))"

definition connect_all :: "('e, 'm, 'h, 'w) InfraEnv \<Rightarrow> ('e, 'm, 'h, 'w) infra_state \<Rightarrow> (LifeExc + unit) \<times> ('e, 'm, 'h, 'w) infra_state" where
  "connect_all env s =
     infra_then (infra_then (infra_then (infra_then (connect_es env s) (connect_mongo env)) (connect_redis env)) (connect_email env)) (connect_zk env)"

text \<open>\<open>init_infra\<close>: the handler catches an \<open>Exception\<close>, not a cancellation.\<close>

definition init_infra :: "('e, 'm, 'h, 'w) InfraEnv \<Rightarrow> 'w \<Rightarrow> (LifeExc + unit) \<times> ('e, 'm, 'h, 'w) infra_state" where
  "init_infra env w =
     (case connect_all env (new_InfraContext, w, []) of
        (Inl (LifeError e), s) \<Rightarrow>
          (case close_partial env s of (Inl x, s') \<Rightarrow> (Inl x, s') | (Inr _, s') \<Rightarrow> (Inl (LifeError e), s'))
      | (res, s) \<Rightarrow> (res, s))"

subsection \<open>All or nothing\<close>

text \<open>The clients that exist, in the order of their creation.\<close>

definition populated :: "('e, 'm, 'h) InfraContext \<Rightarrow> string list" where
  "populated ctx =
     (if ic_es ctx = None then [] else [''es'']) @ (if ic_mongo ctx = None then [] else [''mongo'']) @
     (if ic_redis ctx = None then [] else [''redis'']) @ (if ic_email ctx = None then [] else [''email'']) @
     (if ic_zk ctx = None then [] else [''zk''])"

text \<open>No client of the context holds a connection.\<close>

definition released :: "('e, 'm, 'h) InfraContext \<Rightarrow> bool" where
  "released ctx \<longleftrightarrow>
     (\<forall>c. ic_es ctx = Some c \<longrightarrow> es_client c = None) \<and> (\<forall>c. ic_mongo ctx = Some c \<longrightarrow> mongo_client c = None) \<and>
     (\<forall>c. ic_redis ctx = Some c \<longrightarrow> redis_client c = None \<and> redis_sentinel c = None) \<and>
     (\<forall>c. ic_email ctx = Some c \<longrightarrow> \<not> http_client c) \<and> (\<forall>c. ic_zk ctx = Some c \<longrightarrow> \<not> kazoo_present c)"

text \<open>Every client is there and usable; ZooKeeper exactly outside debug mode.\<close>

definition connected_infra :: "bool \<Rightarrow> ('e, 'm, 'h) InfraContext \<Rightarrow> bool" where
  "connected_infra debug ctx \<longleftrightarrow>
     (\<exists>c. ic_es ctx = Some c \<and> \<not> isl (es_client_property c)) \<and>
     (\<exists>c. ic_mongo ctx = Some c \<and> \<not> isl (mongo_db_property c)) \<and>
     (\<exists>c. ic_redis ctx = Some c \<and> \<not> isl (redis_client_property c)) \<and>
     (\<exists>c. ic_email ctx = Some c \<and> http_client c) \<and>
     (if debug then ic_zk ctx = None else (\<exists>c. ic_zk ctx = Some c \<and> kazoo_present c))"

lemma infra_then_Inr:
  "infra_then m f = (Inr u, s) \<longleftrightarrow> (\<exists>ctx w evs. m = (Inr (), ctx, w, evs) \<and> f (ctx, w, evs) = (Inr u, s))"
  by (cases m) (auto simp: infra_then_def split: sum.splits)

lemma infra_then_cases:
  assumes "infra_then m f = (res, s)"
  obtains e where "m = (Inl e, s)" "res = Inl e" | s' where "m = (Inr (), s')" "f s' = (res, s)"
  using assms by (auto simp: infra_then_def split: prod.splits sum.splits)

lemmas close_defs = close_zk_def close_email_def close_redis_def close_mongo_def close_es_def
lemmas connect_defs = connect_es_def connect_mongo_def connect_redis_def connect_email_def connect_zk_def

text \<open>What each round of the loop leaves: its own client without a connection, the others as they were.\<close>

lemma close_rounds:
  "close_zk env (ctx, w, evs) = (res, ctx', w', evs') \<Longrightarrow>
     \<exists>z. ctx' = ctx\<lparr>ic_zk := z\<rparr> \<and> (z = None \<longleftrightarrow> ic_zk ctx = None) \<and> (\<forall>c. z = Some c \<longrightarrow> \<not> kazoo_present c)
       \<and> evs' = evs @ (if z = None then [] else [ClientClosed ''zk''])"
  "close_email env (ctx, w, evs) = (res, ctx', w', evs') \<Longrightarrow>
     \<exists>z. ctx' = ctx\<lparr>ic_email := z\<rparr> \<and> (z = None \<longleftrightarrow> ic_email ctx = None) \<and> (\<forall>c. z = Some c \<longrightarrow> \<not> http_client c)
       \<and> evs' = evs @ (if z = None then [] else [ClientClosed ''email''])"
  "close_redis env (ctx, w, evs) = (res, ctx', w', evs') \<Longrightarrow>
     \<exists>z. ctx' = ctx\<lparr>ic_redis := z\<rparr> \<and> (z = None \<longleftrightarrow> ic_redis ctx = None) \<and>
       (\<forall>c. z = Some c \<longrightarrow> \<not> isl res \<longrightarrow> redis_client c = None \<and> redis_sentinel c = None)
       \<and> evs' = evs @ (if z = None then [] else [ClientClosed ''redis''])"
  "close_mongo env (ctx, w, evs) = (res, ctx', w', evs') \<Longrightarrow>
     \<exists>z. ctx' = ctx\<lparr>ic_mongo := z\<rparr> \<and> (z = None \<longleftrightarrow> ic_mongo ctx = None) \<and> (\<forall>c. z = Some c \<longrightarrow> mongo_client c = None)
       \<and> evs' = evs @ (if z = None then [] else [ClientClosed ''mongo''])"
  "close_es env (ctx, w, evs) = (res, ctx', w', evs') \<Longrightarrow>
     \<exists>z. ctx' = ctx\<lparr>ic_es := z\<rparr> \<and> (z = None \<longleftrightarrow> ic_es ctx = None) \<and> (\<forall>c. z = Some c \<longrightarrow> es_client c = None)
       \<and> evs' = evs @ (if z = None then [] else [ClientClosed ''es''])"
  subgoal by (cases "ic_zk ctx") (auto simp: close_defs zk_close_def intro: exI [of _ None] split: prod.splits if_splits)
  subgoal by (cases "ic_email ctx") (auto simp: close_defs email_close_def intro: exI [of _ None] split: prod.splits if_splits)
  subgoal by (cases "ic_redis ctx") (auto simp: close_defs redis_close_def Let_def intro: exI [of _ None] split: prod.splits if_splits)
  subgoal by (cases "ic_mongo ctx") (auto simp: close_defs mongo_close_def intro: exI [of _ None] split: prod.splits option.splits)
  subgoal by (cases "ic_es ctx") (auto simp: close_defs es_close_def intro: exI [of _ None] split: prod.splits option.splits)
  done

text \<open>Only a cancellation interrupts the loop.\<close>

lemma close_errors:
  "fst (close_zk env s) = Inl y \<Longrightarrow> y = LifeCancelled" "fst (close_email env s) = Inl y \<Longrightarrow> y = LifeCancelled"
  "fst (close_redis env s) = Inl y \<Longrightarrow> y = LifeCancelled" "fst (close_mongo env s) = Inl y \<Longrightarrow> y = LifeCancelled"
  "fst (close_es env s) = Inl y \<Longrightarrow> y = LifeCancelled"
  by (cases s; simp add: close_defs split: option.splits prod.splits if_splits; fail)+

lemma infra_then_error: "fst (infra_then m f) = Inl y \<Longrightarrow> fst m = Inl y \<or> (\<exists>s. fst (f s) = Inl y)"
  by (auto simp: infra_then_def split: prod.splits sum.splits)

lemma close_partial_error: "close_partial env s = (Inl y, s') \<Longrightarrow> y = LifeCancelled"
  unfolding close_partial_def
  by (drule arg_cong [of _ _ fst], simp only: fst_conv)
    (elim infra_then_error [THEN disjE] exE close_errors)

definition only_closes :: "('e, 'm, 'h, 'w) infra_state \<Rightarrow> ('e, 'm, 'h, 'w) infra_state \<Rightarrow> bool" where
  "only_closes s s' \<longleftrightarrow> (\<exists>names. snd (snd s') = snd (snd s) @ map ClientClosed names)"

lemma only_closes_refl: "only_closes s s"
  by (auto simp: only_closes_def)

lemma only_closes_snoc: "evs' = evs @ (if b then [] else [ClientClosed n]) \<Longrightarrow> only_closes (ctx, w, evs) (ctx', w', evs')"
  by (auto simp: only_closes_def intro: exI [of _ "[]"] exI [of _ "[n]"])

lemma only_closes_then:
  assumes "only_closes s (snd m)" "\<And>x. only_closes x (snd (f x))"
  shows "only_closes s (snd (infra_then m f))"
proof -
  obtain a b where ab: "snd (snd (snd m)) = snd (snd s) @ map ClientClosed a"
    "snd (snd (snd (f (snd m)))) = snd (snd (snd m)) @ map ClientClosed b"
    using assms(1) assms(2) [of "snd m"] unfolding only_closes_def by blast
  then have "only_closes s (snd (f (snd m)))"
    unfolding only_closes_def by (intro exI [of _ "a @ b"]) simp
  with assms(1) show ?thesis by (auto simp: infra_then_def split: prod.splits sum.splits)
qed

lemma close_only:
  "only_closes s (snd (close_zk env s))" "only_closes s (snd (close_email env s))" "only_closes s (snd (close_redis env s))"
  "only_closes s (snd (close_mongo env s))" "only_closes s (snd (close_es env s))"
proof -
  obtain ctx w evs where s: "s = (ctx, w, evs)" by (cases s) auto
  show "only_closes s (snd (close_zk env s))"
    using close_rounds(1) [of env ctx w evs] only_closes_snoc unfolding s by (metis prod.collapse)
  show "only_closes s (snd (close_email env s))"
    using close_rounds(2) [of env ctx w evs] only_closes_snoc unfolding s by (metis prod.collapse)
  show "only_closes s (snd (close_redis env s))"
    using close_rounds(3) [of env ctx w evs] only_closes_snoc unfolding s by (metis prod.collapse)
  show "only_closes s (snd (close_mongo env s))"
    using close_rounds(4) [of env ctx w evs] only_closes_snoc unfolding s by (metis prod.collapse)
  show "only_closes s (snd (close_es env s))"
    using close_rounds(5) [of env ctx w evs] only_closes_snoc unfolding s by (metis prod.collapse)
qed

lemma close_partial_only: "only_closes s (snd (close_partial env s))"
  unfolding close_partial_def by (intro only_closes_then close_only)

lemma close_partial_releases:
  assumes "close_partial env (ctx, w, evs) = (Inr (), ctx', w', evs')"
  shows "released ctx' \<and> populated ctx' = populated ctx \<and> evs' = evs @ map ClientClosed (rev (populated ctx))"
proof -
  from assms obtain c1 w1 e1 c2 w2 e2 c3 w3 e3 c4 w4 e4 where
    s: "close_zk env (ctx, w, evs) = (Inr (), c1, w1, e1)" "close_email env (c1, w1, e1) = (Inr (), c2, w2, e2)"
      "close_redis env (c2, w2, e2) = (Inr (), c3, w3, e3)" "close_mongo env (c3, w3, e3) = (Inr (), c4, w4, e4)"
      "close_es env (c4, w4, e4) = (Inr (), ctx', w', evs')"
    unfolding close_partial_def infra_then_Inr by blast
  from close_rounds(1) [OF s(1)] obtain z1 where 1: "c1 = ctx\<lparr>ic_zk := z1\<rparr>" "z1 = None \<longleftrightarrow> ic_zk ctx = None"
    "\<forall>c. z1 = Some c \<longrightarrow> \<not> kazoo_present c" "e1 = evs @ (if z1 = None then [] else [ClientClosed ''zk''])"
    by - (elim exE conjE, rule that, assumption+)
  from close_rounds(2) [OF s(2)] obtain z2 where 2: "c2 = c1\<lparr>ic_email := z2\<rparr>" "z2 = None \<longleftrightarrow> ic_email c1 = None"
    "\<forall>c. z2 = Some c \<longrightarrow> \<not> http_client c" "e2 = e1 @ (if z2 = None then [] else [ClientClosed ''email''])"
    by - (elim exE conjE, rule that, assumption+)
  from close_rounds(3) [OF s(3)] obtain z3 where 3: "c3 = c2\<lparr>ic_redis := z3\<rparr>" "z3 = None \<longleftrightarrow> ic_redis c2 = None"
    "\<forall>c. z3 = Some c \<longrightarrow> redis_client c = None \<and> redis_sentinel c = None"
    "e3 = e2 @ (if z3 = None then [] else [ClientClosed ''redis''])"
    by - (elim exE conjE, rule that, assumption+, simp, assumption)
  from close_rounds(4) [OF s(4)] obtain z4 where 4: "c4 = c3\<lparr>ic_mongo := z4\<rparr>" "z4 = None \<longleftrightarrow> ic_mongo c3 = None"
    "\<forall>c. z4 = Some c \<longrightarrow> mongo_client c = None" "e4 = e3 @ (if z4 = None then [] else [ClientClosed ''mongo''])"
    by - (elim exE conjE, rule that, assumption+)
  from close_rounds(5) [OF s(5)] obtain z5 where 5: "ctx' = c4\<lparr>ic_es := z5\<rparr>" "z5 = None \<longleftrightarrow> ic_es c4 = None"
    "\<forall>c. z5 = Some c \<longrightarrow> es_client c = None" "evs' = e4 @ (if z5 = None then [] else [ClientClosed ''es''])"
    by - (elim exE conjE, rule that, assumption+)
  have "released ctx'" unfolding released_def 5(1) 4(1) 3(1) 2(1) 1(1) using 1(3) 2(3) 3(3) 4(3) 5(3) by simp
  moreover have eq: "z1 = None \<longleftrightarrow> ic_zk ctx = None" "z2 = None \<longleftrightarrow> ic_email ctx = None" "z3 = None \<longleftrightarrow> ic_redis ctx = None"
    "z4 = None \<longleftrightarrow> ic_mongo ctx = None" "z5 = None \<longleftrightarrow> ic_es ctx = None"
    using 1(2) 2(2) 3(2) 4(2) 5(2) unfolding 4(1) 3(1) 2(1) 1(1) by simp_all
  moreover have "populated ctx' = populated ctx"
    unfolding populated_def 5(1) 4(1) 3(1) 2(1) 1(1) by (simp add: eq)
  moreover have "evs' = evs @ map ClientClosed (rev (populated ctx))"
    unfolding 5(4) 4(4) 3(4) 2(4) 1(4) populated_def eq by simp
  ultimately show ?thesis by blast
qed

lemma es_connect_client: "es_connect drv s c w = (res, c', w') \<Longrightarrow> es_client c' \<noteq> None"
  by (auto simp: es_connect_def Let_def split: prod.splits sum.splits bool.splits)

lemma connect_rounds:
  "connect_es env (ctx, w, evs) = (res, ctx', w', evs') \<Longrightarrow>
     \<exists>c. ctx' = ctx\<lparr>ic_es := Some c\<rparr> \<and> evs' = evs @ [ClientCreated ''es''] \<and> (\<not> isl res \<longrightarrow> \<not> isl (es_client_property c))"
  "connect_mongo env (ctx, w, evs) = (res, ctx', w', evs') \<Longrightarrow>
     \<exists>c. ctx' = ctx\<lparr>ic_mongo := Some c\<rparr> \<and> evs' = evs @ [ClientCreated ''mongo''] \<and> (\<not> isl res \<longrightarrow> \<not> isl (mongo_db_property c))"
  "connect_redis env (ctx, w, evs) = (res, ctx', w', evs') \<Longrightarrow>
     \<exists>c. ctx' = ctx\<lparr>ic_redis := Some c\<rparr> \<and> evs' = evs @ [ClientCreated ''redis''] \<and> (\<not> isl res \<longrightarrow> \<not> isl (redis_client_property c))"
  "connect_email env (ctx, w, evs) = (res, ctx', w', evs') \<Longrightarrow>
     \<exists>c. ctx' = ctx\<lparr>ic_email := Some c\<rparr> \<and> evs' = evs @ [ClientCreated ''email''] \<and> (\<not> isl res \<longrightarrow> http_client c)"
  "connect_zk env (ctx, w, evs) = (res, ctx', w', evs') \<Longrightarrow>
     (if ie_debug_read_only env then ctx' = ctx \<and> evs' = evs
      else \<exists>c. ctx' = ctx\<lparr>ic_zk := Some c\<rparr> \<and> evs' = evs @ [ClientCreated ''zk''] \<and> (\<not> isl res \<longrightarrow> kazoo_present c))"
  subgoal by (auto simp: connect_es_def es_client_property_def dest!: es_connect_client split: prod.splits)
  subgoal
    using mongo_connector.loop_usable [of "ie_mongo_db env" "ie_mongo_open env" 5 2 1 None "(new_MongoClient, w)"]
    by (auto simp: connect_defs mongo_connect_with_retry_def conn_exc_def split: prod.splits sum.splits ConnError.splits)
  subgoal
    using redis_connector.loop_usable [of "ie_redis_settings env" "ie_redis env" 3 1 1 None "(new_RedisClient, w)"]
    by (auto simp: connect_defs redis_connect_with_retry_def conn_exc_def split: prod.splits sum.splits ConnError.splits)
  subgoal by (auto simp: connect_defs email_connect_def Let_def split: prod.splits if_splits)
  subgoal by (auto simp: connect_defs zk_connect_def Let_def split: prod.splits if_splits)
  done

lemma connect_all_logged:
  assumes "connect_all env (new_InfraContext, w, []) = (res, ctx, w', evs)"
  shows "evs = map ClientCreated (populated ctx) \<and> (\<not> isl res \<longrightarrow> connected_infra (ie_debug_read_only env) ctx) \<and>
    (ie_debug_read_only env \<longrightarrow> ic_zk ctx = None)"
proof -
  let ?new = "new_InfraContext :: ('a, 'b, 'c) InfraContext"
  obtain r1 c1 w1 e1 where s1: "connect_es env (?new, w, []) = (r1, c1, w1, e1)" by (metis prod_cases4)
  obtain r2 c2 w2 e2 where s2: "connect_mongo env (c1, w1, e1) = (r2, c2, w2, e2)" by (metis prod_cases4)
  obtain r3 c3 w3 e3 where s3: "connect_redis env (c2, w2, e2) = (r3, c3, w3, e3)" by (metis prod_cases4)
  obtain r4 c4 w4 e4 where s4: "connect_email env (c3, w3, e3) = (r4, c4, w4, e4)" by (metis prod_cases4)
  obtain r5 c5 w5 e5 where s5: "connect_zk env (c4, w4, e4) = (r5, c5, w5, e5)" by (metis prod_cases4)
  note rounds = connect_rounds(1) [OF s1] connect_rounds(2) [OF s2] connect_rounds(3) [OF s3] connect_rounds(4) [OF s4]
    connect_rounds(5) [OF s5]
  have run: "(res, ctx, w', evs) =
     (if isl r1 then (r1, c1, w1, e1) else if isl r2 then (r2, c2, w2, e2) else if isl r3 then (r3, c3, w3, e3)
      else if isl r4 then (r4, c4, w4, e4) else (r5, c5, w5, e5))"
    using assms s1 s2 s3 s4 s5
    by (auto simp: connect_all_def infra_then_def isl_def split: sum.splits)
  show ?thesis
    using rounds run by (auto simp: populated_def new_InfraContext_def connected_infra_def split: if_splits)
qed

text \<open>
  Startup of the infrastructure is all or nothing: it either returns with every client connected
  (ZooKeeper only outside debug mode) and nothing closed, or it raises after closing every client it
  had created, each once and in the reverse order, so that none holds a connection.
\<close>
theorem init_infra_all_or_nothing:
  assumes "init_infra env w = (res, ctx, w', evs)" "res \<noteq> Inl LifeCancelled"
  shows "if isl res
    then released ctx \<and> evs = map ClientCreated (populated ctx) @ map ClientClosed (rev (populated ctx))
    else connected_infra (ie_debug_read_only env) ctx \<and> evs = map ClientCreated (populated ctx)"
proof -
  obtain r0 c0 w0 e0 where all: "connect_all env (new_InfraContext, w, []) = (r0, c0, w0, e0)" by (metis prod_cases4)
  note logged = connect_all_logged [OF all]
  show ?thesis
  proof (cases "\<exists>x. r0 = Inl (LifeError x)")
    case True
    then obtain x where x: "r0 = Inl (LifeError x)" by blast
    obtain rc c w1 e where cp: "close_partial env (c0, w0, e0) = (rc, c, w1, e)" by (metis prod_cases4)
    show ?thesis
    proof (cases rc)
      case (Inr u)
      with cp have "close_partial env (c0, w0, e0) = (Inr (), c, w1, e)" by simp
      then have "released c \<and> populated c = populated c0 \<and> e = e0 @ map ClientClosed (rev (populated c0))"
        by (rule close_partial_releases)
      with assms(1) all x cp Inr logged show ?thesis by (auto simp: init_infra_def)
    next
      case (Inl y)
      have "y = LifeCancelled"
        using cp Inl close_partial_error by blast
      with assms all x cp Inl show ?thesis by (simp add: init_infra_def)
    qed
  next
    case False
    then have "r0 = Inl LifeCancelled \<or> r0 = Inr ()" by (cases r0) (auto, metis LifeExc.exhaust)
    with assms all logged show ?thesis by (auto simp: init_infra_def)
  qed
qed

text \<open>A start that is cancelled is not rolled back: the clients created so far stay connected.\<close>

lemma cancelled_start_not_rolled_back:
  assumes "connect_all env (new_InfraContext, w, []) = (Inl LifeCancelled, ctx, w', evs)"
  shows "init_infra env w = (Inl LifeCancelled, ctx, w', map ClientCreated (populated ctx))"
  using assms connect_all_logged [OF assms] by (simp add: init_infra_def)

lemma infra_observes:
  assumes "init_infra env w = (res, ctx, w', evs)" "ie_debug_read_only env"
  shows "ClientCreated ''zk'' \<notin> set evs"
proof -
  obtain r0 c0 w0 e0 where all: "connect_all env (new_InfraContext, w, []) = (r0, c0, w0, e0)" by (metis prod_cases4)
  from connect_all_logged [OF all] assms(2) have e0: "ClientCreated ''zk'' \<notin> set e0"
    by (auto simp: populated_def split: if_splits)
  have "only_closes (c0, w0, e0) (ctx, w', evs)"
    using assms(1) all close_partial_only [of "(c0, w0, e0)" env]
    by (auto simp: init_infra_def only_closes_refl split: sum.splits LifeExc.splits prod.splits)
  with e0 show ?thesis by (auto simp: only_closes_def)
qed

end
