(* ===== verification/Lifecycle.thy ===== *)
theory Lifecycle
  imports Infra
begin

text \<open>
  \<open>src/src/main.py\<close> with \<open>src/src/startup/repos.py\<close>, \<open>distributed.py\<close> and \<open>scheduler_init.py\<close>: the
  lifespan of an instance, from the connection of the infrastructure to the teardown. The state
  holds the local variables of \<open>lifespan\<close> and the names of the attributes set on \<open>app.state\<close>,
  which refer to the same objects. The drivers are arguments on a world \<open>'w\<close>; what happens between
  startup and shutdown is an argument of \<open>lifespan\<close>.
\<close>

subsection \<open>State\<close>

datatype LifeEvent =
    PhaseBegin string | PhaseDone string | PhaseFailed string
  | InfraStep InfraEvent | VersionMismatch string string
  | CreateCollection string | CreateIndex string | ZkEffect Effect | ElectionStarted
  | SelfAlert EmailAlertRequest | SchedulerShutdown | PartitionStopped | LeaderStopped

record ('e, 'm, 'h, 'r, 'w) Life =
  lf_infra :: "('e, 'm, 'h) InfraContext option"
  lf_repos :: bool
  lf_leader :: "LeaderElection option"
  lf_partition :: "PartitionManager option"
  lf_cooldown :: "'r AlertCooldownManager option"
  lf_scheduler :: "AnalysisScheduler option"
  lf_attrs :: "string list"
  lf_startup_complete :: bool
  lf_log :: "LifeEvent list"
  lf_world :: 'w

definition new_Life :: "'w \<Rightarrow> ('e, 'm, 'h, 'r, 'w) Life" where
  "new_Life w =
     \<lparr>lf_infra = None, lf_repos = False, lf_leader = None, lf_partition = None, lf_cooldown = None,
      lf_scheduler = None, lf_attrs = [], lf_startup_complete = False, lf_log = [], lf_world = w\<rparr>"

datatype SchemaExc = OperationFailure int | SchemaError string | SchemaCancelled

text \<open>
  The settings and the services: the infrastructure, the version queries, the schema calls on the
  database, ZooKeeper as the partition manager sees it, what the repository answers to a reload,
  the mail transport, the state Redis is in, and how the steps of the teardown end.
\<close>

record ('e, 'm, 'h, 'r, 'w) LifeEnv =
  le_settings :: AppSettings
  le_hostname :: string
  le_root_path :: string
  le_email_app_name :: string
  le_infra :: "('e, 'm, 'h, 'w) InfraEnv"
  le_redis_info :: "'h \<Rightarrow> 'w \<Rightarrow> (ConnError + json) \<times> 'w"
  le_zk_stat :: "'w \<Rightarrow> (ZkError + string) \<times> 'w"
  le_list_collections :: "'m \<Rightarrow> string \<Rightarrow> 'w \<Rightarrow> (SchemaExc + string list) \<times> 'w"
  le_create_collection :: "string \<Rightarrow> 'w \<Rightarrow> (SchemaExc + unit) \<times> 'w"
  le_create_index :: "string \<Rightarrow> 'w \<Rightarrow> (SchemaExc + unit) \<times> 'w"
  le_zk :: kazoo
  le_epoch_path :: "ZkError option"
  le_scheduler :: SchedulerConfig
  le_intervals :: "string \<Rightarrow> JobError + int list"
  le_distinct :: "JobError + string list"
  le_redis_server :: 'r
  le_show_json :: "json \<Rightarrow> string"
  le_post :: "(string, json) dict \<Rightarrow> PostOutcome"
  le_now :: real
  le_finished_jobs :: "nat list option"
  le_stop_outcome :: "string \<Rightarrow> LifeExc option"

type_synonym ('e, 'm, 'h, 'r, 'w) life_step =
  "('e, 'm, 'h, 'r, 'w) Life \<Rightarrow> (LifeExc + unit) \<times> ('e, 'm, 'h, 'r, 'w) Life"

definition life_log :: "LifeEvent list \<Rightarrow> ('e, 'm, 'h, 'r, 'w) Life \<Rightarrow> ('e, 'm, 'h, 'r, 'w) Life" where
  "life_log evs l = l\<lparr>lf_log := lf_log l @ evs\<rparr>"

text \<open>The debug switch is one setting, read by all.\<close>

definition life_infra :: "('e, 'm, 'h, 'r, 'w) LifeEnv \<Rightarrow> ('e, 'm, 'h, 'w) InfraEnv" where
  "life_infra env = (le_infra env)\<lparr>ie_debug_read_only := set_debug_read_only (le_settings env)\<rparr>"

definition life_scheduler :: "('e, 'm, 'h, 'r, 'w) LifeEnv \<Rightarrow> SchedulerConfig" where
  "life_scheduler env = (le_scheduler env)\<lparr>sc_debug_read_only := set_debug_read_only (le_settings env)\<rparr>"

definition startup_phase :: "string \<Rightarrow> ('e, 'm, 'h, 'r, 'w) life_step \<Rightarrow> ('e, 'm, 'h, 'r, 'w) life_step" where
  "startup_phase name body l =
     (case body (life_log [PhaseBegin name] l) of
        (Inr _, l') \<Rightarrow> (Inr (), life_log [PhaseDone name] l')
      | (Inl (LifeError e), l') \<Rightarrow> (Inl (LifeError e), life_log [PhaseFailed name] l')
      | (Inl LifeCancelled, l') \<Rightarrow> (Inl LifeCancelled, l'))"

text \<open>Phases one after the other, up to the first that raises.\<close>

fun run_steps :: "('e, 'm, 'h, 'r, 'w) life_step list \<Rightarrow> ('e, 'm, 'h, 'r, 'w) life_step" where
  "run_steps [] l = (Inr (), l)"
| "run_steps (step # steps) l =
     (case step l of (Inl e, l') \<Rightarrow> (Inl e, l') | (Inr _, l') \<Rightarrow> run_steps steps l')"

subsection \<open>The phases\<close>

definition phase_init_infra :: "('e, 'm, 'h, 'r, 'w) LifeEnv \<Rightarrow> ('e, 'm, 'h, 'r, 'w) life_step" where
  "phase_init_infra env l =
     (case init_infra (life_infra env) (lf_world l) of
        (Inl e, _, w', evs) \<Rightarrow> (Inl e, life_log (map InfraStep evs) (l\<lparr>lf_world := w'\<rparr>))
      | (Inr _, ctx, w', evs) \<Rightarrow> (Inr (), life_log (map InfraStep evs) (l\<lparr>lf_infra := Some ctx, lf_world := w'\<rparr>)))"

text \<open>\<open>_verify_infra_versions\<close>: a mismatch is a warning; only a cancellation is raised.\<close>

definition redis_mismatch :: "ConnError + json \<Rightarrow> LifeEvent list" where
  "redis_mismatch info =
     (case bind_res (map_sum (\<lambda>_. AttributeError) (\<lambda>j. j) info) (\<lambda>j. jget j ''redis_version'' (JStr [])) of
        Inr (JStr version) \<Rightarrow> if starts_with version ''5.'' then [] else [VersionMismatch ''redis'' version]
      | _ \<Rightarrow> [])"

definition zk_mismatch :: "string \<Rightarrow> LifeEvent list" where
  "zk_mismatch version =
     (if version \<noteq> ''unknown'' \<and> \<not> occurs_in ''3.5.'' version then [VersionMismatch ''zk'' version] else [])"

definition verify_redis_version :: "('e, 'm, 'h, 'r, 'w) LifeEnv \<Rightarrow> 'h RedisClient option \<Rightarrow> ('e, 'm, 'h, 'r, 'w) life_step" where
  "verify_redis_version env redis l =
     (case redis of
        None \<Rightarrow> (Inr (), l)
      | Some c \<Rightarrow>
          (case redis_client_property c of
             Inl _ \<Rightarrow> (Inr (), l)
           | Inr h \<Rightarrow>
               (case le_redis_info env h (lf_world l) of
                  (info, w') \<Rightarrow>
                    (if info = Inl ConnCancelled then Inl LifeCancelled else Inr (),
                     life_log (redis_mismatch info) (l\<lparr>lf_world := w'\<rparr>)))))"

definition verify_zk_version :: "('e, 'm, 'h, 'r, 'w) LifeEnv \<Rightarrow> ZKClient option \<Rightarrow> ('e, 'm, 'h, 'r, 'w) life_step" where
  "verify_zk_version env zk l =
     (case zk of
        None \<Rightarrow> (Inr (), l)
      | Some c \<Rightarrow>
          (case (if kazoo_present c \<and> loop_present c then le_zk_stat env (lf_world l) else (Inl NoNodeError, lf_world l)) of
             (stat, w') \<Rightarrow>
               (case get_server_version stat c of
                  Inl _ \<Rightarrow> (Inl LifeCancelled, l\<lparr>lf_world := w'\<rparr>)
                | Inr version \<Rightarrow> (Inr (), life_log (zk_mismatch version) (l\<lparr>lf_world := w'\<rparr>)))))"

definition verify_infra_versions :: "('e, 'm, 'h, 'r, 'w) LifeEnv \<Rightarrow> ('e, 'm, 'h, 'r, 'w) life_step" where
  "verify_infra_versions env l =
     (case lf_infra l of
        None \<Rightarrow> (Inr (), l)
      | Some ctx \<Rightarrow> run_steps [verify_redis_version env (ic_redis ctx), verify_zk_version env (ic_zk ctx)] l)"

definition COLL_PROFILE :: string where "COLL_PROFILE = ''RESOURCE_MONITOR_PROFILE''"

definition schema_exc :: "SchemaExc + 'a \<Rightarrow> LifeExc + unit" where
  "schema_exc res = (case res of Inr _ \<Rightarrow> Inr () | Inl SchemaCancelled \<Rightarrow> Inl LifeCancelled | Inl _ \<Rightarrow> Inl (LifeError ''schema''))"

text \<open>
  \<open>init_repos\<close>: outside debug mode the profile collection is created when it is missing (a lost
  race, code 48, counts as created) and its unique scope index is ensured.
\<close>

definition ensure_collection :: "('e, 'm, 'h, 'r, 'w) LifeEnv \<Rightarrow> 'm \<times> string \<Rightarrow> ('e, 'm, 'h, 'r, 'w) life_step" where
  "ensure_collection env db l =
     (case le_list_collections env (fst db) (snd db) (lf_world l) of
        (Inl e, w') \<Rightarrow> (schema_exc (Inl e :: SchemaExc + unit), l\<lparr>lf_world := w'\<rparr>)
      | (Inr existing, w') \<Rightarrow>
          if COLL_PROFILE \<in> set existing then (Inr (), l\<lparr>lf_world := w'\<rparr>)
          else (case le_create_collection env COLL_PROFILE w' of
                  (res, w'') \<Rightarrow>
                    (if res = Inl (OperationFailure 48) then Inr () else schema_exc res,
                     life_log [CreateCollection COLL_PROFILE] (l\<lparr>lf_world := w''\<rparr>))))"

definition ensure_index :: "('e, 'm, 'h, 'r, 'w) LifeEnv \<Rightarrow> ('e, 'm, 'h, 'r, 'w) life_step" where
  "ensure_index env l =
     (case le_create_index env COLL_PROFILE (lf_world l) of
        (res, w') \<Rightarrow> (schema_exc res, life_log [CreateIndex COLL_PROFILE] (l\<lparr>lf_world := w'\<rparr>)))"

definition init_repos :: "('e, 'm, 'h, 'r, 'w) LifeEnv \<Rightarrow> ('e, 'm, 'h, 'r, 'w) life_step" where
  "init_repos env l =
     (case lf_infra l of
        None \<Rightarrow> (Inl (LifeError ''init_repos requires a connected MongoClient''), l)
      | Some ctx \<Rightarrow>
          (case ic_mongo ctx of
             None \<Rightarrow> (Inl (LifeError ''init_repos requires a connected MongoClient''), l)
           | Some mongo \<Rightarrow>
               (case mongo_db_property mongo of
                  Inl _ \<Rightarrow> (Inl (LifeError ''MongoClient.connect_with_retry() must be called first''), l)
                | Inr db \<Rightarrow>
                    (if set_debug_read_only (le_settings env) then (Inr (), l\<lparr>lf_repos := True\<rparr>)
                     else (case run_steps [ensure_collection env db, ensure_index env] l of
                             (Inl e, l') \<Rightarrow> (Inl e, l')
                           | (Inr _, l') \<Rightarrow> (Inr (), l'\<lparr>lf_repos := True\<rparr>))))))"

definition new_cooldown :: "('e, 'm, 'h, 'r, 'w) LifeEnv \<Rightarrow> 'r AlertCooldownManager" where
  "new_cooldown env = \<lparr>cd_local = Map.empty, cd_redis = le_redis_server env\<rparr>"

definition init_distributed :: "('e, 'm, 'h, 'r, 'w) LifeEnv \<Rightarrow> ('e, 'm, 'h, 'r, 'w) life_step" where
  "init_distributed env l =
     (if (case lf_infra l of None \<Rightarrow> True | Some ctx \<Rightarrow> ic_zk ctx = None)
      then (Inl (LifeError ''init_distributed requires a connected ZKClient''), l)
      else if (case lf_infra l of None \<Rightarrow> True | Some ctx \<Rightarrow> ic_redis ctx = None)
      then (Inl (LifeError ''init_distributed requires a connected RedisClient''), l)
      else (Inr (), l\<lparr>lf_leader := Some new_LeaderElection, lf_partition := Some new_PartitionManager,
                     lf_cooldown := Some (new_cooldown env)\<rparr>))"

text \<open>\<open>init_scheduler\<close>; in debug mode the cooldown manager is built here, without a distributed context.\<close>

definition init_scheduler :: "('e, 'm, 'h, 'r, 'w) LifeEnv \<Rightarrow> ('e, 'm, 'h, 'r, 'w) life_step" where
  "init_scheduler env l =
     (Inr (), l\<lparr>lf_scheduler := Some new_AnalysisScheduler,
               lf_cooldown := (if set_debug_read_only (le_settings env) then Some (new_cooldown env) else lf_cooldown l)\<rparr>)"

definition COMMON_ATTRS :: "string list" where
  "COMMON_ATTRS = [''settings'', ''infra'', ''repos'', ''scheduler'', ''es_client'', ''mongo_client'', ''redis_client'',
     ''zk_client'', ''email_client'']"

definition stash :: "('e, 'm, 'h, 'r, 'w) LifeEnv \<Rightarrow> ('e, 'm, 'h, 'r, 'w) life_step" where
  "stash env l =
     (Inr (), l\<lparr>lf_attrs := lf_attrs l @ COMMON_ATTRS @
        (if set_debug_read_only (le_settings env) then [] else [''distributed'', ''partition_manager'', ''leader_election''])
        @ [''cooldown_manager'']\<rparr>)"

definition life_cfg :: "('e, 'm, 'h, 'r, 'w) LifeEnv \<Rightarrow> PmConfig" where
  "life_cfg env =
     \<lparr>members_path = le_root_path env @ ''/members'', assignments_path = le_root_path env @ ''/assignments'',
      instance_id = (if set_instance_id (le_settings env) = [] then le_hostname env else set_instance_id (le_settings env)),
      has_scheduler = True\<rparr>"

text \<open>The partition manager's calls on the scheduler; a reload that raises is logged by the caller.\<close>

definition apply_effect :: "('e, 'm, 'h, 'r, 'w) LifeEnv \<Rightarrow> Effect \<Rightarrow> AnalysisScheduler \<Rightarrow> AnalysisScheduler" where
  "apply_effect env e s =
     (case e of
        PauseAllJobs \<Rightarrow> pause_all_jobs s
      | ResumeJobsFor ps \<Rightarrow> resume_jobs_for ps s
      | ReloadJobs ps \<Rightarrow> snd (reload (life_scheduler env) (le_intervals env) (le_distinct env) (Some ps) s)
      | _ \<Rightarrow> s)"

definition phase_partition_start :: "('e, 'm, 'h, 'r, 'w) LifeEnv \<Rightarrow> ('e, 'm, 'h, 'r, 'w) life_step" where
  "phase_partition_start env l =
     (case lf_partition l of
        None \<Rightarrow> (Inl (LifeError ''NoneType''), l)
      | Some pm \<Rightarrow>
          (case partition_start (life_cfg env) (le_zk env) pm of
             (pm', fx, raised) \<Rightarrow>
               (case raised of None \<Rightarrow> Inr () | Some Cancelled \<Rightarrow> Inl LifeCancelled | Some _ \<Rightarrow> Inl (LifeError ''partition_start''),
                life_log (map ZkEffect fx)
                  (l\<lparr>lf_partition := Some pm',
                     lf_infra := (if raised = None
                                  then map_option (\<lambda>ctx. ctx\<lparr>ic_zk := map_option (add_state_handler ''on_zk_state_change'') (ic_zk ctx)\<rparr>) (lf_infra l)
                                  else lf_infra l),
                     lf_leader := (if raised = None then map_option (add_on_acquired_callback ''on_become_leader'') (lf_leader l) else lf_leader l),
                     lf_scheduler := map_option (fold (apply_effect env) fx) (lf_scheduler l)\<rparr>))))"

definition phase_leader_start :: "('e, 'm, 'h, 'r, 'w) LifeEnv \<Rightarrow> ('e, 'm, 'h, 'r, 'w) life_step" where
  "phase_leader_start env l =
     (case lf_leader l of
        None \<Rightarrow> (Inl (LifeError ''NoneType''), l)
      | Some le \<Rightarrow>
          (case leader_start (le_epoch_path env) le of
             (le', None) \<Rightarrow> (Inr (), life_log [ElectionStarted] (l\<lparr>lf_leader := Some le'\<rparr>))
           | (le', Some Cancelled) \<Rightarrow> (Inl LifeCancelled, l\<lparr>lf_leader := Some le'\<rparr>)
           | (le', Some _) \<Rightarrow> (Inl (LifeError ''leader_start''), l\<lparr>lf_leader := Some le'\<rparr>)))"

definition phase_scheduler_start :: "('e, 'm, 'h, 'r, 'w) LifeEnv \<Rightarrow> ('e, 'm, 'h, 'r, 'w) life_step" where
  "phase_scheduler_start env l = (Inr (), l\<lparr>lf_scheduler := map_option (scheduler_start (life_scheduler env)) (lf_scheduler l)\<rparr>)"

text \<open>The boot sequence up to the \<open>yield\<close>.\<close>

definition startup :: "('e, 'm, 'h, 'r, 'w) LifeEnv \<Rightarrow> ('e, 'm, 'h, 'r, 'w) life_step" where
  "startup env =
     (let live = \<not> set_debug_read_only (le_settings env)
      in run_steps
        ([startup_phase ''init_infra'' (phase_init_infra env), startup_phase ''verify_versions'' (verify_infra_versions env),
          startup_phase ''init_repos'' (init_repos env)] @
         (if live then [startup_phase ''init_distributed'' (init_distributed env)] else []) @
         [startup_phase ''init_scheduler'' (init_scheduler env), stash env] @
         (if live then [startup_phase ''partition_manager_start'' (phase_partition_start env),
                        startup_phase ''leader_election_start'' (phase_leader_start env)] else []) @
         [startup_phase ''scheduler_start'' (phase_scheduler_start env)]))"

subsection \<open>Teardown\<close>

text \<open>One step of the \<open>finally\<close> block: it runs when its attribute is set, and swallows an \<open>Exception\<close>.\<close>

definition stop_step :: "('e, 'm, 'h, 'r, 'w) LifeEnv \<Rightarrow> string \<Rightarrow> LifeEvent \<Rightarrow>
    (('e, 'm, 'h, 'r, 'w) Life \<Rightarrow> ('e, 'm, 'h, 'r, 'w) Life) \<Rightarrow> ('e, 'm, 'h, 'r, 'w) life_step" where
  "stop_step env name ev stop l =
     (if name \<notin> set (lf_attrs l) then (Inr (), l)
      else (if le_stop_outcome env name = Some LifeCancelled then Inl LifeCancelled else Inr (), life_log [ev] (stop l)))"

definition close_infra :: "('e, 'm, 'h, 'r, 'w) LifeEnv \<Rightarrow> ('e, 'm, 'h, 'r, 'w) life_step" where
  "close_infra env l =
     (case lf_infra l of
        None \<Rightarrow> (Inr (), l)
      | Some ctx \<Rightarrow>
          (case close_partial (life_infra env) (ctx, lf_world l, []) of
             (res, ctx', w', evs) \<Rightarrow> (res, life_log (map InfraStep evs) (l\<lparr>lf_infra := Some ctx', lf_world := w'\<rparr>))))"

definition ALL_ATTRS :: "string list" where
  "ALL_ATTRS = COMMON_ATTRS @ [''distributed'', ''partition_manager'', ''leader_election'', ''cooldown_manager'']"

definition clear_attrs :: "('e, 'm, 'h, 'r, 'w) life_step" where
  "clear_attrs l = (Inr (), l\<lparr>lf_attrs := filter (\<lambda>a. a \<notin> set ALL_ATTRS) (lf_attrs l)\<rparr>)"

definition teardown :: "('e, 'm, 'h, 'r, 'w) LifeEnv \<Rightarrow> ('e, 'm, 'h, 'r, 'w) life_step" where
  "teardown env l =
     run_steps
       [stop_step env ''scheduler'' SchedulerShutdown
          (\<lambda>l. l\<lparr>lf_scheduler := map_option (\<lambda>s. fst (scheduler_shutdown (le_finished_jobs env) s)) (lf_scheduler l)\<rparr>),
        stop_step env ''partition_manager'' PartitionStopped (\<lambda>l. l\<lparr>lf_partition := map_option partition_stop (lf_partition l)\<rparr>),
        stop_step env ''leader_election'' LeaderStopped (\<lambda>l. l\<lparr>lf_leader := map_option leader_stop (lf_leader l)\<rparr>),
        close_infra env, clear_attrs]
       (l\<lparr>lf_startup_complete := False\<rparr>)"

text \<open>\<open>_self_alert_critical\<close>: best effort, its own exceptions are swallowed.\<close>

definition self_alert_request :: "('e, 'm, 'h, 'r, 'w) LifeEnv \<Rightarrow> string \<Rightarrow> EmailAlertRequest" where
  "self_alert_request env message =
     \<lparr>hostname = (if set_instance_id (le_settings env) = [] then ''unknown'' else set_instance_id (le_settings env)),
      ip = ''self'', app = le_email_app_name env, process = ''ResourceMonitorServer'', eqp_model = ''self'', line = ''self'',
      code = ''RESOURCE_MONITOR'', subcode = ''SELF'', variables = [(''MESSAGE'', message)],
      rendered_body = None, title = None, email_category = None, display_id = None\<rparr>"

definition self_alert_critical :: "('e, 'm, 'h, 'r, 'w) LifeEnv \<Rightarrow> string \<Rightarrow> ('e, 'm, 'h, 'r, 'w) Life \<Rightarrow> ('e, 'm, 'h, 'r, 'w) Life" where
  "self_alert_critical env message l =
     (case lf_infra l of
        None \<Rightarrow> l
      | Some ctx \<Rightarrow>
          (case ic_email ctx of
             None \<Rightarrow> l
           | Some email \<Rightarrow>
               (let request = self_alert_request env message
                in life_log [SelfAlert request]
                     (l\<lparr>lf_infra := Some (ctx\<lparr>ic_email := Some (snd (send_alert (set_debug_read_only (le_settings env))
                          (le_show_json env) (le_post env) (le_now env) request email))\<rparr>)\<rparr>))))"

text \<open>
  The whole lifespan: \<open>serve\<close> is what happens at the \<open>yield\<close>. The result is what it raises, if
  anything; a cancellation skips the self-alert, and one that hits the teardown ends it.
\<close>

definition lifespan ::
  "('e, 'm, 'h, 'r, 'w) LifeEnv \<Rightarrow> ('e, 'm, 'h, 'r, 'w) life_step \<Rightarrow> 'w \<Rightarrow> (LifeExc + unit) \<times> ('e, 'm, 'h, 'r, 'w) Life" where
  "lifespan env serve w =
     (let (res, l) = (case startup env (new_Life w) of
                        (Inl e, l1) \<Rightarrow> (Inl e, l1)
                      | (Inr _, l1) \<Rightarrow> serve (l1\<lparr>lf_startup_complete := True\<rparr>));
          l' = (case res of Inl (LifeError e) \<Rightarrow> self_alert_critical env (''startup_failed: '' @ e) l | _ \<Rightarrow> l)
      in case teardown env l' of
           (Inl e, l'') \<Rightarrow> (Inl e, l'')
         | (Inr _, l'') \<Rightarrow> (res, l''))"

subsection \<open>The attributes the endpoints see\<close>

definition attr :: "('e, 'm, 'h, 'r, 'w) Life \<Rightarrow> string \<Rightarrow> 'a option \<Rightarrow> 'a option" where
  "attr l name x = (if name \<in> set (lf_attrs l) then x else None)"

definition app_state :: "('e, 'm, 'h, 'r, 'w) LifeEnv \<Rightarrow> ('e, 'm, 'h, 'r, 'w) Life \<Rightarrow> ('e, 'm, 'h, 'r) AppState" where
  "app_state env l =
     \<lparr>as_settings = attr l ''settings'' (Some (le_settings env)),
      as_es_client = attr l ''es_client'' (Option.bind (lf_infra l) ic_es),
      as_mongo_client = attr l ''mongo_client'' (Option.bind (lf_infra l) ic_mongo),
      as_redis_client = attr l ''redis_client'' (Option.bind (lf_infra l) ic_redis),
      as_zk_client = attr l ''zk_client'' (Option.bind (lf_infra l) ic_zk),
      as_email_client = attr l ''email_client'' (Option.bind (lf_infra l) ic_email),
      as_partition_manager = attr l ''partition_manager'' (lf_partition l),
      as_leader_election = attr l ''leader_election'' (lf_leader l),
      as_cooldown_manager = attr l ''cooldown_manager'' (lf_cooldown l),
      as_scheduler = attr l ''scheduler'' (lf_scheduler l)\<rparr>"

subsection \<open>What the steps leave alone\<close>

text \<open>
  A relation between the state before and after a step that every step of a sequence keeps: phases
  and sequences of steps keep it too.
\<close>

locale life_frame =
  fixes R :: "('e, 'm, 'h, 'r, 'w) Life \<Rightarrow> ('e, 'm, 'h, 'r, 'w) Life \<Rightarrow> bool"
  assumes reflexive: "R l l"
    and transitive: "R l l' \<Longrightarrow> R l' l'' \<Longrightarrow> R l l''"
    and phase_events: "ev \<in> {PhaseBegin n, PhaseDone n, PhaseFailed n} \<Longrightarrow> R l (life_log [ev] l)"
begin

lemma framed_phase:
  assumes "\<And>l. R l (snd (body l))"
  shows "R l (snd (startup_phase n body l))"
proof -
  let ?l = "life_log [PhaseBegin n] l"
  have "R l ?l" by (rule phase_events [of _ n]) simp
  then have "R l (snd (body ?l))" by (rule transitive) (rule assms)
  moreover have "R l' (life_log [PhaseDone n] l')" "R l' (life_log [PhaseFailed n] l')" for l'
    by (rule phase_events [of _ n], simp)+
  ultimately show ?thesis
    by (auto simp: startup_phase_def intro: transitive split: prod.splits sum.splits LifeExc.splits)
qed

lemma framed_steps:
  "(\<And>step l. step \<in> set steps \<Longrightarrow> R l (snd (step l))) \<Longrightarrow> R l (snd (run_steps steps l))"
proof (induction steps arbitrary: l)
  case (Cons step steps)
  then have first: "R l (snd (step l))" by simp
  show ?case
  proof (cases "fst (step l)")
    case (Inr u)
    have "R (snd (step l)) (snd (run_steps steps (snd (step l))))" by (rule Cons.IH) (rule Cons.prems, simp)
    with first Inr show ?thesis by (auto intro: transitive split: prod.splits)
  qed (use first in \<open>auto split: prod.splits\<close>)
qed (simp add: reflexive)

lemma framed_verify:
  assumes "\<And>c l. R l (snd (verify_redis_version env c l))" "\<And>c l. R l (snd (verify_zk_version env c l))"
  shows "R l (snd (verify_infra_versions env l))"
  using assms unfolding verify_infra_versions_def
  by (auto split: option.splits intro!: framed_steps reflexive simp del: run_steps.simps)

lemma framed_repos:
  assumes "\<And>db l. R l (snd (ensure_collection env db l))" "\<And>l. R l (snd (ensure_index env l))"
    and repos: "\<And>l. R l (l\<lparr>lf_repos := True\<rparr>)"
  shows "R l (snd (init_repos env l))"
proof -
  have run: "R l (snd (run_steps [ensure_collection env db, ensure_index env] l))" for db
    by (rule framed_steps) (auto intro: assms(1,2))
  then have "R l (l'\<lparr>lf_repos := True\<rparr>)" "R l l'"
    if "run_steps [ensure_collection env db, ensure_index env] l = (r, l')" for r l' db
    using that transitive [OF _ repos] by (metis snd_conv)+
  then show ?thesis
    by (auto simp: init_repos_def intro: reflexive repos split: option.splits sum.splits prod.splits simp del: run_steps.simps)
qed

end

text \<open>The infrastructure part of the log, and the clients of the context by name.\<close>

fun infra_log :: "LifeEvent list \<Rightarrow> InfraEvent list" where
  "infra_log [] = []"
| "infra_log (InfraStep x # evs) = x # infra_log evs"
| "infra_log (_ # evs) = infra_log evs"

lemma infra_log_append [simp]: "infra_log (xs @ ys) = infra_log xs @ infra_log ys"
  by (induction xs rule: infra_log.induct) simp_all

lemma infra_log_map [simp]:
  "infra_log (map InfraStep es) = es" "infra_log (map (InfraStep \<circ> f) xs) = map f xs" "infra_log (map ZkEffect fx) = []"
  by (induction es, simp_all) (induction xs, simp_all, induction fx, simp_all)

text \<open>In debug mode nothing shared is changed: no schema call, no ZooKeeper call, no election.\<close>

fun observes_only :: "LifeEvent \<Rightarrow> bool" where
  "observes_only (CreateCollection _) = False"
| "observes_only (CreateIndex _) = False"
| "observes_only (ZkEffect _) = False"
| "observes_only ElectionStarted = False"
| "observes_only (InfraStep (ClientCreated n)) = (n \<noteq> ''zk'')"
| "observes_only _ = True"

lemma mismatch_logs [simp]:
  "infra_log (redis_mismatch info) = []" "infra_log (zk_mismatch v) = []"
  "list_all observes_only (redis_mismatch info)" "list_all observes_only (zk_mismatch v)"
  by (auto simp: redis_mismatch_def zk_mismatch_def split: sum.splits json.splits)

lemma populated_update [simp]:
  "populated (ctx\<lparr>ic_zk := map_option f (ic_zk ctx)\<rparr>) = populated ctx"
  "ic_email ctx = Some c \<Longrightarrow> populated (ctx\<lparr>ic_email := Some c'\<rparr>) = populated ctx"
  by (simp_all add: populated_def)

definition same_clients :: "('e, 'm, 'h, 'r, 'w) Life \<Rightarrow> ('e, 'm, 'h, 'r, 'w) Life \<Rightarrow> bool" where
  "same_clients l l' \<longleftrightarrow>
     infra_log (lf_log l') = infra_log (lf_log l) \<and> map_option populated (lf_infra l') = map_option populated (lf_infra l)"

interpretation clients: life_frame same_clients
  by unfold_locales (auto simp: same_clients_def life_log_def)

definition observing :: "('e, 'm, 'h, 'r, 'w) Life \<Rightarrow> ('e, 'm, 'h, 'r, 'w) Life \<Rightarrow> bool" where
  "observing l l' \<longleftrightarrow> (list_all observes_only (lf_log l) \<longrightarrow> list_all observes_only (lf_log l'))"

interpretation observer: life_frame observing
  by unfold_locales (auto simp: observing_def life_log_def)

lemmas phase_defs = verify_redis_version_def verify_zk_version_def ensure_collection_def ensure_index_def
  init_distributed_def init_scheduler_def stash_def phase_partition_start_def phase_leader_start_def
  phase_scheduler_start_def clear_attrs_def stop_step_def

lemma version_steps [intro]:
  "same_clients l (snd (verify_redis_version env redis l))" "same_clients l (snd (verify_zk_version env zk l))"
  "observing l (snd (verify_redis_version env redis l))" "observing l (snd (verify_zk_version env zk l))"
  by (auto simp: phase_defs same_clients_def observing_def life_log_def split: option.splits sum.splits prod.splits if_splits)

lemma verify_steps [intro]:
  "same_clients l (snd (verify_infra_versions env l))" "observing l (snd (verify_infra_versions env l))"
  by (auto intro!: clients.framed_verify observer.framed_verify)

lemma schema_steps [intro]:
  "same_clients l (snd (ensure_collection env db l))" "same_clients l (snd (ensure_index env l))"
  by (auto simp: phase_defs same_clients_def life_log_def split: sum.splits prod.splits if_splits)

lemma init_repos_clients [intro]: "same_clients l (snd (init_repos env l))"
  by (rule clients.framed_repos) (auto simp: same_clients_def [of _ "_\<lparr>lf_repos := True\<rparr>"])

lemma other_steps [intro]:
  "same_clients l (snd (init_distributed env l))" "same_clients l (snd (init_scheduler env l))"
  "same_clients l (snd (stash env l))" "same_clients l (snd (phase_partition_start env l))"
  "same_clients l (snd (phase_leader_start env l))" "same_clients l (snd (phase_scheduler_start env l))"
  "same_clients l (snd (clear_attrs l))"
  by (auto simp: phase_defs same_clients_def life_log_def option.map_comp comp_def
      split: option.splits prod.splits ZkError.splits if_splits)

lemma stop_clients:
  "\<forall>x. infra_log [ev] = [] \<and> same_clients x (stop x) \<Longrightarrow> same_clients l (snd (stop_step env n ev stop l))"
  by (auto simp: phase_defs same_clients_def life_log_def)

text \<open>The phases after the first.\<close>

definition later_steps :: "('e, 'm, 'h, 'r, 'w) LifeEnv \<Rightarrow> ('e, 'm, 'h, 'r, 'w) life_step list" where
  "later_steps env =
     (let live = \<not> set_debug_read_only (le_settings env)
      in [startup_phase ''verify_versions'' (verify_infra_versions env), startup_phase ''init_repos'' (init_repos env)] @
         (if live then [startup_phase ''init_distributed'' (init_distributed env)] else []) @
         [startup_phase ''init_scheduler'' (init_scheduler env), stash env] @
         (if live then [startup_phase ''partition_manager_start'' (phase_partition_start env),
                        startup_phase ''leader_election_start'' (phase_leader_start env)] else []) @
         [startup_phase ''scheduler_start'' (phase_scheduler_start env)])"

lemma startup_split: "startup env = run_steps (startup_phase ''init_infra'' (phase_init_infra env) # later_steps env)"
  by (simp add: startup_def later_steps_def Let_def fun_eq_iff)

lemma later_clients: "same_clients l (snd (run_steps (later_steps env) l))"
  by (rule clients.framed_steps) (auto simp: later_steps_def Let_def intro!: clients.framed_phase split: if_splits)

text \<open>Where a start ends: in the roll-back of the infrastructure, or with every client in the context.\<close>

lemma startup_infra:
  assumes "startup env (new_Life w) = (res, l)"
  shows "lf_infra l = None \<and> isl res \<and> lf_attrs l = [] \<and> lf_scheduler l = None \<and> lf_leader l = None \<and>
       (res = Inl LifeCancelled \<or> (\<exists>names. infra_log (lf_log l) = map ClientCreated names @ map ClientClosed (rev names)))
    \<or> (\<exists>ctx. lf_infra l = Some ctx \<and> infra_log (lf_log l) = map ClientCreated (populated ctx) \<and>
         populated ctx = [''es'', ''mongo'', ''redis'', ''email''] @ (if set_debug_read_only (le_settings env) then [] else [''zk'']))"
proof -
  obtain r ctx w' evs where init: "init_infra (life_infra env) w = (r, ctx, w', evs)" by (metis prod_cases4)
  let ?l0 = "life_log [PhaseBegin ''init_infra''] (new_Life w) :: ('a, 'b, 'c, 'd, 'e) Life"
  show ?thesis
  proof (cases r)
    case (Inl e)
    have "res = Inl e \<and> lf_infra l = None \<and> lf_attrs l = [] \<and> lf_scheduler l = None \<and> lf_leader l = None \<and> infra_log (lf_log l) = evs"
      using assms init Inl
      by (cases e) (auto simp: startup_split startup_phase_def phase_init_infra_def life_log_def new_Life_def)
    moreover have "e = LifeCancelled \<or> (\<exists>names. evs = map ClientCreated names @ map ClientClosed (rev names))"
      using init_infra_all_or_nothing [OF init] Inl by auto
    ultimately show ?thesis by auto
  next
    case (Inr u)
    let ?l1 = "life_log [PhaseDone ''init_infra''] (life_log (map InfraStep evs) (?l0\<lparr>lf_infra := Some ctx, lf_world := w'\<rparr>))"
    have "startup_phase ''init_infra'' (phase_init_infra env) (new_Life w) = (Inr (), ?l1)"
      using init Inr by (simp add: startup_phase_def phase_init_infra_def life_log_def new_Life_def)
    with assms have "snd (run_steps (later_steps env) ?l1) = l" by (simp add: startup_split)
    with later_clients [of ?l1 env] have "same_clients ?l1 l" by simp
    moreover have "evs = map ClientCreated (populated ctx)"
      using init_infra_all_or_nothing [OF init] Inr by simp
    moreover have "populated ctx = [''es'', ''mongo'', ''redis'', ''email''] @ (if set_debug_read_only (le_settings env) then [] else [''zk''])"
      using init_infra_all_or_nothing [OF init] Inr
      by (auto simp: connected_infra_def populated_def life_infra_def split: if_splits)
    ultimately show ?thesis
      by (auto simp: same_clients_def life_log_def new_Life_def)
  qed
qed

subsection \<open>Teardown\<close>

text \<open>The events of a complete teardown: the parts that were started, in order, then the clients.\<close>

definition teardown_log :: "('e, 'm, 'h, 'r, 'w) Life \<Rightarrow> LifeEvent list" where
  "teardown_log l =
     (if ''scheduler'' \<in> set (lf_attrs l) then [SchedulerShutdown] else []) @
     (if ''partition_manager'' \<in> set (lf_attrs l) then [PartitionStopped] else []) @
     (if ''leader_election'' \<in> set (lf_attrs l) then [LeaderStopped] else []) @
     (case lf_infra l of None \<Rightarrow> [] | Some ctx \<Rightarrow> map (InfraStep \<circ> ClientClosed) (rev (populated ctx)))"

lemma run_steps_Inr: "run_steps (step # steps) l = (Inr (), l') \<longleftrightarrow> (\<exists>l1. step l = (Inr (), l1) \<and> run_steps steps l1 = (Inr (), l'))"
  by (auto split: prod.splits sum.splits)

lemma stop_step_Inr:
  "stop_step env name ev stop l = (Inr (), l') \<Longrightarrow> l' = (if name \<in> set (lf_attrs l) then life_log [ev] (stop l) else l)"
  by (auto simp: stop_step_def split: if_splits)

lemma close_infra_Inr:
  assumes "close_infra env l = (Inr (), l')"
  shows "\<exists>infra w. l' = life_log (case lf_infra l of None \<Rightarrow> [] | Some ctx \<Rightarrow> map (InfraStep \<circ> ClientClosed) (rev (populated ctx)))
      (l\<lparr>lf_infra := infra, lf_world := w\<rparr>) \<and> (\<forall>ctx. infra = Some ctx \<longrightarrow> released ctx)"
proof (cases "lf_infra l")
  case (Some ctx)
  obtain r c w e where cp: "close_partial (life_infra env) (ctx, lf_world l, []) = (r, c, w, e)" by (metis prod_cases4)
  with assms Some have r: "r = Inr ()" and l': "l' = life_log (map InfraStep e) (l\<lparr>lf_infra := Some c, lf_world := w\<rparr>)"
    by (simp_all add: close_infra_def)
  from close_partial_releases [OF cp [unfolded r]] have "released c" "e = map ClientClosed (rev (populated ctx))" by simp_all
  with l' Some show ?thesis by (intro exI [of _ "Some c"] exI [of _ w]) simp
next
  case None
  with assms have "l' = l" by (simp add: close_infra_def)
  with None show ?thesis by (intro exI [of _ None] exI [of _ "lf_world l"]) (simp add: life_log_def)
qed

lemma teardown_done:
  assumes "teardown env l = (Inr (), l')"
  shows "lf_log l' = lf_log l @ teardown_log l"
    and "lf_attrs l' = filter (\<lambda>a. a \<notin> set ALL_ATTRS) (lf_attrs l)" and "\<not> lf_startup_complete l'"
    and "\<forall>ctx. lf_infra l' = Some ctx \<longrightarrow> released ctx"
    and "lf_scheduler l' = (if ''scheduler'' \<in> set (lf_attrs l)
           then map_option (\<lambda>s. fst (scheduler_shutdown (le_finished_jobs env) s)) (lf_scheduler l) else lf_scheduler l)"
    and "lf_leader l' = (if ''leader_election'' \<in> set (lf_attrs l) then map_option leader_stop (lf_leader l) else lf_leader l)"
proof -
  let ?l0 = "l\<lparr>lf_startup_complete := False\<rparr>"
  let ?sched = "\<lambda>l. l\<lparr>lf_scheduler := map_option (\<lambda>s. fst (scheduler_shutdown (le_finished_jobs env) s)) (lf_scheduler l)\<rparr>"
  from assms obtain l1 l2 l3 l4 where s: "stop_step env ''scheduler'' SchedulerShutdown ?sched ?l0 = (Inr (), l1)"
    "stop_step env ''partition_manager'' PartitionStopped (\<lambda>l. l\<lparr>lf_partition := map_option partition_stop (lf_partition l)\<rparr>) l1 = (Inr (), l2)"
    "stop_step env ''leader_election'' LeaderStopped (\<lambda>l. l\<lparr>lf_leader := map_option leader_stop (lf_leader l)\<rparr>) l2 = (Inr (), l3)"
    "close_infra env l3 = (Inr (), l4)" "clear_attrs l4 = (Inr (), l')"
    unfolding teardown_def run_steps_Inr by auto
  note 1 = stop_step_Inr [OF s(1)] and 2 = stop_step_Inr [OF s(2)] and 3 = stop_step_Inr [OF s(3)]
  from close_infra_Inr [OF s(4)] obtain infra w where 4: "l4 = life_log
      (case lf_infra l3 of None \<Rightarrow> [] | Some ctx \<Rightarrow> map (InfraStep \<circ> ClientClosed) (rev (populated ctx))) (l3\<lparr>lf_infra := infra, lf_world := w\<rparr>)"
    and rel: "\<forall>ctx. infra = Some ctx \<longrightarrow> released ctx"
    by - (elim exE conjE, rule that, assumption+)
  from s(5) have 5: "l' = l4\<lparr>lf_attrs := filter (\<lambda>a. a \<notin> set ALL_ATTRS) (lf_attrs l4)\<rparr>" by (simp add: clear_attrs_def)
  note steps = 5 4 3 2 1 life_log_def
  show "lf_log l' = lf_log l @ teardown_log l" unfolding teardown_log_def by (simp add: steps)
  show "lf_attrs l' = filter (\<lambda>a. a \<notin> set ALL_ATTRS) (lf_attrs l)" by (simp add: steps)
  show "\<not> lf_startup_complete l'" by (simp add: steps)
  show "\<forall>ctx. lf_infra l' = Some ctx \<longrightarrow> released ctx" using rel by (simp add: 5 4 life_log_def)
  show "lf_scheduler l' = (if ''scheduler'' \<in> set (lf_attrs l)
      then map_option (\<lambda>s. fst (scheduler_shutdown (le_finished_jobs env) s)) (lf_scheduler l) else lf_scheduler l)"
    by (simp add: steps)
  show "lf_leader l' = (if ''leader_election'' \<in> set (lf_attrs l) then map_option leader_stop (lf_leader l) else lf_leader l)"
    by (simp add: steps)
qed

subsection \<open>Everything started can be stopped\<close>

text \<open>Nothing runs in the background yet.\<close>

definition quiet :: "('e, 'm, 'h, 'r, 'w) Life \<Rightarrow> bool" where
  "quiet l \<longleftrightarrow> (\<forall>s. lf_scheduler l = Some s \<longrightarrow> \<not> running s) \<and> (\<forall>le. lf_leader l = Some le \<longrightarrow> \<not> election_running le)"

definition stays_quiet :: "('e, 'm, 'h, 'r, 'w) Life \<Rightarrow> ('e, 'm, 'h, 'r, 'w) Life \<Rightarrow> bool" where
  "stays_quiet l l' \<longleftrightarrow> lf_attrs l' = lf_attrs l \<and> (quiet l \<longrightarrow> quiet l')"

lemma new_Life_fields [simp]: "lf_attrs (new_Life w) = []" "lf_leader (new_Life w) = None" "quiet (new_Life w)"
  by (simp_all add: new_Life_def quiet_def)

lemma quiet_log [simp]: "quiet (life_log evs l) = quiet l"
  by (simp add: quiet_def life_log_def)

interpretation silence: life_frame stays_quiet
  by unfold_locales (simp_all add: stays_quiet_def, simp add: life_log_def)

definition keeps_attrs :: "('e, 'm, 'h, 'r, 'w) Life \<Rightarrow> ('e, 'm, 'h, 'r, 'w) Life \<Rightarrow> bool" where
  "keeps_attrs l l' \<longleftrightarrow> lf_attrs l' = lf_attrs l \<and> (lf_leader l = None \<longrightarrow> lf_leader l' = None)"

interpretation attributes: life_frame keeps_attrs
  by unfold_locales (auto simp: keeps_attrs_def life_log_def)

lemma fold_effect_running: "running (fold (apply_effect env) fx s) = running s"
proof (induction fx arbitrary: s)
  case (Cons e fx)
  have add: "running (fold (add_interval_job p) ivs x) = running x" for p ivs x
    by (induction ivs arbitrary: x) (simp_all add: add_interval_job_def)
  have jobs: "running (snd (add_process_jobs iv ps x)) = running x" for iv ps x
    by (induction ps arbitrary: x) (auto simp: add split: sum.splits)
  have "running (apply_effect env e s) = running s"
    by (auto simp: apply_effect_def pause_all_jobs_def resume_jobs_for_def reload_def Let_def jobs split: Effect.splits)
  with Cons show ?case by simp
qed simp

lemma early_silence [intro]:
  "stays_quiet l (snd (phase_init_infra env l))" "stays_quiet l (snd (verify_redis_version env redis l))"
  "stays_quiet l (snd (verify_zk_version env zk l))" "stays_quiet l (snd (ensure_collection env db l))"
  "stays_quiet l (snd (ensure_index env l))" "stays_quiet l (snd (init_distributed env l))" "stays_quiet l (snd (init_scheduler env l))"
  by (auto simp: phase_init_infra_def phase_defs stays_quiet_def quiet_def life_log_def new_LeaderElection_def new_AnalysisScheduler_def
      split: option.splits sum.splits prod.splits if_splits)

lemma checks_silence [intro]:
  "stays_quiet l (snd (verify_infra_versions env l))" "stays_quiet l (snd (init_repos env l))"
  by (rule silence.framed_verify; blast)
    (rule silence.framed_repos, auto simp: stays_quiet_def [of _ "_\<lparr>lf_repos := True\<rparr>"] quiet_def)

lemma early_attrs [intro]:
  "keeps_attrs l (snd (phase_init_infra env l))" "keeps_attrs l (snd (verify_redis_version env redis l))"
  "keeps_attrs l (snd (verify_zk_version env zk l))" "keeps_attrs l (snd (ensure_collection env db l))"
  "keeps_attrs l (snd (ensure_index env l))" "keeps_attrs l (snd (init_scheduler env l))"
  by (auto simp: phase_init_infra_def phase_defs keeps_attrs_def life_log_def split: option.splits sum.splits prod.splits if_splits)

lemma checks_attrs [intro]:
  "keeps_attrs l (snd (verify_infra_versions env l))" "keeps_attrs l (snd (init_repos env l))"
  by (rule attributes.framed_verify; blast)
    (rule attributes.framed_repos, auto simp: keeps_attrs_def [of _ "_\<lparr>lf_repos := True\<rparr>"])

lemma late_attrs [intro]:
  "keeps_attrs l (snd (phase_partition_start env l))" "keeps_attrs l (snd (phase_leader_start env l))"
  "keeps_attrs l (snd (phase_scheduler_start env l))"
  by (auto simp: phase_defs keeps_attrs_def life_log_def split: option.splits prod.splits ZkError.splits if_splits)

definition stashed_attrs :: "('e, 'm, 'h, 'r, 'w) LifeEnv \<Rightarrow> string list" where
  "stashed_attrs env = COMMON_ATTRS @
     (if set_debug_read_only (le_settings env) then [] else [''distributed'', ''partition_manager'', ''leader_election''])
     @ [''cooldown_manager'']"

lemma run_steps_append:
  "run_steps (xs @ ys) l = (case run_steps xs l of (Inl e, l') \<Rightarrow> (Inl e, l') | (Inr _, l') \<Rightarrow> run_steps ys l')"
  by (induction xs arbitrary: l) (auto split: prod.splits sum.splits)

definition early_steps :: "('e, 'm, 'h, 'r, 'w) LifeEnv \<Rightarrow> ('e, 'm, 'h, 'r, 'w) life_step list" where
  "early_steps env =
     [startup_phase ''init_infra'' (phase_init_infra env), startup_phase ''verify_versions'' (verify_infra_versions env),
      startup_phase ''init_repos'' (init_repos env)] @
     (if set_debug_read_only (le_settings env) then [] else [startup_phase ''init_distributed'' (init_distributed env)]) @
     [startup_phase ''init_scheduler'' (init_scheduler env)]"

definition late_steps :: "('e, 'm, 'h, 'r, 'w) LifeEnv \<Rightarrow> ('e, 'm, 'h, 'r, 'w) life_step list" where
  "late_steps env =
     (if set_debug_read_only (le_settings env) then []
      else [startup_phase ''partition_manager_start'' (phase_partition_start env),
            startup_phase ''leader_election_start'' (phase_leader_start env)]) @
     [startup_phase ''scheduler_start'' (phase_scheduler_start env)]"

lemma startup_halves: "startup env = run_steps (early_steps env @ stash env # late_steps env)"
  by (simp add: startup_def early_steps_def late_steps_def Let_def fun_eq_iff)

text \<open>A start that set no attributes left nothing running; any other set the attributes the teardown needs.\<close>

lemma startup_stoppable:
  assumes "startup env (new_Life w) = (res, l)"
  shows "isl res \<and> lf_attrs l = [] \<and> quiet l \<or>
    lf_attrs l = stashed_attrs env \<and> (set_debug_read_only (le_settings env) \<longrightarrow> lf_leader l = None)"
proof -
  obtain r l1 where early: "run_steps (early_steps env) (new_Life w) = (r, l1)" by fastforce
  have "stays_quiet (new_Life w) (snd (run_steps (early_steps env) (new_Life w)))"
    by (rule silence.framed_steps) (auto simp: early_steps_def intro!: silence.framed_phase split: if_splits)
  then have quiet: "lf_attrs l1 = []" "quiet l1"
    by (simp_all add: early stays_quiet_def)
  have leader: "lf_leader l1 = None" if "set_debug_read_only (le_settings env)"
  proof -
    have "keeps_attrs (new_Life w) (snd (run_steps (early_steps env) (new_Life w)))"
      by (rule attributes.framed_steps) (use that in \<open>auto simp: early_steps_def intro!: attributes.framed_phase\<close>)
    then show ?thesis by (simp add: early keeps_attrs_def)
  qed
  let ?l2 = "l1\<lparr>lf_attrs := stashed_attrs env\<rparr>"
  have late: "keeps_attrs ?l2 (snd (run_steps (late_steps env) ?l2))"
    by (rule attributes.framed_steps) (auto simp: late_steps_def intro!: attributes.framed_phase split: if_splits)
  show ?thesis
  proof (cases r)
    case (Inl e)
    with assms early quiet show ?thesis by (auto simp: startup_halves run_steps_append)
  next
    case (Inr u)
    have "stash env l1 = (Inr (), ?l2)" by (simp add: stash_def stashed_attrs_def quiet)
    with assms early Inr have "run_steps (late_steps env) ?l2 = (res, l)" by (simp add: startup_halves run_steps_append)
    with late leader show ?thesis by (simp add: keeps_attrs_def)
  qed
qed

text \<open>
  What the serving period may do: it neither creates nor closes clients, keeps the attributes and
  starts no election of its own.
\<close>

definition serve_ok :: "('e, 'm, 'h, 'r, 'w) life_step \<Rightarrow> bool" where
  "serve_ok serve \<longleftrightarrow> (\<forall>l. same_clients l (snd (serve l)) \<and> keeps_attrs l (snd (serve l)))"

lemma self_alert_frame:
  "same_clients l (self_alert_critical env m l)" "lf_attrs (self_alert_critical env m l) = lf_attrs l"
  "lf_leader (self_alert_critical env m l) = lf_leader l" "lf_scheduler (self_alert_critical env m l) = lf_scheduler l"
  "lf_infra l = None \<Longrightarrow> self_alert_critical env m l = l"
  by (auto simp: self_alert_critical_def same_clients_def life_log_def Let_def split: option.splits)

lemma stashed_membership:
  "''scheduler'' \<in> set (stashed_attrs env)" "set (stashed_attrs env) \<subseteq> set ALL_ATTRS"
  "\<not> set_debug_read_only (le_settings env) \<Longrightarrow> ''leader_election'' \<in> set (stashed_attrs env)"
  by (auto simp: stashed_attrs_def ALL_ATTRS_def COMMON_ATTRS_def)

text \<open>The state in which the teardown begins.\<close>

definition before_teardown :: "('e, 'm, 'h, 'r, 'w) LifeEnv \<Rightarrow> ('e, 'm, 'h, 'r, 'w) Life \<Rightarrow> bool" where
  "before_teardown env l \<longleftrightarrow>
     (\<exists>names. lf_infra l = None \<and> infra_log (lf_log l) = map ClientCreated names @ map ClientClosed (rev names)
        \<or> map_option populated (lf_infra l) = Some names \<and> infra_log (lf_log l) = map ClientCreated names) \<and>
     (lf_attrs l = [] \<and> quiet l \<or>
      lf_attrs l = stashed_attrs env \<and> (set_debug_read_only (le_settings env) \<longrightarrow> lf_leader l = None))"

lemma before_teardown_frame:
  assumes "before_teardown env l" "same_clients l l'" "lf_attrs l' = lf_attrs l"
    and "lf_leader l' = lf_leader l \<and> lf_scheduler l' = lf_scheduler l \<or>
      lf_attrs l \<noteq> [] \<and> (lf_leader l = None \<longrightarrow> lf_leader l' = None)"
  shows "before_teardown env l'"
  using assms unfolding before_teardown_def same_clients_def
  by (auto simp: quiet_def stashed_attrs_def COMMON_ATTRS_def split: if_splits)

lemma startup_before_teardown:
  assumes "startup env (new_Life w) = (res, l)" "res \<noteq> Inl LifeCancelled \<or> lf_infra l \<noteq> None"
  shows "before_teardown env l"
  using startup_infra [OF assms(1)] startup_stoppable [OF assms(1)] assms(2)
  unfolding before_teardown_def by (auto simp: quiet_def)

lemma run_steps_error: "run_steps steps l = (Inl e, l') \<Longrightarrow> \<exists>step\<in>set steps. \<exists>x. fst (step x) = Inl e"
proof (induction steps arbitrary: l)
  case (Cons step steps)
  show ?case
  proof (cases "fst (step l)")
    case (Inl y)
    with Cons.prems have "fst (step l) = Inl e" by (auto split: prod.splits)
    then show ?thesis by auto
  next
    case (Inr u)
    with Cons.prems have "run_steps steps (snd (step l)) = (Inl e, l')" by (auto split: prod.splits)
    from Cons.IH [OF this] show ?thesis by simp
  qed
qed simp

lemma teardown_error: "teardown env l = (Inl e, l') \<Longrightarrow> e = LifeCancelled"
  unfolding teardown_def
  by (drule run_steps_error)
    (auto simp: stop_step_def clear_attrs_def close_infra_def dest!: close_partial_error split: if_splits option.splits prod.splits)

lemma teardown_complete:
  assumes "before_teardown env l" "teardown env l = (Inr (), l')"
  shows "(\<exists>names. infra_log (lf_log l') = map ClientCreated names @ map ClientClosed (rev names)) \<and>
     (\<forall>ctx. lf_infra l' = Some ctx \<longrightarrow> released ctx) \<and> lf_attrs l' = [] \<and> \<not> lf_startup_complete l' \<and>
     (\<forall>s. lf_scheduler l' = Some s \<longrightarrow> \<not> running s) \<and>
     (\<forall>le. lf_leader l' = Some le \<longrightarrow> stopped le \<or> \<not> election_running le)"
proof -
  note td = teardown_done [OF assms(2)]
  have "infra_log (teardown_log l) = (case lf_infra l of None \<Rightarrow> [] | Some ctx \<Rightarrow> map ClientClosed (rev (populated ctx)))"
    by (auto simp: teardown_log_def split: option.splits)
  then have "\<exists>names. infra_log (lf_log l') = map ClientCreated names @ map ClientClosed (rev names)"
    using assms(1) by (auto simp: td(1) before_teardown_def)
  moreover have attrs: "lf_attrs l = [] \<and> quiet l \<or> lf_attrs l = stashed_attrs env \<and>
      (set_debug_read_only (le_settings env) \<longrightarrow> lf_leader l = None)"
    using assms(1) unfolding before_teardown_def by blast
  moreover have "lf_attrs l' = []"
    using attrs stashed_membership(2) [of env] by (auto simp: td(2) filter_empty_conv)
  moreover have "running (fst (scheduler_shutdown f s)) = False" for f s
    by (simp add: scheduler_shutdown_def Let_def)
  moreover have "stopped (leader_stop le)" for le by (simp add: leader_stop_def)
  ultimately show ?thesis
    using td(3,4) stashed_membership(1,3) [of env] unfolding td(5,6) quiet_def by auto
qed

text \<open>
  C16. An instance leaves nothing behind: however its life ends (a phase of the start that raises, an
  exception while serving, or a regular shutdown), short of a cancellation, every client that was
  created has been closed exactly once, in the reverse order of creation, none holds a connection,
  the scheduler does not run, the election is stopped, and the application has no attributes left and
  does not report itself started.
\<close>
theorem lifespan_leaves_nothing:
  assumes "serve_ok serve" "lifespan env serve w = (res, l)" "res \<noteq> Inl LifeCancelled"
  shows "(\<exists>names. infra_log (lf_log l) = map ClientCreated names @ map ClientClosed (rev names)) \<and>
     (\<forall>ctx. lf_infra l = Some ctx \<longrightarrow> released ctx) \<and> lf_attrs l = [] \<and> \<not> lf_startup_complete l \<and>
     (\<forall>s. lf_scheduler l = Some s \<longrightarrow> \<not> running s) \<and>
     (\<forall>le. lf_leader l = Some le \<longrightarrow> stopped le \<or> \<not> election_running le)"
proof -
  obtain r1 l1 where start: "startup env (new_Life w) = (r1, l1)" by fastforce
  define run where "run = (case r1 of Inl e \<Rightarrow> (Inl e, l1) | Inr _ \<Rightarrow> serve (l1\<lparr>lf_startup_complete := True\<rparr>))"
  obtain r2 l2 where r2: "run = (r2, l2)" by fastforce
  define l3 where "l3 = (case r2 of Inl (LifeError e) \<Rightarrow> self_alert_critical env (''startup_failed: '' @ e) l2 | _ \<Rightarrow> l2)"
  obtain rt l4 where td: "teardown env l3 = (rt, l4)" by fastforce
  have "lifespan env serve w = (case rt of Inl e \<Rightarrow> (Inl e, l4) | Inr _ \<Rightarrow> (r2, l4))"
    using start r2 td unfolding lifespan_def run_def l3_def by (auto split: sum.splits)
  then have fin: "rt = Inr ()" "r2 = res" "l4 = l"
    using assms(2,3) td teardown_error by (auto split: sum.splits)
  have "before_teardown env l2"
  proof (cases r1)
    case (Inl e)
    then have "r1 \<noteq> Inl LifeCancelled" "l2 = l1" using r2 fin(2) assms(3) by (auto simp: run_def)
    with startup_before_teardown [OF start] show ?thesis by simp
  next
    case (Inr u)
    from startup_before_teardown [OF start] Inr have b: "before_teardown env l1" by simp
    from startup_stoppable [OF start] Inr have a: "lf_attrs l1 \<noteq> []" by (auto simp: stashed_attrs_def COMMON_ATTRS_def)
    have "serve (l1\<lparr>lf_startup_complete := True\<rparr>) = (r2, l2)" using r2 Inr by (simp add: run_def)
    with assms(1) have "same_clients l1 l2" "keeps_attrs l1 l2"
      unfolding serve_ok_def by (auto simp: same_clients_def keeps_attrs_def dest!: spec [of _ "l1\<lparr>lf_startup_complete := True\<rparr>"])
    with a show ?thesis by (intro before_teardown_frame [OF b]) (auto simp: keeps_attrs_def)
  qed
  then have "before_teardown env l3"
    unfolding l3_def by (auto split: sum.splits LifeExc.splits intro: before_teardown_frame simp: self_alert_frame)
  from teardown_complete [OF this] td fin show ?thesis by simp
qed

subsection \<open>An instance that serves\<close>

text \<open>The log grows and parts that exist stay.\<close>

definition progress :: "('e, 'm, 'h, 'r, 'w) Life \<Rightarrow> ('e, 'm, 'h, 'r, 'w) Life \<Rightarrow> bool" where
  "progress l l' \<longleftrightarrow> set (lf_log l) \<subseteq> set (lf_log l') \<and> (lf_scheduler l \<noteq> None \<longrightarrow> lf_scheduler l' \<noteq> None) \<and>
     (lf_cooldown l \<noteq> None \<longrightarrow> lf_cooldown l' \<noteq> None) \<and> (lf_partition l \<noteq> None \<longrightarrow> lf_partition l' \<noteq> None)"

interpretation progressing: life_frame progress
proof (unfold_locales, goal_cases)
  case (2 l l' l'')
  then show ?case unfolding progress_def by blast
qed (auto simp: progress_def life_log_def)

lemma step_progress [intro]:
  "progress l (snd (init_distributed env l))" "progress l (snd (init_scheduler env l))" "progress l (snd (stash env l))"
  "progress l (snd (phase_partition_start env l))" "progress l (snd (phase_leader_start env l))"
  "progress l (snd (phase_scheduler_start env l))"
  by (auto simp: phase_defs progress_def life_log_def split: option.splits prod.splits ZkError.splits if_splits)

lemma startup_phase_Inr:
  "startup_phase n body l = (Inr (), l') \<longleftrightarrow>
     (\<exists>l1. body (life_log [PhaseBegin n] l) = (Inr (), l1) \<and> l' = life_log [PhaseDone n] l1)"
  by (auto simp: startup_phase_def split: prod.splits sum.splits LifeExc.splits)

lemma init_repos_indexed:
  assumes "init_repos env l = (Inr (), l')" "\<not> set_debug_read_only (le_settings env)"
  shows "CreateIndex COLL_PROFILE \<in> set (lf_log l')"
  using assms
  by (auto simp: init_repos_def ensure_index_def life_log_def split: option.splits sum.splits prod.splits if_splits)

lemma run_steps_app_Inr:
  "run_steps (xs @ ys) l = (Inr (), l') \<longleftrightarrow> (\<exists>l1. run_steps xs l = (Inr (), l1) \<and> run_steps ys l1 = (Inr (), l'))"
  by (auto simp: run_steps_append split: prod.splits sum.splits)

lemma run_steps_progress:
  assumes "run_steps steps l = (r, l')" "\<And>step l. step \<in> set steps \<Longrightarrow> progress l (snd (step l))"
  shows "progress l l'"
  using progressing.framed_steps [of steps l] assms by auto

text \<open>What a successful start has made.\<close>

lemma startup_parts:
  assumes "startup env (new_Life w) = (Inr (), l)"
  shows "lf_scheduler l \<noteq> None \<and> lf_cooldown l \<noteq> None \<and>
    (\<not> set_debug_read_only (le_settings env) \<longrightarrow> lf_partition l \<noteq> None \<and> CreateIndex COLL_PROFILE \<in> set (lf_log l))"
proof -
  let ?debug = "set_debug_read_only (le_settings env)"
  let ?mid = "(if ?debug then [] else [startup_phase ''init_distributed'' (init_distributed env)])"
  from assms obtain l2 l3 l4 l5 where
    repos: "startup_phase ''init_repos'' (init_repos env) l2 = (Inr (), l3)" and
    mid: "run_steps ?mid l3 = (Inr (), l4)" and
    sched: "startup_phase ''init_scheduler'' (init_scheduler env) l4 = (Inr (), l5)" and
    late: "run_steps (stash env # late_steps env) l5 = (Inr (), l)"
    unfolding startup_halves early_steps_def append.append_Cons append.append_Nil append.assoc
    by (simp only: run_steps_Inr run_steps_app_Inr) blast
  have p: "progress l3 l4" "progress l4 l5" "progress l5 l"
    subgoal by (rule run_steps_progress [OF mid]) (auto intro!: progressing.framed_phase split: if_splits)
    subgoal using sched progressing.framed_phase [of "init_scheduler env" l4] by (metis snd_conv step_progress(2))
    subgoal by (rule run_steps_progress [OF late]) (auto simp: late_steps_def intro!: progressing.framed_phase split: if_splits)
    done
  have l5: "lf_scheduler l5 \<noteq> None" "?debug \<longrightarrow> lf_cooldown l5 \<noteq> None"
    using sched by (auto simp: startup_phase_Inr init_scheduler_def life_log_def)
  have live: "lf_cooldown l4 \<noteq> None \<and> lf_partition l4 \<noteq> None \<and> CreateIndex COLL_PROFILE \<in> set (lf_log l3)" if "\<not> ?debug"
    using mid repos that
    by (auto simp: startup_phase_Inr init_distributed_def life_log_def dest!: init_repos_indexed split: if_splits prod.splits sum.splits)
  show ?thesis using p l5 live unfolding progress_def by blast
qed


subsection \<open>Debug mode only observes\<close>

lemma observes_InfraStep: "observes_only (InfraStep x) \<longleftrightarrow> x \<noteq> ClientCreated ''zk''"
  by (cases x) auto

lemma debug_steps [intro]:
  "observing l (snd (init_scheduler env l))" "observing l (snd (stash env l))" "observing l (snd (phase_scheduler_start env l))"
  "set_debug_read_only (le_settings env) \<Longrightarrow> observing l (snd (init_repos env l))"
  by (auto simp: phase_defs init_repos_def observing_def split: option.splits sum.splits)


subsection \<open>A run\<close>

definition calm_zk :: kazoo where
  "calm_zk = \<lparr>zk_create = (\<lambda>_. None), zk_ensure_path = (\<lambda>_. None), zk_get = (\<lambda>_. Inr NoData),
     zk_get_children = (\<lambda>_. Inr []), zk_commit = (\<lambda>_. Inr []), zk_delete = (\<lambda>_. None)\<rparr>"

definition sample_infra :: "(nat, nat, nat, unit) InfraEnv" where
  "sample_infra =
     \<lparr>ie_debug_read_only = False, ie_es_settings = sample_es_settings, ie_mongo_db = ''EARS'', ie_redis_settings = sample_redis,
      ie_es = pr_es healthy_env, ie_mongo_open = (\<lambda>w. (Inr 0, w)), ie_mongo_shut = (\<lambda>_ w. (Inr (), w)),
      ie_redis = pr_redis healthy_env, ie_close_sentinel = (\<lambda>_ w. w), ie_email_head = (\<lambda>w. (Inr True, w)),
      ie_email_aclose = (\<lambda>w. (Inr True, w)), ie_zk_start = (\<lambda>w. (None, w)), ie_zk_ensure = (\<lambda>w. (None, w)),
      ie_zk_stop = (\<lambda>w. (None, w))\<rparr>"

definition sample_life :: "bool \<Rightarrow> (nat, nat, nat, string set, unit) LifeEnv" where
  "sample_life debug =
     \<lparr>le_settings = \<lparr>set_instance_id = ''pod-a'', set_debug_read_only = debug\<rparr>, le_hostname = ''host'', le_root_path = ''/rms'',
      le_email_app_name = ''ARS'', le_infra = sample_infra, le_redis_info = (\<lambda>_ w. (Inr (JObj [(''redis_version'', JStr ''5.0.6'')]), w)),
      le_zk_stat = (\<lambda>w. (Inl ConnectionClosedError, w)), le_list_collections = (\<lambda>_ _ w. (Inr [], w)),
      le_create_collection = (\<lambda>_ w. (Inr (), w)), le_create_index = (\<lambda>_ w. (Inr (), w)), le_zk = calm_zk, le_epoch_path = None,
      le_scheduler = sample_config, le_intervals = (\<lambda>_. Inr []), le_distinct = Inr [], le_redis_server = {}, le_show_json = (\<lambda>_. []),
      le_post = (\<lambda>_. PostReply (JObj [])), le_now = 0, le_finished_jobs = None, le_stop_outcome = (\<lambda>_. None)\<rparr>"

lemma sample_starts:
  "fst (startup (sample_life False) (new_Life ())) = Inr ()" "fst (startup (sample_life True) (new_Life ())) = Inr ()"
  by code_simp+



lemma sample_lifespan: "fst (lifespan (sample_life False) (\<lambda>l. (Inr (), l)) ()) = Inr ()"
  by code_simp

theorem lifespan_leaves_nothing_witness:
  "\<not> lf_startup_complete (snd (lifespan (sample_life False) (\<lambda>l. (Inr (), l)) ())) \<and>
   lf_attrs (snd (lifespan (sample_life False) (\<lambda>l. (Inr (), l)) ())) = []"
proof -
  let ?serve = "\<lambda>l :: (nat, nat, nat, string set, unit) Life. (Inr () :: LifeExc + unit, l)"
  have "serve_ok ?serve" by (simp add: serve_ok_def clients.reflexive attributes.reflexive)
  from lifespan_leaves_nothing [OF this, of "sample_life False" "()"] sample_lifespan show ?thesis
    by (simp add: prod_eq_iff)
qed

end
