(* ===== verification/Settings.thy ===== *)
theory Settings
  imports Lifecycle
begin

text \<open>
  \<open>src/src/config/settings.py\<close>: all settings with their defaults, how the environment overrides them, the cached
  reader \<open>get_settings\<close>, and the parts of them the components read. A secret is the text it wraps.
  How pydantic converts the text of a number or a truth value is an argument (\<open>None\<close> where it
  refuses it), as is the reader of JSON arrays.
\<close>

subsection \<open>The fields\<close>

record MonitorSettings =
  cfg_es_hosts :: "string list"
  cfg_es_username :: string
  cfg_es_password :: string
  cfg_es_use_ssl :: bool
  cfg_es_request_timeout :: int
  cfg_es_max_retries :: int
  cfg_es_keyword_suffix :: string
  cfg_mongo_uri :: string
  cfg_mongo_db :: string
  cfg_zk_hosts :: string
  cfg_zk_root_path :: string
  cfg_zk_session_timeout :: int
  cfg_zk_sasl_mechanism :: string
  cfg_zk_sasl_username :: string
  cfg_zk_sasl_password :: string
  cfg_zk_startup_budget_sec :: int
  cfg_redis_url :: string
  cfg_redis_password :: string
  cfg_redis_key_prefix :: string
  cfg_redis_sentinels :: "string list"
  cfg_redis_sentinel_master :: string
  cfg_redis_sentinel_password :: string
  cfg_redis_db :: int
  cfg_email_api_url :: string
  cfg_email_api_timeout :: int
  cfg_email_app_name :: string
  cfg_grafana_base_url :: string
  cfg_grafana_dashboard_uid :: string
  cfg_rms_custom_body_enabled :: bool
  cfg_rms_erb_row_limit :: int
  cfg_rms_body_byte_cap :: int
  cfg_scheduler_misfire_grace_time :: int
  cfg_scheduler_reconcile_interval_sec :: rat
  cfg_instance_id :: string
  cfg_local_tz :: string
  cfg_log_level :: string
  cfg_log_format :: string
  cfg_debug_read_only :: bool
  cfg_debug_processes :: "string list"

definition default_settings :: MonitorSettings where
  "default_settings =
     \<lparr>cfg_es_hosts = [''http://es-cluster:9200''],
      cfg_es_username = [],
      cfg_es_password = [],
      cfg_es_use_ssl = False,
      cfg_es_request_timeout = 30,
      cfg_es_max_retries = 3,
      cfg_es_keyword_suffix = ''.keyword'',
      cfg_mongo_uri = ''mongodb://localhost:27017'',
      cfg_mongo_db = ''EARS'',
      cfg_zk_hosts = ''zk1:2181,zk2:2181,zk3:2181'',
      cfg_zk_root_path = ''/resource-monitor'',
      cfg_zk_session_timeout = 30,
      cfg_zk_sasl_mechanism = [],
      cfg_zk_sasl_username = [],
      cfg_zk_sasl_password = [],
      cfg_zk_startup_budget_sec = 45,
      cfg_redis_url = ''redis://redis:6379/5'',
      cfg_redis_password = [],
      cfg_redis_key_prefix = ''RESOURCE_ALERT'',
      cfg_redis_sentinels = [],
      cfg_redis_sentinel_master = ''mymaster'',
      cfg_redis_sentinel_password = [],
      cfg_redis_db = 0,
      cfg_email_api_url = ''http://httpwebserver:8080/EmailNotify'',
      cfg_email_api_timeout = 10,
      cfg_email_app_name = ''ARS'',
      cfg_grafana_base_url = ''http://grafana:3000'',
      cfg_grafana_dashboard_uid = [],
      cfg_rms_custom_body_enabled = True,
      cfg_rms_erb_row_limit = 50,
      cfg_rms_body_byte_cap = 256000,
      cfg_scheduler_misfire_grace_time = 60,
      cfg_scheduler_reconcile_interval_sec = 60,
      cfg_instance_id = [],
      cfg_local_tz = ''Asia/Seoul'',
      cfg_log_level = ''INFO'',
      cfg_log_format = ''json'',
      cfg_debug_read_only = False,
      cfg_debug_processes = []\<rparr>"

subsection \<open>Reading the environment\<close>

text \<open>
  A field is set by the variable \<open>MONITOR_\<close> followed by its name in upper case, in the environment of
  the process or, where it is not set there, in the file \<open>.env\<close>. The list fields go through
  \<open>parse_string_list\<close>. All fields that are refused are reported at once.
\<close>

datatype FieldKind = KStr | KInt | KBool | KFloat | KList

record SettingCoercion =
  sc_int :: "string \<Rightarrow> int option"
  sc_bool :: "string \<Rightarrow> bool option"
  sc_float :: "string \<Rightarrow> rat option"
  sc_json_loads :: "string \<Rightarrow> string list option"

definition ENV_PREFIX :: string where "ENV_PREFIX = ''MONITOR_''"

definition setting_text :: "(string \<rightharpoonup> string) \<Rightarrow> (string \<rightharpoonup> string) \<Rightarrow> string \<Rightarrow> string option" where
  "setting_text environ env_file field =
     (let name = ENV_PREFIX @ py_upper field
      in case environ name of Some v \<Rightarrow> Some v | None \<Rightarrow> env_file name)"

definition read_field :: "(string \<Rightarrow> 'a option) \<Rightarrow> (string \<Rightarrow> string option) \<Rightarrow> string \<Rightarrow> 'a \<Rightarrow> 'a" where
  "read_field convert txt field dflt =
     (case txt field of None \<Rightarrow> dflt | Some t \<Rightarrow> (case convert t of None \<Rightarrow> dflt | Some v \<Rightarrow> v))"

definition convert_list :: "SettingCoercion \<Rightarrow> string \<Rightarrow> string list option" where
  "convert_list co t = (case parse_string_list (sc_json_loads co) (Text t) of Inl _ \<Rightarrow> None | Inr xs \<Rightarrow> Some xs)"

definition converts :: "SettingCoercion \<Rightarrow> FieldKind \<Rightarrow> string option \<Rightarrow> bool" where
  "converts co kind t =
     (case t of
        None \<Rightarrow> True
      | Some s \<Rightarrow>
          (case kind of
             KStr \<Rightarrow> True
           | KInt \<Rightarrow> sc_int co s \<noteq> None
           | KBool \<Rightarrow> sc_bool co s \<noteq> None
           | KFloat \<Rightarrow> sc_float co s \<noteq> None
           | KList \<Rightarrow> convert_list co s \<noteq> None))"

definition SETTING_KINDS :: "(string \<times> FieldKind) list" where
  "SETTING_KINDS =
     [(''es_hosts'', KList),
      (''es_username'', KStr),
      (''es_password'', KStr),
      (''es_use_ssl'', KBool),
      (''es_request_timeout'', KInt),
      (''es_max_retries'', KInt),
      (''es_keyword_suffix'', KStr),
      (''mongo_uri'', KStr),
      (''mongo_db'', KStr),
      (''zk_hosts'', KStr),
      (''zk_root_path'', KStr),
      (''zk_session_timeout'', KInt),
      (''zk_sasl_mechanism'', KStr),
      (''zk_sasl_username'', KStr),
      (''zk_sasl_password'', KStr),
      (''zk_startup_budget_sec'', KInt),
      (''redis_url'', KStr),
      (''redis_password'', KStr),
      (''redis_key_prefix'', KStr),
      (''redis_sentinels'', KList),
      (''redis_sentinel_master'', KStr),
      (''redis_sentinel_password'', KStr),
      (''redis_db'', KInt),
      (''email_api_url'', KStr),
      (''email_api_timeout'', KInt),
      (''email_app_name'', KStr),
      (''grafana_base_url'', KStr),
      (''grafana_dashboard_uid'', KStr),
      (''rms_custom_body_enabled'', KBool),
      (''rms_erb_row_limit'', KInt),
      (''rms_body_byte_cap'', KInt),
      (''scheduler_misfire_grace_time'', KInt),
      (''scheduler_reconcile_interval_sec'', KFloat),
      (''instance_id'', KStr),
      (''local_tz'', KStr),
      (''log_level'', KStr),
      (''log_format'', KStr),
      (''debug_read_only'', KBool),
      (''debug_processes'', KList)]"

definition read_settings :: "SettingCoercion \<Rightarrow> (string \<Rightarrow> string option) \<Rightarrow> MonitorSettings" where
  "read_settings co txt =
     \<lparr>cfg_es_hosts = read_field (convert_list co) txt ''es_hosts'' (cfg_es_hosts default_settings),
      cfg_es_username = read_field Some txt ''es_username'' (cfg_es_username default_settings),
      cfg_es_password = read_field Some txt ''es_password'' (cfg_es_password default_settings),
      cfg_es_use_ssl = read_field (sc_bool co) txt ''es_use_ssl'' (cfg_es_use_ssl default_settings),
      cfg_es_request_timeout = read_field (sc_int co) txt ''es_request_timeout'' (cfg_es_request_timeout default_settings),
      cfg_es_max_retries = read_field (sc_int co) txt ''es_max_retries'' (cfg_es_max_retries default_settings),
      cfg_es_keyword_suffix = read_field Some txt ''es_keyword_suffix'' (cfg_es_keyword_suffix default_settings),
      cfg_mongo_uri = read_field Some txt ''mongo_uri'' (cfg_mongo_uri default_settings),
      cfg_mongo_db = read_field Some txt ''mongo_db'' (cfg_mongo_db default_settings),
      cfg_zk_hosts = read_field Some txt ''zk_hosts'' (cfg_zk_hosts default_settings),
      cfg_zk_root_path = read_field Some txt ''zk_root_path'' (cfg_zk_root_path default_settings),
      cfg_zk_session_timeout = read_field (sc_int co) txt ''zk_session_timeout'' (cfg_zk_session_timeout default_settings),
      cfg_zk_sasl_mechanism = read_field Some txt ''zk_sasl_mechanism'' (cfg_zk_sasl_mechanism default_settings),
      cfg_zk_sasl_username = read_field Some txt ''zk_sasl_username'' (cfg_zk_sasl_username default_settings),
      cfg_zk_sasl_password = read_field Some txt ''zk_sasl_password'' (cfg_zk_sasl_password default_settings),
      cfg_zk_startup_budget_sec = read_field (sc_int co) txt ''zk_startup_budget_sec'' (cfg_zk_startup_budget_sec default_settings),
      cfg_redis_url = read_field Some txt ''redis_url'' (cfg_redis_url default_settings),
      cfg_redis_password = read_field Some txt ''redis_password'' (cfg_redis_password default_settings),
      cfg_redis_key_prefix = read_field Some txt ''redis_key_prefix'' (cfg_redis_key_prefix default_settings),
      cfg_redis_sentinels = read_field (convert_list co) txt ''redis_sentinels'' (cfg_redis_sentinels default_settings),
      cfg_redis_sentinel_master = read_field Some txt ''redis_sentinel_master'' (cfg_redis_sentinel_master default_settings),
      cfg_redis_sentinel_password = read_field Some txt ''redis_sentinel_password'' (cfg_redis_sentinel_password default_settings),
      cfg_redis_db = read_field (sc_int co) txt ''redis_db'' (cfg_redis_db default_settings),
      cfg_email_api_url = read_field Some txt ''email_api_url'' (cfg_email_api_url default_settings),
      cfg_email_api_timeout = read_field (sc_int co) txt ''email_api_timeout'' (cfg_email_api_timeout default_settings),
      cfg_email_app_name = read_field Some txt ''email_app_name'' (cfg_email_app_name default_settings),
      cfg_grafana_base_url = read_field Some txt ''grafana_base_url'' (cfg_grafana_base_url default_settings),
      cfg_grafana_dashboard_uid = read_field Some txt ''grafana_dashboard_uid'' (cfg_grafana_dashboard_uid default_settings),
      cfg_rms_custom_body_enabled = read_field (sc_bool co) txt ''rms_custom_body_enabled'' (cfg_rms_custom_body_enabled default_settings),
      cfg_rms_erb_row_limit = read_field (sc_int co) txt ''rms_erb_row_limit'' (cfg_rms_erb_row_limit default_settings),
      cfg_rms_body_byte_cap = read_field (sc_int co) txt ''rms_body_byte_cap'' (cfg_rms_body_byte_cap default_settings),
      cfg_scheduler_misfire_grace_time = read_field (sc_int co) txt ''scheduler_misfire_grace_time'' (cfg_scheduler_misfire_grace_time default_settings),
      cfg_scheduler_reconcile_interval_sec = read_field (sc_float co) txt ''scheduler_reconcile_interval_sec'' (cfg_scheduler_reconcile_interval_sec default_settings),
      cfg_instance_id = read_field Some txt ''instance_id'' (cfg_instance_id default_settings),
      cfg_local_tz = read_field Some txt ''local_tz'' (cfg_local_tz default_settings),
      cfg_log_level = read_field Some txt ''log_level'' (cfg_log_level default_settings),
      cfg_log_format = read_field Some txt ''log_format'' (cfg_log_format default_settings),
      cfg_debug_read_only = read_field (sc_bool co) txt ''debug_read_only'' (cfg_debug_read_only default_settings),
      cfg_debug_processes = read_field (convert_list co) txt ''debug_processes'' (cfg_debug_processes default_settings)\<rparr>"

text \<open>\<open>AppSettings()\<close>: the settings, or the fields the \<open>ValidationError\<close> names.\<close>

definition load_settings :: "SettingCoercion \<Rightarrow> (string \<rightharpoonup> string) \<Rightarrow> (string \<rightharpoonup> string) \<Rightarrow> string list + MonitorSettings" where
  "load_settings co environ env_file =
     (let txt = setting_text environ env_file;
          bad_fields = map fst (filter (\<lambda>(field, kind). \<not> converts co kind (txt field)) SETTING_KINDS)
      in if bad_fields \<noteq> [] then Inl bad_fields else Inr (read_settings co txt))"

text \<open>\<open>get_settings\<close> under \<open>lru_cache\<close>: the first settings that load are kept; a failure is not cached.\<close>

definition get_settings ::
  "SettingCoercion \<Rightarrow> (string \<rightharpoonup> string) \<Rightarrow> (string \<rightharpoonup> string) \<Rightarrow> MonitorSettings option \<Rightarrow>
     (string list + MonitorSettings) \<times> MonitorSettings option" where
  "get_settings co environ env_file cache =
     (case cache of
        Some s \<Rightarrow> (Inr s, cache)
      | None \<Rightarrow>
          (case load_settings co environ env_file of
             Inl bad_fields \<Rightarrow> (Inl bad_fields, None)
           | Inr s \<Rightarrow> (Inr s, Some s)))"

subsection \<open>What the components read\<close>

definition app_settings :: "MonitorSettings \<Rightarrow> AppSettings" where
  "app_settings s = \<lparr>set_instance_id = cfg_instance_id s, set_debug_read_only = cfg_debug_read_only s\<rparr>"

definition es_settings :: "MonitorSettings \<Rightarrow> EsSettings" where
  "es_settings s =
     \<lparr>es_hosts = cfg_es_hosts s, es_username = cfg_es_username s, es_password = cfg_es_password s,
      es_use_ssl = cfg_es_use_ssl s, es_request_timeout = cfg_es_request_timeout s,
      es_max_retries = cfg_es_max_retries s, es_kw_suffix = cfg_es_keyword_suffix s\<rparr>"

definition redis_settings :: "MonitorSettings \<Rightarrow> RedisSettings" where
  "redis_settings s =
     \<lparr>redis_url = cfg_redis_url s, redis_password = cfg_redis_password s, redis_sentinels = cfg_redis_sentinels s,
      redis_sentinel_master = cfg_redis_sentinel_master s,
      redis_sentinel_password = cfg_redis_sentinel_password s, redis_db = cfg_redis_db s\<rparr>"

definition alert_settings :: "MonitorSettings \<Rightarrow> AlertSettings" where
  "alert_settings s =
     \<lparr>grafana_base_url = cfg_grafana_base_url s, grafana_dashboard_uid = cfg_grafana_dashboard_uid s,
      rms_custom_body_enabled = cfg_rms_custom_body_enabled s, email_app_name = cfg_email_app_name s,
      rms_erb_row_limit = cfg_rms_erb_row_limit s, rms_body_byte_cap = cfg_rms_body_byte_cap s\<rparr>"

definition cooldown_config :: "MonitorSettings \<Rightarrow> CooldownConfig" where
  "cooldown_config s = \<lparr>cd_debug_read_only = cfg_debug_read_only s, cd_key_prefix = cfg_redis_key_prefix s\<rparr>"

definition scheduler_config :: "MonitorSettings \<Rightarrow> SchedulerConfig" where
  "scheduler_config s =
     \<lparr>sc_debug_read_only = cfg_debug_read_only s, sc_debug_processes = cfg_debug_processes s,
      sc_reconcile_interval_sec = cfg_scheduler_reconcile_interval_sec s\<rparr>"

subsection \<open>Lemmas\<close>

lemma read_field_unset [simp]: "txt field = None \<Longrightarrow> read_field convert txt field dflt = dflt"
  by (simp add: read_field_def)

lemma read_settings_unset: "read_settings co (\<lambda>_. None) = default_settings"
  unfolding read_settings_def by (rule MonitorSettings.equality) simp_all

lemma load_settings_unset: "load_settings co Map.empty Map.empty = Inr default_settings"
proof -
  have "setting_text Map.empty Map.empty = (\<lambda>_. None)" by (simp add: setting_text_def fun_eq_iff)
  then show ?thesis by (simp add: load_settings_def Let_def converts_def read_settings_unset)
qed

lemma load_settings_refuses:
  assumes "load_settings co environ env_file = Inl bad_fields"
  shows "bad_fields \<noteq> [] \<and>
    (\<forall>field\<in>set bad_fields. \<exists>kind. (field, kind) \<in> set SETTING_KINDS \<and> \<not> converts co kind (setting_text environ env_file field))"
proof -
  let ?bad = "filter (\<lambda>(field, kind). \<not> converts co kind (setting_text environ env_file field)) SETTING_KINDS"
  have "?bad \<noteq> []" "bad_fields = map fst ?bad"
    using assms by (simp_all add: load_settings_def Let_def split: if_splits)
  then show ?thesis by fastforce
qed

text \<open>The environment wins over the file.\<close>

lemma environment_first:
  assumes "environ (ENV_PREFIX @ py_upper field) = Some v"
  shows "setting_text environ env_file field = setting_text environ env_file' field"
  using assms by (simp add: setting_text_def)

text \<open>Once loaded, the settings of a process stay the same whatever happens to its environment.\<close>

lemma settings_frozen:
  assumes "get_settings co environ env_file cache = (Inr s, cache')"
  shows "get_settings co' environ' env_file' cache' = (Inr s, cache')"
  using assms by (auto simp: get_settings_def split: option.splits sum.splits)

lemma refused_settings_retried:
  assumes "get_settings co environ env_file cache = (Inl bad_fields, cache')"
  shows "cache' = None"
  using assms by (auto simp: get_settings_def split: option.splits sum.splits)

text \<open>Under the default settings the scheduler starts its reconcile task; in debug mode it does not.\<close>

lemma reconcile_task_started:
  "reconcile_task (scheduler_start (scheduler_config default_settings) s)"
  "\<not> reconcile_task s \<Longrightarrow> \<not> reconcile_task (scheduler_start (scheduler_config (default_settings\<lparr>cfg_debug_read_only := True\<rparr>)) s)"
  by (simp_all add: scheduler_start_def scheduler_config_def default_settings_def)

text \<open>
  A list variable reads the same in both spellings: comma-separated, or as the JSON array the JSON reader
  takes for that list.
\<close>

lemma list_variable_spellings:
  assumes "list_all plain_host hs" "sc_json_loads co (''['' @ body) = Some hs" "py_strip (''['' @ body) = ''['' @ body"
  shows "convert_list co (''['' @ body) = convert_list co (str_join '','' hs)"
proof -
  have "parse_string_list (sc_json_loads co) (Text (''['' @ body)) = Inr hs"
    using assms(2) assms(3) by (simp add: parse_string_list_def Let_def starts_with_def)
  with string_list_roundtrip [OF assms(1)] show ?thesis by (simp add: convert_list_def)
qed

text \<open>Under the default settings every mail carries a rendered body, of at most 256000 bytes.\<close>

lemma default_mail_bounded:
  assumes "displayable (t_current_value breach)" "\<forall>m\<in>set ms. displayable (t_current_value m)"
  shows "\<exists>r body. build_alert_request breach eqp_info proc_name (alert_settings default_settings) notify window affected (Some ms)
      lookup timestamp template category_id headline = Inr r \<and> rendered_body r = Some body \<and> length body \<le> 256000"
proof -
  have "int (length TRUNCATE_MARKER) \<le> 256000" by (simp add: TRUNCATE_MARKER_def)
  then show ?thesis
    using build_request_ok [OF assms, of eqp_info proc_name "alert_settings default_settings" notify window affected lookup timestamp template category_id headline]
    by (auto simp: alert_settings_def default_settings_def)
qed

end
