(* ===== verification/Zk_Startup.thy ===== *)
theory Zk_Startup
  imports Settings
begin

text \<open>
  \<open>ZKClient.connect\<close> (\<open>src/src/distributed/zk_client.py\<close>) in full: the arguments of the kazoo client with the optional
  SASL credentials, the start in a thread of its own under a budget of wall-clock time, and what is
  logged. \<open>zk_connect\<close> of \<open>Zk_Client\<close>, which the lifespan uses, is its abstraction.
\<close>

subsection \<open>Arguments of the client\<close>

record KazooRetry =
  kr_max_tries :: int
  kr_delay :: rat
  kr_backoff :: "int option"
  kr_max_delay :: "int option"

record KazooArgs =
  ka_hosts :: string
  ka_timeout :: int
  ka_connection_retry :: KazooRetry
  ka_command_retry :: KazooRetry
  ka_sasl_options :: "(string, string) dict option"

definition kazoo_args :: "MonitorSettings \<Rightarrow> KazooArgs" where
  "kazoo_args st =
     \<lparr>ka_hosts = cfg_zk_hosts st, ka_timeout = cfg_zk_session_timeout st,
      ka_connection_retry = \<lparr>kr_max_tries = - 1, kr_delay = 1, kr_backoff = Some 2, kr_max_delay = Some 5\<rparr>,
      ka_command_retry = \<lparr>kr_max_tries = 3, kr_delay = 1 / 2, kr_backoff = None, kr_max_delay = None\<rparr>,
      ka_sasl_options =
        (if cfg_zk_sasl_mechanism st = [] then None
         else Some [(''mechanism'', cfg_zk_sasl_mechanism st), (''username'', cfg_zk_sasl_username st),
                    (''password'', cfg_zk_sasl_password st)])\<rparr>"

subsection \<open>The start under its budget\<close>

text \<open>How \<open>kazoo.start\<close> behaves in its thread: it ends after a time, or never.\<close>

datatype StartCall = EndsAfter real "ZkError option" | Hangs

datatype ZkStartLog = StartupTimeout real int string | ConnectFailed string ZkError | Connected real string

text \<open>
  \<open>wait_for\<close> on the thread, with the time at which the task is cancelled, if it is: the outcome and the
  time that has passed. A budget that is not positive has run out at once.
\<close>

definition wait_for_start :: "int \<Rightarrow> StartCall \<Rightarrow> real option \<Rightarrow> ZkError option \<times> real" where
  "wait_for_start budget call cancel_at =
     (let limit = max 0 (of_int budget);
          ended = (case call of
                     EndsAfter d res \<Rightarrow> if d \<le> limit then (res, d) else (Some TimeoutError, limit)
                   | Hangs \<Rightarrow> (Some TimeoutError, limit))
      in case cancel_at of
           None \<Rightarrow> ended
         | Some c \<Rightarrow> if c < snd ended then (Some Cancelled, c) else ended)"

definition start_log :: "MonitorSettings \<Rightarrow> ZkError option \<times> real \<Rightarrow> ZkStartLog list" where
  "start_log st out =
     (case out of
        (None, _) \<Rightarrow> []
      | (Some Cancelled, _) \<Rightarrow> []
      | (Some TimeoutError, elapsed) \<Rightarrow> [StartupTimeout elapsed (cfg_zk_startup_budget_sec st) (cfg_zk_hosts st)]
      | (Some e, _) \<Rightarrow> [ConnectFailed (cfg_zk_hosts st) e])"

text \<open>
  The whole \<open>connect\<close>: the client keeps its kazoo handle also when it fails (the caller closes it), and the
  path is only ensured after a successful start. \<open>ensure\<close> gives the outcome of that call and its time.
\<close>

definition zk_connect_full ::
  "MonitorSettings \<Rightarrow> StartCall \<Rightarrow> real option \<Rightarrow> ZkError option \<times> real \<Rightarrow> ZKClient \<Rightarrow>
     (ZKClient \<times> ZkError option) \<times> real \<times> ZkStartLog list" where
  "zk_connect_full st call cancel_at ensure c =
     (let c1 = c\<lparr>loop_present := True, kazoo_present := True\<rparr>;
          start = wait_for_start (cfg_zk_startup_budget_sec st) call cancel_at
      in case fst start of
           Some e \<Rightarrow> ((c1, Some e), snd start, start_log st start)
         | None \<Rightarrow>
             (let elapsed = snd start + snd ensure
              in case fst ensure of
                   Some e \<Rightarrow> ((c1, Some e), elapsed, [])
                 | None \<Rightarrow> ((c1, None), elapsed, [Connected elapsed (cfg_zk_hosts st)])))"

text \<open>\<open>_log_state_handler_exception\<close>: a failed handler is logged, a cancelled one is not.\<close>

definition log_state_handler_exception :: "bool \<Rightarrow> string option \<Rightarrow> string list" where
  "log_state_handler_exception was_cancelled exc =
     (if was_cancelled then [] else case exc of None \<Rightarrow> [] | Some e \<Rightarrow> [''zk_state_handler_failed '' @ e])"

subsection \<open>Lemmas\<close>

text \<open>The full connect refines the one the lifespan is built on.\<close>

lemma zk_connect_refines:
  "fst (zk_connect_full st call cancel_at ensure c) =
     zk_connect (fst (wait_for_start (cfg_zk_startup_budget_sec st) call cancel_at)) (fst ensure) c"
  by (auto simp: zk_connect_full_def zk_connect_def Let_def split: option.splits)

text \<open>What is relied on of the thread: time does not run backwards, and kazoo raises its own class of timeout.\<close>

definition call_ok :: "StartCall \<Rightarrow> bool" where
  "call_ok call = (case call of EndsAfter d res \<Rightarrow> 0 \<le> d \<and> res \<noteq> Some TimeoutError | Hangs \<Rightarrow> True)"

lemma start_bounded: "call_ok call \<Longrightarrow> snd (wait_for_start budget call cancel_at) \<le> max 0 (of_int budget)"
  by (cases call; cases cancel_at) (auto simp: wait_for_start_def call_ok_def Let_def)

text \<open>
  No outage of ZooKeeper hangs the startup: whatever the thread does, the wait for it is over within the
  budget. It is logged and raised as a timeout exactly when the client needed longer or hung, and then
  right at the end of the budget, with the handle in place for the rollback to close.
\<close>
theorem zk_start_within_budget:
  assumes "call_ok call" "zk_connect_full st call None ensure c = ((c', outcome), elapsed, lg)"
    and "limit = max 0 (of_int (cfg_zk_startup_budget_sec st))"
  shows "snd (wait_for_start (cfg_zk_startup_budget_sec st) call None) \<le> limit \<and> kazoo_present c' \<and>
    (if \<forall>d res. call = EndsAfter d res \<longrightarrow> limit < d
     then outcome = Some TimeoutError \<and> elapsed = limit \<and> lg = [StartupTimeout limit (cfg_zk_startup_budget_sec st) (cfg_zk_hosts st)]
     else \<forall>s b h. StartupTimeout s b h \<notin> set lg)"
  using assms start_bounded [OF assms(1), of "cfg_zk_startup_budget_sec st" None]
  by (cases call) (auto simp: zk_connect_full_def wait_for_start_def start_log_def call_ok_def Let_def
      split: option.splits ZkError.splits if_splits)

text \<open>Credentials are sent exactly when a mechanism is configured.\<close>

lemma sasl_only_with_mechanism:
  "ka_sasl_options (kazoo_args st) \<noteq> None \<longleftrightarrow> cfg_zk_sasl_mechanism st \<noteq> []"
  "ka_sasl_options (kazoo_args default_settings) = None"
  by (simp_all add: kazoo_args_def default_settings_def)

text \<open>
  The default settings keep what the comments ask for: a session timeout the server accepts, and a
  budget below the sixty seconds after which Kubernetes begins to probe.
\<close>

lemma default_zk_timing:
  assumes "call_ok call"
  shows "4 \<le> cfg_zk_session_timeout default_settings \<and> cfg_zk_session_timeout default_settings \<le> 40 \<and>
    snd (wait_for_start (cfg_zk_startup_budget_sec default_settings) call cancel_at) < 60"
  using start_bounded [OF assms, of "cfg_zk_startup_budget_sec default_settings" cancel_at] by (simp add: default_settings_def)

theorem zk_start_within_budget_witness:
  "fst (zk_connect_full default_settings Hangs None (None, 0) new_ZKClient) =
     (new_ZKClient\<lparr>loop_present := True, kazoo_present := True\<rparr>, Some TimeoutError) \<and>
   fst (snd (zk_connect_full default_settings Hangs None (None, 0) new_ZKClient)) = 45"
proof -
  obtain c' outcome elapsed lg where
    run: "zk_connect_full default_settings Hangs None (None, 0) new_ZKClient = ((c', outcome), elapsed, lg)"
    by (cases "zk_connect_full default_settings Hangs None (None, 0) new_ZKClient") auto
  have "call_ok Hangs" by (simp add: call_ok_def)
  from zk_start_within_budget [OF this run refl] have "outcome = Some TimeoutError" "elapsed = 45" by (simp_all add: default_settings_def)
  moreover have "c' = new_ZKClient\<lparr>loop_present := True, kazoo_present := True\<rparr>"
    using run by (auto simp: zk_connect_full_def Let_def split: option.splits)
  ultimately show ?thesis by (simp add: run)
qed

end
