(* ===== verification/Logging_Config.thy ===== *)
theory Logging_Config
  imports Settings
begin

text \<open>
  \<open>src/src/logging_config.py\<close>: the two phases of the logging set-up, on what they use of the \<open>logging\<close> package: the tree
  of loggers with their handlers, levels and propagation, and the walk of a record towards the root. A
  logger is named by the parts of its dotted name, the root by no part. The configuration of structlog
  is the record of the calls made; its processors are named, not interpreted.
\<close>

subsection \<open>The tree of loggers\<close>

datatype Renderer = JSONRenderer | ConsoleRenderer

datatype Output = Stdout | Stderr | Elsewhere string

datatype Handler = MinimalHandler | PipelineHandler Renderer | ForeignHandler string

fun handler_output :: "Handler \<Rightarrow> Output" where
  "handler_output MinimalHandler = Stderr"
| "handler_output (PipelineHandler r) = Stdout"
| "handler_output (ForeignHandler s) = Elsewhere s"

record Logger =
  lg_handlers :: "Handler list"
  lg_propagate :: bool
  lg_level :: nat

type_synonym logger_name = "string list"
type_synonym logger_tree = "logger_name \<Rightarrow> Logger"

text \<open>\<open>getLogger\<close>: a logger nobody has configured has no handler, no level, and propagates.\<close>

definition fresh_logger :: Logger where
  "fresh_logger = \<lparr>lg_handlers = [], lg_propagate = True, lg_level = 0\<rparr>"

definition logger_name :: "string \<Rightarrow> logger_name" where
  "logger_name s = (if s = [] then [] else split_on (CHR ''.'') s)"

definition remove_handler :: "Handler \<Rightarrow> Logger \<Rightarrow> Logger" where
  "remove_handler h lg = lg\<lparr>lg_handlers := remove1 h (lg_handlers lg)\<rparr>"

definition add_handler :: "Handler \<Rightarrow> Logger \<Rightarrow> Logger" where
  "add_handler h lg = lg\<lparr>lg_handlers := (if h \<in> set (lg_handlers lg) then lg_handlers lg else lg_handlers lg @ [h])\<rparr>"

text \<open>The loop over a copy of the list.\<close>

definition clear_handlers :: "Logger \<Rightarrow> Logger" where
  "clear_handlers lg = fold remove_handler (lg_handlers lg) lg"

definition LEVEL_NAMES :: "(string, nat) dict" where
  "LEVEL_NAMES =
     [(''CRITICAL'', 50), (''FATAL'', 50), (''ERROR'', 40), (''WARN'', 30), (''WARNING'', 30), (''INFO'', 20), (''DEBUG'', 10),
      (''NOTSET'', 0)]"

text \<open>\<open>callHandlers\<close> and \<open>getEffectiveLevel\<close>: from the logger towards the root.\<close>

fun call_handlers :: "logger_tree \<Rightarrow> logger_name \<Rightarrow> Handler list" where
  "call_handlers tree [] = lg_handlers (tree [])"
| "call_handlers tree (p # ps) =
     lg_handlers (tree (p # ps)) @ (if lg_propagate (tree (p # ps)) then call_handlers tree (butlast (p # ps)) else [])"

fun effective_level :: "logger_tree \<Rightarrow> logger_name \<Rightarrow> nat" where
  "effective_level tree [] = lg_level (tree [])"
| "effective_level tree (p # ps) =
     (if lg_level (tree (p # ps)) \<noteq> 0 then lg_level (tree (p # ps)) else effective_level tree (butlast (p # ps)))"

text \<open>Where a record of a level goes.\<close>

definition log_record :: "logger_tree \<Rightarrow> logger_name \<Rightarrow> nat \<Rightarrow> Output list" where
  "log_record tree name level =
     (if effective_level tree name \<le> level then map handler_output (call_handlers tree name) else [])"

subsection \<open>The two phases\<close>

definition UVICORN_LOGGERS :: "string list" where
  "UVICORN_LOGGERS = [''uvicorn'', ''uvicorn.access'', ''uvicorn.error'']"

definition THIRD_PARTY_LOGGERS :: "string list" where
  "THIRD_PARTY_LOGGERS = [''kazoo'', ''apscheduler'', ''httpx'', ''httpcore'', ''elasticsearch'']"

definition setup_logging_minimal :: "logger_tree \<Rightarrow> logger_tree" where
  "setup_logging_minimal tree =
     (let root = add_handler MinimalHandler (clear_handlers (tree []))
      in tree([] := root\<lparr>lg_level := 20\<rparr>))"

record StructlogConfig =
  sl_processors :: "string list"
  sl_foreign_pre_chain :: "string list"
  sl_formatter :: "string list \<times> Renderer"
  sl_cache_logger :: bool

definition shared_processors :: "string list" where
  "shared_processors =
     [''merge_contextvars'', ''add_log_level'', ''add_logger_name'', ''TimeStamper'', ''StackInfoRenderer'', ''format_exc_info'']"

definition renderer_of :: "MonitorSettings \<Rightarrow> Renderer" where
  "renderer_of st = (if cfg_log_format st = ''json'' then JSONRenderer else ConsoleRenderer)"

definition structlog_config :: "MonitorSettings \<Rightarrow> StructlogConfig" where
  "structlog_config st =
     \<lparr>sl_processors = shared_processors @ [''wrap_for_formatter''], sl_foreign_pre_chain = shared_processors,
      sl_formatter = ([''remove_processors_meta''], renderer_of st), sl_cache_logger = True\<rparr>"

definition route_logger :: "Handler \<Rightarrow> Logger \<Rightarrow> Logger" where
  "route_logger h lg = (add_handler h (clear_handlers lg))\<lparr>lg_propagate := False\<rparr>"

definition ROUTED :: "logger_name list" where
  "ROUTED = map logger_name (UVICORN_LOGGERS @ THIRD_PARTY_LOGGERS)"

text \<open>\<open>setup_logging\<close>: a level name \<open>logging\<close> does not know raises \<open>ValueError\<close>, after the root has its handler.\<close>

datatype LoggingError = UnknownLevel string

definition setup_logging :: "MonitorSettings \<Rightarrow> logger_tree \<Rightarrow> (LoggingError + StructlogConfig) \<times> logger_tree" where
  "setup_logging st tree =
     (let handler = PipelineHandler (renderer_of st);
          root = add_handler handler (clear_handlers (tree []));
          name = py_upper (cfg_log_level st)
      in case map_of LEVEL_NAMES name of
           None \<Rightarrow> (Inl (UnknownLevel name), tree([] := root))
         | Some level \<Rightarrow>
             (Inr (structlog_config st),
              fold (\<lambda>lg t. t(lg := route_logger handler (t lg))) ROUTED (tree([] := root\<lparr>lg_level := level\<rparr>))))"

text \<open>The last line of \<open>distributed/zk_client.py\<close>, run when the module is imported.\<close>

definition quiet_kazoo :: "logger_tree \<Rightarrow> logger_tree" where
  "quiet_kazoo tree = tree(logger_name ''kazoo'' := (tree (logger_name ''kazoo''))\<lparr>lg_level := 30\<rparr>)"

subsection \<open>Every record once\<close>

lemma clear_handlers_eq: "clear_handlers lg = lg\<lparr>lg_handlers := []\<rparr>"
proof -
  have "fold remove_handler hs (lg\<lparr>lg_handlers := hs\<rparr>) = lg\<lparr>lg_handlers := []\<rparr>" for hs
    by (induction hs) (simp_all add: remove_handler_def)
  from this [of "lg_handlers lg"] show ?thesis by (simp add: clear_handlers_def)
qed

lemma route_logger_eq: "route_logger h lg = lg\<lparr>lg_handlers := [h], lg_propagate := False\<rparr>"
  by (simp add: route_logger_def add_handler_def clear_handlers_eq)

lemma fold_route:
  "fold (\<lambda>lg t. t(lg := route_logger h (t lg))) names tree ps =
     (if ps \<in> set names then route_logger h (tree ps) else tree ps)"
  by (induction names arbitrary: tree) (auto simp: route_logger_eq)

lemma ROUTED_eq:
  "ROUTED = [[''uvicorn''], [''uvicorn'', ''access''], [''uvicorn'', ''error''], [''kazoo''], [''apscheduler''], [''httpx''], [''httpcore''], [''elasticsearch'']]"
  by code_simp

lemma setup_logging_tree:
  assumes "setup_logging st tree = (Inr cfg, tree')"
  shows "tree' ps =
    (if ps = [] then (tree [])\<lparr>lg_handlers := [PipelineHandler (renderer_of st)],
         lg_level := the (map_of LEVEL_NAMES (py_upper (cfg_log_level st)))\<rparr>
     else if ps \<in> set ROUTED then route_logger (PipelineHandler (renderer_of st)) (tree ps) else tree ps)"
proof -
  have "[] \<notin> set ROUTED" by (simp add: ROUTED_eq)
  with assms show ?thesis
    by (auto simp: setup_logging_def Let_def fold_route add_handler_def clear_handlers_eq split: option.splits)
qed

text \<open>The loggers on the way from a logger to the root, without the root.\<close>

definition quiet :: "Logger \<Rightarrow> bool" where
  "quiet lg \<longleftrightarrow> lg_handlers lg = [] \<and> lg_propagate lg"

lemma call_handlers_single:
  assumes root: "lg_handlers (tree []) = [h]" and routed: "\<And>qs. qs \<in> R \<Longrightarrow> lg_handlers (tree qs) = [h] \<and> \<not> lg_propagate (tree qs)"
    and other: "\<And>n. n < length ps \<Longrightarrow> take (Suc n) ps \<in> R \<or> quiet (tree (take (Suc n) ps))"
  shows "call_handlers tree ps = [h]"
  using other
proof (induction ps rule: rev_induct)
  case Nil
  then show ?case using root by simp
next
  case (snoc p ps)
  have whole: "ps @ [p] \<in> R \<or> quiet (tree (ps @ [p]))" using snoc.prems [of "length ps"] by simp
  have "call_handlers tree ps = [h]"
  proof (rule snoc.IH)
    fix n
    assume "n < length ps"
    then show "take (Suc n) ps \<in> R \<or> quiet (tree (take (Suc n) ps))" using snoc.prems [of n] by simp
  qed
  moreover obtain q qs where parts: "ps @ [p] = q # qs" by (cases "ps @ [p]") simp_all
  moreover have "butlast (q # qs) = ps" using parts by (metis butlast_snoc)
  ultimately show ?case using whole routed by (auto simp: quiet_def parts)
qed


text \<open>Setting up twice is setting up once.\<close>

lemma setup_logging_idem:
  assumes "setup_logging st tree = (Inr cfg, tree')"
  shows "setup_logging st tree' = (Inr cfg, tree')"
proof -
  obtain tree'' where again: "setup_logging st tree' = (Inr cfg, tree'')"
    using assms by (auto simp: setup_logging_def Let_def split: option.splits)
  have "tree'' ps = tree' ps" for ps
    by (simp add: setup_logging_tree [OF again] setup_logging_tree [OF assms] route_logger_eq)
  then show ?thesis using again by (simp add: fun_eq_iff)
qed

text \<open>Before the settings are read everything goes to standard error.\<close>

lemma minimal_to_stderr:
  assumes "\<And>n. n < length name \<Longrightarrow> quiet (tree (take (Suc n) name))"
  shows "log_record (setup_logging_minimal tree) name level = (if effective_level (setup_logging_minimal tree) name \<le> level then [Stderr] else [])"
proof -
  have "call_handlers (setup_logging_minimal tree) name = [MinimalHandler]"
    by (rule call_handlers_single [where R = "{}"])
      (use assms in \<open>auto simp: setup_logging_minimal_def add_handler_def clear_handlers_eq Let_def\<close>)
  then show ?thesis by (simp add: log_record_def)
qed

text \<open>An unknown level leaves the framework loggers as they were.\<close>

lemma unknown_level_unrouted:
  assumes "setup_logging st tree = (Inl e, tree')" "ps \<noteq> []"
  shows "tree' ps = tree ps \<and> lg_handlers (tree' []) = [PipelineHandler (renderer_of st)]"
  using assms by (auto simp: setup_logging_def Let_def add_handler_def clear_handlers_eq split: option.splits)

subsection \<open>An instance\<close>

text \<open>What uvicorn leaves behind: handlers of its own on two loggers.\<close>

definition uvicorn_tree :: logger_tree where
  "uvicorn_tree = (\<lambda>_. fresh_logger)
     ([''uvicorn''] := \<lparr>lg_handlers = [ForeignHandler ''uvicorn'', ForeignHandler ''file''], lg_propagate = False, lg_level = 20\<rparr>,
      [''uvicorn'', ''access''] := \<lparr>lg_handlers = [ForeignHandler ''access''], lg_propagate = False, lg_level = 20\<rparr>)"


end
