(* ===== verification/Metrics.thy ===== *)
theory Metrics
  imports Endpoints
begin

text \<open>
  \<open>src/src/api/metrics.py\<close>: the declared metrics and what the program does to them, over what it uses of
  \<open>prometheus_client\<close>: registration refuses a sample name twice, \<open>labels\<close> refuses other label names than the
  declared ones, a metric without labels has its sample from the start. The updates are the calls the
  components make (\<open>scheduler/jobs.py\<close>, \<open>analyzer/engine.py\<close>, \<open>api/health.py\<close>, \<open>main.py\<close>).
\<close>

subsection \<open>Declarations\<close>

datatype PromKind = CounterMetric | HistogramMetric | GaugeMetric

record Metric =
  mt_name :: string
  mt_kind :: PromKind
  mt_labels :: "string list"

definition JOB_TOTAL :: Metric where
  "JOB_TOTAL = \<lparr>mt_name = ''resource_monitor_job_total'', mt_kind = CounterMetric, mt_labels = [''process'', ''status'', ''reason'']\<rparr>"

definition ALERTS_SENT :: Metric where
  "ALERTS_SENT = \<lparr>mt_name = ''resource_monitor_alerts_sent_total'', mt_kind = CounterMetric, mt_labels = [''code'', ''subcode'']\<rparr>"

definition THRESHOLD_BREACHES :: Metric where
  "THRESHOLD_BREACHES =
     \<lparr>mt_name = ''resource_monitor_threshold_breaches_total'', mt_kind = CounterMetric, mt_labels = [''process'', ''metric'', ''severity'']\<rparr>"

definition ALERTS_SUPPRESSED :: Metric where
  "ALERTS_SUPPRESSED =
     \<lparr>mt_name = ''resource_monitor_alerts_suppressed_by_cooldown_total'', mt_kind = CounterMetric,
      mt_labels = [''process'', ''metric'', ''severity'']\<rparr>"

definition JOB_DURATION :: Metric where
  "JOB_DURATION =
     \<lparr>mt_name = ''resource_monitor_job_duration_seconds'', mt_kind = HistogramMetric, mt_labels = [''process'', ''metric_category'']\<rparr>"

definition ES_QUERY_DURATION :: Metric where
  "ES_QUERY_DURATION =
     \<lparr>mt_name = ''resource_monitor_es_query_duration_seconds'', mt_kind = HistogramMetric, mt_labels = [''process'']\<rparr>"

definition ZK_LEADER :: Metric where
  "ZK_LEADER = \<lparr>mt_name = ''resource_monitor_zk_leader'', mt_kind = GaugeMetric, mt_labels = []\<rparr>"

definition ASSIGNED_PROCESSES :: Metric where
  "ASSIGNED_PROCESSES = \<lparr>mt_name = ''resource_monitor_assigned_processes'', mt_kind = GaugeMetric, mt_labels = []\<rparr>"

definition INFRA_LABELS :: "string list" where
  "INFRA_LABELS = [''elasticsearch'', ''mongodb'', ''redis'', ''email_api'', ''zookeeper'']"

definition INFRA_UP :: Metric where
  "INFRA_UP = \<lparr>mt_name = ''resource_monitor_infra_up'', mt_kind = GaugeMetric, mt_labels = [''infra'']\<rparr>"

definition STARTUP_COMPLETE :: Metric where
  "STARTUP_COMPLETE = \<lparr>mt_name = ''resource_monitor_startup_complete'', mt_kind = GaugeMetric, mt_labels = []\<rparr>"

definition METRICS :: "Metric list" where
  "METRICS =
     [JOB_TOTAL, ALERTS_SENT, THRESHOLD_BREACHES, ALERTS_SUPPRESSED, JOB_DURATION, ES_QUERY_DURATION, ZK_LEADER,
      ASSIGNED_PROCESSES, INFRA_UP, STARTUP_COMPLETE]"

lemmas metric_defs = JOB_TOTAL_def ALERTS_SENT_def THRESHOLD_BREACHES_def ALERTS_SUPPRESSED_def JOB_DURATION_def
  ES_QUERY_DURATION_def ZK_LEADER_def ASSIGNED_PROCESSES_def INFRA_UP_def STARTUP_COMPLETE_def

subsection \<open>The registry\<close>

text \<open>The sample names of a metric; a counter is known without the suffix of its name.\<close>

definition base_name :: "string \<Rightarrow> string" where
  "base_name n = (if drop (length n - 6) n = ''_total'' then take (length n - 6) n else n)"

definition sample_names :: "Metric \<Rightarrow> string list" where
  "sample_names m =
     (case mt_kind m of
        CounterMetric \<Rightarrow> [base_name (mt_name m), base_name (mt_name m) @ ''_total'', base_name (mt_name m) @ ''_created'']
      | HistogramMetric \<Rightarrow>
          [mt_name m, mt_name m @ ''_bucket'', mt_name m @ ''_sum'', mt_name m @ ''_count'', mt_name m @ ''_created'']
      | GaugeMetric \<Rightarrow> [mt_name m])"

datatype MetricError = DuplicatedTimeseries string | IncorrectLabelNames

fun register_all :: "Metric list \<Rightarrow> string list \<Rightarrow> MetricError + string list" where
  "register_all [] taken = Inr taken"
| "register_all (m # ms) taken =
     (if \<exists>n\<in>set (sample_names m). n \<in> set taken then Inl (DuplicatedTimeseries (mt_name m))
      else register_all ms (taken @ sample_names m))"

text \<open>A series is a metric with the values of its labels, in the order of declaration.\<close>

type_synonym series = "string \<times> string list"

record Series =
  sr_value :: real
  sr_observations :: "real list"

definition new_Series :: Series where
  "new_Series = \<lparr>sr_value = 0, sr_observations = []\<rparr>"

type_synonym metric_store = "series \<rightharpoonup> Series"

definition initial_store :: metric_store where
  "initial_store = (\<lambda>(n, ls). if ls = [] \<and> (\<exists>m\<in>set METRICS. mt_name m = n \<and> mt_labels m = []) then Some new_Series else None)"

definition metric_labels :: "Metric \<Rightarrow> (string, string) dict \<Rightarrow> MetricError + series" where
  "metric_labels m given =
     (if distinct (map fst given) \<and> set (map fst given) = set (mt_labels m)
      then Inr (mt_name m, map (\<lambda>l. dict_get given l []) (mt_labels m)) else Inl IncorrectLabelNames)"

definition series_of :: "metric_store \<Rightarrow> series \<Rightarrow> Series" where
  "series_of st k = (case st k of None \<Rightarrow> new_Series | Some v \<Rightarrow> v)"

subsection \<open>The updates\<close>

datatype MetricOp = Inc | Observe real | SetTo real

datatype MetricUpdate =
    JobRun string string string
  | AlertSent string string
  | Breach string string string
  | Suppressed string string string
  | EsQuery string real
  | InfraChecked string real
  | StartupDone real

definition update_call :: "MetricUpdate \<Rightarrow> Metric \<times> (string, string) dict \<times> MetricOp" where
  "update_call u =
     (case u of
        JobRun pr status reason \<Rightarrow> (JOB_TOTAL, [(''process'', pr), (''status'', status), (''reason'', reason)], Inc)
      | AlertSent cd sub \<Rightarrow> (ALERTS_SENT, [(''code'', cd), (''subcode'', sub)], Inc)
      | Breach pr mtr sev \<Rightarrow>
          (THRESHOLD_BREACHES, [(''process'', pr), (''metric'', mtr), (''severity'', sev)], Inc)
      | Suppressed pr mtr sev \<Rightarrow>
          (ALERTS_SUPPRESSED, [(''process'', pr), (''metric'', mtr), (''severity'', sev)], Inc)
      | EsQuery pr seconds \<Rightarrow> (ES_QUERY_DURATION, [(''process'', pr)], Observe seconds)
      | InfraChecked infra v \<Rightarrow> (INFRA_UP, [(''infra'', infra)], SetTo v)
      | StartupDone v \<Rightarrow> (STARTUP_COMPLETE, [], SetTo v))"

definition apply_op :: "MetricOp \<Rightarrow> Series \<Rightarrow> Series" where
  "apply_op oper s =
     (case oper of
        Inc \<Rightarrow> s\<lparr>sr_value := sr_value s + 1\<rparr>
      | Observe x \<Rightarrow> s\<lparr>sr_value := sr_value s + x, sr_observations := sr_observations s @ [x]\<rparr>
      | SetTo x \<Rightarrow> s\<lparr>sr_value := x\<rparr>)"

definition metric_update :: "MetricUpdate \<Rightarrow> metric_store \<Rightarrow> MetricError + metric_store" where
  "metric_update u st =
     (case update_call u of (m, given, oper) \<Rightarrow>
        bind_res (metric_labels m given) (\<lambda>k. Inr (st(k \<mapsto> apply_op oper (series_of st k)))))"

fun metric_updates :: "MetricUpdate list \<Rightarrow> metric_store \<Rightarrow> MetricError + metric_store" where
  "metric_updates [] st = Inr st"
| "metric_updates (u # us) st = bind_res (metric_update u st) (metric_updates us)"

text \<open>The events of the components as updates.\<close>

definition job_metric :: "JobMetric \<Rightarrow> MetricUpdate" where
  "job_metric ev = JobRun (metric_process ev) (metric_status ev) (metric_reason ev)"

definition infra_metrics :: "(string \<times> real) list \<Rightarrow> MetricUpdate list" where
  "infra_metrics xs = map (\<lambda>(k, v). InfraChecked k v) xs"

subsection \<open>Nothing here raises\<close>

lemma register_all_distinct:
  assumes "distinct (taken @ concat (map sample_names ms))"
  shows "register_all ms taken = Inr (taken @ concat (map sample_names ms))"
  using assms
proof (induction ms arbitrary: taken)
  case (Cons m ms)
  then have "\<not> (\<exists>n\<in>set (sample_names m). n \<in> set taken)" by auto
  moreover have "distinct ((taken @ sample_names m) @ concat (map sample_names ms))" using Cons.prems by (simp only: list.map concat.simps append.assoc)
  ultimately show ?case using Cons.IH [of "taken @ sample_names m"] by (simp only: register_all.simps if_False list.map concat.simps append.assoc)
qed simp

lemma metrics_register: "register_all METRICS [] = Inr (concat (map sample_names METRICS))"
proof -
  have "distinct ([] @ concat (map sample_names METRICS))" by code_simp
  from register_all_distinct [OF this] show ?thesis by simp
qed

definition update_key :: "MetricUpdate \<Rightarrow> series" where
  "update_key u = (case update_call u of (m, given, _) \<Rightarrow> (mt_name m, map snd given))"

lemma update_labels: "metric_labels (fst (update_call u)) (fst (snd (update_call u))) = Inr (update_key u)"
  by (cases u) (auto simp: update_call_def update_key_def metric_labels_def metric_defs dict_get_def)

lemma metric_update_ok:
  "metric_update u st = Inr (st(update_key u \<mapsto> apply_op (snd (snd (update_call u))) (series_of st (update_key u))))"
  using update_labels [of u] by (simp add: metric_update_def case_prod_beta)

subsection \<open>Counters count\<close>

definition counter_update :: "MetricUpdate \<Rightarrow> bool" where
  "counter_update u \<longleftrightarrow> snd (snd (update_call u)) = Inc"

lemma same_key_same_op:
  assumes "update_key u = update_key v" "counter_update u"
  shows "counter_update v"
  using assms by (cases u; cases v) (simp_all add: update_key_def counter_update_def update_call_def metric_defs)

text \<open>
  No update the program makes is refused, and a counter counts: after any sequence of updates, in any
  order, the value of a counter's series has grown by exactly the number of updates of that series.
\<close>
theorem counters_count:
  assumes "counter_update u"
  shows "\<exists>st'. metric_updates us st = Inr st' \<and>
    sr_value (series_of st' (update_key u)) = sr_value (series_of st (update_key u)) + real (length (filter (\<lambda>v. update_key v = update_key u) us))"
proof (induction us arbitrary: st)
  case Nil
  then show ?case by simp
next
  case (Cons v us)
  define st1 where "st1 = st(update_key v \<mapsto> apply_op (snd (snd (update_call v))) (series_of st (update_key v)))"
  have grown: "sr_value (series_of st1 (update_key u)) = sr_value (series_of st (update_key u)) + (if update_key v = update_key u then 1 else 0)"
  proof (cases "update_key v = update_key u")
    case True
    then have "counter_update v" using same_key_same_op assms by metis
    then show ?thesis using True by (simp add: st1_def series_of_def counter_update_def apply_op_def)
  next
    case False
    then show ?thesis by (simp add: st1_def series_of_def)
  qed
  have "metric_updates (v # us) st = metric_updates us st1" by (simp add: metric_update_ok st1_def)
  with Cons.IH [of st1] show ?case
    by (cases "update_key v = update_key u") (simp_all add: grown add.assoc)
qed

text \<open>Two gauges have no update at all: they show zero on the leader and whatever is assigned.\<close>

lemma untouched_gauges:
  assumes "metric_updates us st = Inr st'" "m \<in> {ZK_LEADER, ASSIGNED_PROCESSES}"
  shows "st' (mt_name m, []) = st (mt_name m, [])"
  using assms(1)
proof (induction us arbitrary: st)
  case (Cons u us)
  have "update_key u \<noteq> (mt_name m, [])" using assms(2) by (cases u) (auto simp: update_key_def update_call_def metric_defs)
  with Cons show ?case by (simp add: metric_update_ok)
qed simp

lemma leader_gauge_stays_zero:
  assumes "metric_updates us initial_store = Inr st'"
  shows "sr_value (series_of st' (mt_name ZK_LEADER, [])) = 0"
proof -
  have "initial_store (mt_name ZK_LEADER, []) = Some new_Series" by (auto simp: initial_store_def METRICS_def ZK_LEADER_def)
  with untouched_gauges [OF assms, of ZK_LEADER] show ?thesis by (simp add: series_of_def new_Series_def)
qed

theorem counters_count_witness:
  "\<exists>st'. metric_updates [JobRun ''ETCH'' ''success'' [], AlertSent ''RESOURCE_MONITOR'' ''CPU_WARNING'', JobRun ''ETCH'' ''success'' []] initial_store = Inr st' \<and>
     sr_value (series_of st' (''resource_monitor_job_total'', [''ETCH'', ''success'', []])) = 2"
proof -
  have "counter_update (JobRun ''ETCH'' ''success'' [])" by (simp add: counter_update_def update_call_def)
  from counters_count [OF this, of "[JobRun ''ETCH'' ''success'' [], AlertSent ''RESOURCE_MONITOR'' ''CPU_WARNING'', JobRun ''ETCH'' ''success'' []]" initial_store]
  show ?thesis by (simp add: update_key_def update_call_def metric_defs series_of_def initial_store_def new_Series_def)
qed

end
