(* ===== verification/Uri_Mask.thy ===== *)
theory Uri_Mask
  imports Connections Body_Renderer
begin

text \<open>
  \<open>_mask\<close> of \<open>src/tools/create_collection.py\<close> and \<open>src/tools/seed_template_catchall.py\<close>, which hides the credentials of
  a Mongo URI before it is printed, over what it uses of \<open>urllib.parse\<close>: \<open>urlsplit\<close>, the attributes of its
  result, and \<open>urlunsplit\<close>. The check of a network location beyond its brackets (address literals,
  normalisation of other scripts) is an argument.
\<close>

subsection \<open>Splitting a URI\<close>

record SplitResult =
  url_scheme :: string
  url_netloc :: string
  url_path :: string
  url_query :: string
  url_fragment :: string

text \<open>Leading controls and blanks go, and tabs and line ends wherever they stand.\<close>

definition url_clean :: "string \<Rightarrow> string" where
  "url_clean url = filter (\<lambda>c. char_code c \<notin> {9, 10, 13}) (dropWhile (\<lambda>c. char_code c \<le> 32) url)"

definition scheme_char :: "char \<Rightarrow> bool" where
  "scheme_char c = (is_alpha c \<or> is_digit c \<or> c \<in> set ''+-.'')"

definition split_scheme :: "string \<Rightarrow> string \<times> string" where
  "split_scheme url =
     (case str_partition (CHR '':'') url of (s, sep, rest) \<Rightarrow>
        if sep \<noteq> [] \<and> s \<noteq> [] \<and> is_alpha (hd s) \<and> list_all scheme_char s then (py_lower s, rest) else ([], url))"

definition netloc_end :: "char \<Rightarrow> bool" where
  "netloc_end c = (c \<in> set ''/?#'')"

definition split_netloc :: "string \<Rightarrow> string \<times> string" where
  "split_netloc url =
     (if starts_with url ''//''
      then (takeWhile (\<lambda>c. \<not> netloc_end c) (drop 2 url), dropWhile (\<lambda>c. \<not> netloc_end c) (drop 2 url))
      else ([], url))"

text \<open>\<open>urlsplit\<close>; \<open>None\<close> where it raises \<open>ValueError\<close>.\<close>

definition urlsplit :: "(string \<Rightarrow> bool) \<Rightarrow> string \<Rightarrow> SplitResult option" where
  "urlsplit netloc_ok uri =
     (case split_scheme (url_clean uri) of (scheme, rest) \<Rightarrow>
      case split_netloc rest of (netloc, rest1) \<Rightarrow>
      if (CHR ''['' \<in> set netloc) \<noteq> (CHR '']'' \<in> set netloc) \<or> \<not> netloc_ok netloc then None
      else (case str_partition (CHR ''#'') rest1 of (rest2, _, fragment) \<Rightarrow>
            case str_partition (CHR ''?'') rest2 of (path, _, query) \<Rightarrow>
              Some \<lparr>url_scheme = scheme, url_netloc = netloc, url_path = path, url_query = query, url_fragment = fragment\<rparr>))"

text \<open>\<open>s.rpartition(c)\<close>: what stands before and after the last \<open>c\<close>, or nothing and the whole.\<close>

definition str_rpartition :: "char \<Rightarrow> string \<Rightarrow> string \<times> bool \<times> string" where
  "str_rpartition c s =
     (if c \<in> set s
      then (rev (tl (dropWhile (\<lambda>x. x \<noteq> c) (rev s))), True, rev (takeWhile (\<lambda>x. x \<noteq> c) (rev s)))
      else ([], False, s))"

definition url_userinfo :: "string \<Rightarrow> string option \<times> string option" where
  "url_userinfo netloc =
     (case str_rpartition (CHR ''@'') netloc of (userinfo, have_info, _) \<Rightarrow>
        if \<not> have_info then (None, None)
        else (case str_partition (CHR '':'') userinfo of (user, sep, pw) \<Rightarrow>
                (Some user, if sep = [] then None else Some pw)))"

definition url_hostinfo :: "string \<Rightarrow> string \<times> string option" where
  "url_hostinfo netloc =
     (case str_rpartition (CHR ''@'') netloc of (_, _, hostinfo) \<Rightarrow>
      case str_partition (CHR ''['') hostinfo of (_, open_br, bracketed) \<Rightarrow>
        if open_br \<noteq> []
        then (case str_partition (CHR '']'') bracketed of (host, _, after) \<Rightarrow>
                (host, or_none (snd (snd (str_partition (CHR '':'') after)))))
        else (case str_partition (CHR '':'') hostinfo of (host, _, port) \<Rightarrow> (host, or_none port)))"

definition url_hostname :: "string \<Rightarrow> string option" where
  "url_hostname netloc =
     (let host = fst (url_hostinfo netloc)
      in if host = [] then None
         else (case str_partition (CHR ''%'') host of (name, percent, zone) \<Rightarrow> Some (py_lower name @ percent @ zone)))"

text \<open>\<open>port\<close>: an unusable number raises \<open>ValueError\<close> (\<open>Inl\<close>).\<close>

definition url_port :: "string \<Rightarrow> unit + int option" where
  "url_port netloc =
     (case snd (url_hostinfo netloc) of
        None \<Rightarrow> Inr None
      | Some text \<Rightarrow>
          if list_all is_digit text
          then (case py_int text of
                  Some n \<Rightarrow> if n \<le> 65535 then Inr (Some n) else Inl ()
                | None \<Rightarrow> Inl ())
          else Inl ())"

definition urlunsplit :: "SplitResult \<Rightarrow> string" where
  "urlunsplit r =
     (let path = (if url_path r \<noteq> [] \<and> \<not> starts_with (url_path r) ''/'' then ''/'' @ url_path r else url_path r);
          url1 = (if url_netloc r \<noteq> [] then ''//'' @ url_netloc r @ path else url_path r);
          url2 = (if url_scheme r \<noteq> [] then url_scheme r @ '':'' @ url1 else url1);
          url3 = (if url_query r \<noteq> [] then url2 @ ''?'' @ url_query r else url2)
      in if url_fragment r \<noteq> [] then url3 @ ''#'' @ url_fragment r else url3)"

subsection \<open>Masking\<close>

text \<open>Any exception leaves the URI as it is.\<close>

definition mask_uri :: "(string \<Rightarrow> bool) \<Rightarrow> string \<Rightarrow> string" where
  "mask_uri netloc_ok uri =
     (case urlsplit netloc_ok uri of
        None \<Rightarrow> uri
      | Some parts \<Rightarrow>
          (case url_userinfo (url_netloc parts) of (user, pw) \<Rightarrow>
             if user \<in> {None, Some []} \<and> pw \<in> {None, Some []} then uri
             else (let host = (case url_hostname (url_netloc parts) of None \<Rightarrow> [] | Some h \<Rightarrow> h)
                   in case url_port (url_netloc parts) of
                        Inl _ \<Rightarrow> uri
                      | Inr port \<Rightarrow>
                          (let shown = (case port of None \<Rightarrow> host | Some n \<Rightarrow> if n = 0 then host else host @ '':'' @ str_of_int n)
                           in urlunsplit (parts\<lparr>url_netloc := ''***:***@'' @ shown\<rparr>)))))"

subsection \<open>URIs of the documented form\<close>

text \<open>Text with no delimiter of a network location, no bracket, no blank and no other script.\<close>

definition plain_text :: "string \<Rightarrow> bool" where
  "plain_text s \<longleftrightarrow> (\<forall>c\<in>set s. 32 < char_code c \<and> char_code c < 128 \<and> \<not> netloc_end c \<and> c \<noteq> CHR ''['' \<and> c \<noteq> CHR '']'')"

text \<open>What is relied on of the check: it accepts a plain location.\<close>

definition accepts_plain :: "(string \<Rightarrow> bool) \<Rightarrow> bool" where
  "accepts_plain netloc_ok \<longleftrightarrow> (\<forall>n. plain_text n \<longrightarrow> netloc_ok n)"

definition mongo_uri_of :: "string \<Rightarrow> string \<Rightarrow> string \<Rightarrow> string" where
  "mongo_uri_of netloc path query = ''mongodb://'' @ netloc @ path @ (if query = [] then [] else CHR ''?'' # query)"

text \<open>A path is empty or begins with a slash; neither it nor the query holds a blank or a mark of what follows.\<close>

definition plain_tail :: "string \<Rightarrow> string \<Rightarrow> bool" where
  "plain_tail path query \<longleftrightarrow>
     (path = [] \<or> starts_with path ''/'') \<and> CHR ''?'' \<notin> set path \<and> CHR ''#'' \<notin> set path \<and> CHR ''#'' \<notin> set query \<and>
     (\<forall>c\<in>set path \<union> set query. 32 < char_code c)"

lemma str_rpartition_join [simp]:
  "c \<notin> set b \<Longrightarrow> str_rpartition c (a @ c # b) = (a, True, b)"
proof -
  assume "c \<notin> set b"
  then have "\<And>x. x \<in> set (rev b) \<Longrightarrow> x \<noteq> c" by auto
  then show ?thesis by (simp add: str_rpartition_def takeWhile_append dropWhile_append)
qed

lemma url_clean_plain: "\<forall>c\<in>set s. 32 < char_code c \<Longrightarrow> url_clean s = s"
  by (cases s) (auto simp: url_clean_def intro!: filter_True)

lemma split_mongo_uri:
  assumes ok: "accepts_plain netloc_ok" and netloc: "plain_text netloc" and tail: "plain_tail path query"
  shows "urlsplit netloc_ok (mongo_uri_of netloc path query) =
    Some \<lparr>url_scheme = ''mongodb'', url_netloc = netloc, url_path = path, url_query = query, url_fragment = []\<rparr>"
proof -
  let ?rest = "path @ (if query = [] then [] else CHR ''?'' # query)"
  have "\<forall>c\<in>set (mongo_uri_of netloc path query). 32 < char_code c"
    using netloc tail by (auto simp: mongo_uri_of_def plain_text_def plain_tail_def char_code_def split: if_splits)
  then have clean: "url_clean (mongo_uri_of netloc path query) = mongo_uri_of netloc path query" by (rule url_clean_plain)
  have "str_partition (CHR '':'') (''mongodb'' @ CHR '':'' # (''//'' @ netloc @ ?rest)) = (''mongodb'', '':'', ''//'' @ netloc @ ?rest)"
    by (rule str_partition_join) simp
  moreover have "list_all scheme_char ''mongodb''" "is_alpha (CHR ''m'')" "py_lower ''mongodb'' = ''mongodb''" by code_simp+
  ultimately have scheme: "split_scheme (mongo_uri_of netloc path query) = (''mongodb'', ''//'' @ netloc @ ?rest)"
    by (simp add: split_scheme_def mongo_uri_of_def)
  have stop: "?rest = [] \<or> netloc_end (hd ?rest)"
    using tail by (auto simp: plain_tail_def netloc_end_def starts_with_iff)
  have "takeWhile (\<lambda>c. \<not> netloc_end c) (netloc @ ?rest) = netloc \<and> dropWhile (\<lambda>c. \<not> netloc_end c) (netloc @ ?rest) = ?rest"
    using netloc stop by (cases ?rest) (auto simp: plain_text_def takeWhile_append dropWhile_append)
  then have loc: "split_netloc (''//'' @ netloc @ ?rest) = (netloc, ?rest)"
    by (simp add: split_netloc_def starts_with_def)
  have hash: "str_partition (CHR ''#'') ?rest = (?rest, [], [])"
    using tail by (intro str_partition_absent) (auto simp: plain_tail_def)
  have "str_partition (CHR ''?'') ?rest = (path, (if query = [] then [] else ''?''), query)"
    using tail by (simp add: plain_tail_def)
  moreover have "CHR ''['' \<notin> set netloc" "CHR '']'' \<notin> set netloc" using netloc by (auto simp: plain_text_def)
  ultimately show ?thesis
    using ok netloc by (simp only: urlsplit_def clean scheme prod.case loc hash) (simp add: accepts_plain_def)
qed

lemma unsplit_mongo_uri:
  assumes "plain_tail path query" "netloc \<noteq> []"
  shows "urlunsplit \<lparr>url_scheme = ''mongodb'', url_netloc = netloc, url_path = path, url_query = query, url_fragment = []\<rparr> =
    mongo_uri_of netloc path query"
  using assms by (auto simp: urlunsplit_def mongo_uri_of_def plain_tail_def Let_def)

subsection \<open>What is hidden\<close>

definition host_port :: "string \<Rightarrow> int option \<Rightarrow> string" where
  "host_port host port = host @ (case port of None \<Rightarrow> [] | Some n \<Rightarrow> CHR '':'' # str_of_int n)"

definition plain_member :: "string \<Rightarrow> int option \<Rightarrow> bool" where
  "plain_member host port \<longleftrightarrow>
     plain_text host \<and> host \<noteq> [] \<and> CHR ''@'' \<notin> set host \<and> CHR '':'' \<notin> set host \<and> CHR ''%'' \<notin> set host \<and>
     (\<forall>n. port = Some n \<longrightarrow> 0 < n \<and> n \<le> 65535)"

text \<open>A user, a password or both.\<close>

definition credentials :: "string \<Rightarrow> bool" where
  "credentials cred \<longleftrightarrow> plain_text cred \<and> cred \<noteq> [] \<and> cred \<noteq> '':''"

lemma str_of_int_digits: "0 \<le> n \<Longrightarrow> list_all is_digit (str_of_int n)"
  using str_of_nat_digits by (simp add: str_of_int_def list_all_iff)

lemma digits_plain: "list_all is_digit s \<Longrightarrow> plain_text s \<and> CHR ''@'' \<notin> set s"
  by (auto simp: list_all_iff is_digit_def plain_text_def netloc_end_def char_code_def)

lemma plain_text_append [simp]: "plain_text (a @ b) \<longleftrightarrow> plain_text a \<and> plain_text b"
  by (auto simp: plain_text_def)

lemma plain_text_Nil [simp]: "plain_text []"
  by (simp add: plain_text_def)

lemma plain_text_marks [simp]:
  "plain_text (CHR '':'' # s) = plain_text s" "plain_text (CHR ''@'' # s) = plain_text s" "plain_text (CHR '','' # s) = plain_text s"
  by (auto simp: plain_text_def netloc_end_def char_code_def)

lemma plain_member_text:
  assumes "plain_member host port"
  shows "plain_text (host_port host port)" "CHR ''@'' \<notin> set (host_port host port)" "host_port host port \<noteq> []"
    "CHR ''['' \<notin> set (host_port host port)"
proof -
  have digits: "plain_text (str_of_int n) \<and> CHR ''@'' \<notin> set (str_of_int n)" if "port = Some n" for n
    using assms that by (intro digits_plain str_of_int_digits) (simp add: plain_member_def)
  show plain: "plain_text (host_port host port)"
    using assms digits by (cases port) (simp_all add: plain_member_def host_port_def)
  show "CHR ''['' \<notin> set (host_port host port)" using plain unfolding plain_text_def by blast
  show "CHR ''@'' \<notin> set (host_port host port)"
    using assms digits by (cases port) (simp_all add: plain_member_def host_port_def)
  show "host_port host port \<noteq> []" using assms by (simp add: plain_member_def host_port_def)
qed

lemma userinfo_present:
  assumes "credentials cred" "CHR ''@'' \<notin> set rest" "url_userinfo (cred @ CHR ''@'' # rest) = (user, pw)"
  shows "\<not> (user \<in> {None, Some []} \<and> pw \<in> {None, Some []})"
proof -
  have parts: "(user, pw) = (case str_partition (CHR '':'') cred of (u, sep, p) \<Rightarrow> (Some u, if sep = [] then None else Some p))"
    using assms(2,3) by (simp add: url_userinfo_def)
  show ?thesis
  proof (cases "CHR '':'' \<in> set cred")
    case True
    then obtain u p where "cred = u @ CHR '':'' # p" "CHR '':'' \<notin> set u" by (meson split_list_first)
    then show ?thesis using parts assms(1) by (auto simp: credentials_def)
  qed (use parts assms(1) in \<open>auto simp: credentials_def\<close>)
qed

lemma member_hostinfo:
  assumes "plain_member host port"
  shows "url_hostinfo (cred @ CHR ''@'' # host_port host port) = (host, map_option str_of_int port)"
proof -
  have "str_partition (CHR '':'') (host_port host port) = (host, (case port of None \<Rightarrow> [] | Some _ \<Rightarrow> '':''), (case port of None \<Rightarrow> [] | Some n \<Rightarrow> str_of_int n))"
    using assms by (auto simp: host_port_def plain_member_def split: option.splits)
  then show ?thesis
    using plain_member_text [OF assms] by (auto simp: url_hostinfo_def or_none_def split: option.splits)
qed

text \<open>
  The credentials of a Mongo URI never reach the printed form: whatever user and password stand in
  front of a host, the URI is shown with stars in their place, and with the same host, port, path and options.
\<close>
theorem mask_hides_credentials:
  assumes "accepts_plain netloc_ok" "credentials cred" "plain_member host port" "plain_tail path query"
  shows "mask_uri netloc_ok (mongo_uri_of (cred @ ''@'' @ host_port host port) path query) =
    mongo_uri_of (''***:***@'' @ host_port (py_lower host) port) path query"
proof -
  define netloc where "netloc = cred @ ''@'' @ host_port host port"
  note member = plain_member_text [OF assms(3)]
  have "plain_text netloc" using assms(2) member(1) by (simp add: credentials_def netloc_def)
  note parts = split_mongo_uri [OF assms(1) this assms(4)]
  obtain user pw where info: "url_userinfo netloc = (user, pw)" by fastforce
  have given: "\<not> (user \<in> {None, Some []} \<and> pw \<in> {None, Some []})"
    using userinfo_present [OF assms(2) member(2)] info by (simp add: netloc_def)
  have host: "url_hostname netloc = Some (py_lower host)"
    using member_hostinfo [OF assms(3), of cred] assms(3) by (simp add: url_hostname_def plain_member_def netloc_def)
  have port: "url_port netloc = Inr port"
    using member_hostinfo [OF assms(3), of cred] assms(3)
    by (auto simp: url_port_def plain_member_def netloc_def str_of_int_digits py_int_str_of_int split: option.splits)
  have "(case port of None \<Rightarrow> py_lower host | Some n \<Rightarrow> if n = 0 then py_lower host else py_lower host @ '':'' @ str_of_int n) =
      host_port (py_lower host) port"
    using assms(3) by (auto simp: host_port_def plain_member_def split: option.splits)
  then show ?thesis
    using unsplit_mongo_uri [OF assms(4), of "''***:***@'' @ host_port (py_lower host) port"] given
    unfolding netloc_def [symmetric] by (auto simp: mask_uri_def parts info host port)
qed

subsection \<open>What is not\<close>

text \<open>
  With more than one member of a replica set the part after the first colon is no number, reading
  the port raises, and the URI is shown whole.
\<close>

theorem mask_leaks_replica_set:
  assumes "accepts_plain netloc_ok" "credentials cred" "plain_member host (Some n)" "plain_member host' port" "plain_tail path query"
  shows "mask_uri netloc_ok (mongo_uri_of (cred @ ''@'' @ host_port host (Some n) @ '','' @ host_port host' port) path query) =
    mongo_uri_of (cred @ ''@'' @ host_port host (Some n) @ '','' @ host_port host' port) path query"
proof -
  let ?members = "host_port host (Some n) @ '','' @ host_port host' port"
  define netloc where "netloc = cred @ ''@'' @ ?members"
  note member = plain_member_text [OF assms(3)] plain_member_text [OF assms(4)]
  have "plain_text netloc" using assms(2) member by (simp add: credentials_def netloc_def)
  note parts = split_mongo_uri [OF assms(1) this assms(5)]
  have "str_partition (CHR '':'') ?members = (host, '':'', str_of_int n @ '','' @ host_port host' port)"
    using assms(3) by (simp add: host_port_def plain_member_def)
  moreover have "CHR ''@'' \<notin> set ?members" "CHR ''['' \<notin> set ?members" using member by auto
  ultimately have "url_hostinfo netloc = (host, Some (str_of_int n @ '','' @ host_port host' port))"
    by (simp add: url_hostinfo_def or_none_def netloc_def)
  then have "url_port netloc = Inl ()"
    by (simp add: url_port_def is_digit_def char_code_def)
  then show ?thesis unfolding netloc_def [symmetric] by (auto simp: mask_uri_def parts split: prod.splits)
qed

end
