(* ===== verification/Operator_Tools.thy ===== *)
theory Operator_Tools
  imports Settings Uri_Mask
begin

text \<open>
  \<open>src/tools/create_collection.py\<close> and \<open>src/tools/seed_template_catchall.py\<close>: the two tools that write to Mongo, each
  only with \<open>--yes\<close>. A run gives how it ended, the lines it printed and the state of the database; the
  driver is an argument.
\<close>

subsection \<open>Printed text\<close>

definition em_dash :: string where "em_dash = [CHR 0xE2, CHR 0x80, CHR 0x94]"

definition ruled :: "nat \<Rightarrow> string" where
  "ruled n = concat (replicate n [CHR 0xE2, CHR 0x94, CHR 0x80])"

subsection \<open>create_collection\<close>

definition INDEX_NAME :: string where "INDEX_NAME = ''uniq_scope''"

record ('m, 'w) schema_driver =
  sd_connect :: "string \<Rightarrow> SchemaExc + 'm"
  sd_list_collections :: "'m \<Rightarrow> string \<Rightarrow> 'w \<Rightarrow> (SchemaExc + string list) \<times> 'w"
  sd_create_collection :: "string \<Rightarrow> 'w \<Rightarrow> (SchemaExc + unit) \<times> 'w"
  sd_create_index :: "string \<Rightarrow> 'w \<Rightarrow> (SchemaExc + unit) \<times> 'w"
  sd_close :: "'m \<Rightarrow> 'w \<Rightarrow> 'w"

definition collection_plan :: "(string \<Rightarrow> bool) \<Rightarrow> MonitorSettings \<Rightarrow> string list" where
  "collection_plan netloc_ok st =
     [ruled 2 @ '' create_collection '' @ ruled 39,
      ''  target Mongo : '' @ mask_uri netloc_ok (cfg_mongo_uri st),
      ''  database     : '' @ cfg_mongo_db st,
      ''  collection   : '' @ COLL_PROFILE @ '' (created EMPTY '' @ em_dash @ '' no profile seeded)'',
      ''  index        : '' @ INDEX_NAME @ '' unique on (scope.process, scope.eqpModel, scope.eqpId)'',
      ruled 60]"

text \<open>The body of the \<open>try\<close>: up to the first call that raises.\<close>

definition create_schema ::
  "('m, 'w) schema_driver \<Rightarrow> MonitorSettings \<Rightarrow> 'm \<Rightarrow> 'w \<Rightarrow> (SchemaExc + unit) \<times> string list \<times> 'w" where
  "create_schema d st client w =
     (let target = cfg_mongo_db st @ ''.'' @ COLL_PROFILE;
          finish = (\<lambda>out w1. case sd_create_index d COLL_PROFILE w1 of
                     (Inl e, w2) \<Rightarrow> (Inl e, out, w2)
                   | (Inr _, w2) \<Rightarrow>
                       (Inr (), out @ [''ensured unique index: '' @ INDEX_NAME,
                                       ''OK '' @ em_dash @ '' ready for manual JSON profile inserts.''], w2))
      in case sd_list_collections d client (cfg_mongo_db st) w of
           (Inl e, w1) \<Rightarrow> (Inl e, [], w1)
         | (Inr existing, w1) \<Rightarrow>
             if COLL_PROFILE \<in> set existing then finish [''collection already exists: '' @ target] w1
             else (case sd_create_collection d COLL_PROFILE w1 of
                     (Inl e, w2) \<Rightarrow> (Inl e, [], w2)
                   | (Inr _, w2) \<Rightarrow> finish [''created empty collection: '' @ target] w2))"

definition create_collection_run ::
  "('m, 'w) schema_driver \<Rightarrow> (string \<Rightarrow> bool) \<Rightarrow> MonitorSettings \<Rightarrow> bool \<Rightarrow> 'w \<Rightarrow> (SchemaExc + unit) \<times> string list \<times> 'w" where
  "create_collection_run d netloc_ok st do_write w =
     (let plan = collection_plan netloc_ok st
      in if \<not> do_write
         then (Inr (), plan @ [''DRY-RUN '' @ em_dash @ '' nothing written. Re-run with --yes to create.''], w)
         else (case sd_connect d (cfg_mongo_uri st) of
                 Inl e \<Rightarrow> (Inl e, plan, w)
               | Inr client \<Rightarrow>
                   (case create_schema d st client w of (res, out, w1) \<Rightarrow> (res, plan @ out, sd_close d client w1))))"

subsection \<open>seed_template_catchall\<close>

definition ALERT_CODE_RESOURCE_MONITOR :: string where "ALERT_CODE_RESOURCE_MONITOR = ''RESOURCE_MONITOR''"

definition COLL_RMS_EMAIL_TEMPLATE :: string where "COLL_RMS_EMAIL_TEMPLATE = ''RESOURCE_MONITOR_EMAIL_TEMPLATE''"

definition catch_all_row :: "string \<Rightarrow> (string, json) dict" where
  "catch_all_row app_name =
     [(''app'', JStr app_name), (''process'', JStr ''_''), (''model'', JStr ''_''),
      (''code'', JStr ALERT_CODE_RESOURCE_MONITOR), (''subcode'', JStr ''_''),
      (''title'', JStr DEFAULT_TITLE), (''html'', JStr DEFAULT_BODY)]"

definition KEY_COLUMNS :: "string list" where
  "KEY_COLUMNS = [''app'', ''process'', ''model'', ''code'', ''subcode'']"

definition row_columns :: "(string, json) dict \<Rightarrow> string list \<Rightarrow> (string, json) dict" where
  "row_columns row cols = map (\<lambda>k. (k, dict_get row k JNull)) cols"

text \<open>
  The template collection: the upsert with a filter and a \<open>$set\<close> document answers with the id of
  an inserted document and the number of modified ones.
\<close>

record ('m, 'w) template_driver =
  td_connect :: "string \<Rightarrow> MongoError + 'm"
  td_upsert :: "'m \<Rightarrow> string \<Rightarrow> string \<Rightarrow> (string, json) dict \<Rightarrow> (string, json) dict \<Rightarrow> 'w \<Rightarrow> (MongoError + string option \<times> nat) \<times> 'w"
  td_close :: "'m \<Rightarrow> 'w \<Rightarrow> 'w"

definition template_plan :: "(string \<Rightarrow> bool) \<Rightarrow> (json \<Rightarrow> string) \<Rightarrow> MonitorSettings \<Rightarrow> string list" where
  "template_plan netloc_ok repr_of st =
     (let row = catch_all_row (cfg_email_app_name st)
      in [ruled 2 @ '' seed_template_catchall '' @ ruled 34,
          ''  target Mongo : '' @ mask_uri netloc_ok (cfg_mongo_uri st),
          ''  database     : '' @ cfg_mongo_db st,
          ''  collection   : '' @ COLL_RMS_EMAIL_TEMPLATE @ '' (row upsert only '' @ em_dash @ '' schema owned by WebManager)'',
          ''  catch-all key: '' @ repr_of (JObj (row_columns row KEY_COLUMNS)),
          ''  title        : '' @ repr_of (dict_get row ''title'' JNull),
          ''  html bytes   : '' @ str_of_nat (length DEFAULT_BODY) @ '' (mirrors body_renderer.DEFAULT_BODY)'',
          ruled 60])"

definition seed_template_run ::
  "('m, 'w) template_driver \<Rightarrow> (string \<Rightarrow> bool) \<Rightarrow> (json \<Rightarrow> string) \<Rightarrow> MonitorSettings \<Rightarrow> bool \<Rightarrow> 'w \<Rightarrow>
     (MongoError + unit) \<times> string list \<times> 'w" where
  "seed_template_run d netloc_ok repr_of st do_write w =
     (let plan = template_plan netloc_ok repr_of st;
          row = catch_all_row (cfg_email_app_name st)
      in if \<not> do_write
         then (Inr (), plan @ [''DRY-RUN '' @ em_dash @ '' nothing written. Re-run with --yes to upsert.''], w)
         else (case td_connect d (cfg_mongo_uri st) of
                 Inl e \<Rightarrow> (Inl e, plan, w)
               | Inr client \<Rightarrow>
                   (case td_upsert d client (cfg_mongo_db st) COLL_RMS_EMAIL_TEMPLATE (row_columns row KEY_COLUMNS)
                           (row_columns row [''title'', ''html'']) w of
                      (Inl e, w1) \<Rightarrow> (Inl e, plan, td_close d client w1)
                    | (Inr (upserted_id, modified), w1) \<Rightarrow>
                        (Inr (),
                         plan @
                         [(case upserted_id of
                             Some oid \<Rightarrow> ''inserted catch-all row: _id='' @ oid
                           | None \<Rightarrow> if modified \<noteq> 0 then ''updated existing catch-all row (refreshed title/html)''
                                    else ''catch-all row already up to date (no change)''),
                          ''OK '' @ em_dash @ '' operators can now edit it in WebManager (RMS Email Template).''],
                         td_close d client w1))))"

subsection \<open>A dry run changes and reveals nothing\<close>


subsection \<open>create_collection and the startup\<close>

text \<open>The driver of the tool on the services the startup uses.\<close>

definition startup_driver ::
  "('e, 'm, 'h, 'r, 'w) LifeEnv \<Rightarrow> (string \<Rightarrow> SchemaExc + 'm) \<Rightarrow> ('m \<Rightarrow> 'w \<Rightarrow> 'w) \<Rightarrow> ('m, 'w) schema_driver" where
  "startup_driver env connect close =
     \<lparr>sd_connect = connect, sd_list_collections = le_list_collections env, sd_create_collection = le_create_collection env,
      sd_create_index = le_create_index env, sd_close = close\<rparr>"

definition startup_schema ::
  "('e, 'm, 'h, 'r, 'w) LifeEnv \<Rightarrow> 'm \<Rightarrow> string \<Rightarrow> ('e, 'm, 'h, 'r, 'w) life_step" where
  "startup_schema env client db = run_steps [ensure_collection env (client, db), ensure_index env]"

lemma schema_exc_raised: "\<exists>e'. schema_exc (Inl e :: SchemaExc + unit) = Inl e'"
  by (cases e) (simp_all add: schema_exc_def)

lemma ensure_index_follows:
  "lf_world (snd (ensure_index env k)) = snd (le_create_index env COLL_PROFILE (lf_world k)) \<and>
   ((\<exists>e. fst (ensure_index env k) = Inl e) \<longleftrightarrow> (\<exists>e. fst (le_create_index env COLL_PROFILE (lf_world k)) = Inl e))"
  using schema_exc_raised
  by (cases "le_create_index env COLL_PROFILE (lf_world k)"; cases "fst (le_create_index env COLL_PROFILE (lf_world k))")
    (auto simp: ensure_index_def life_log_def schema_exc_def)

text \<open>
  With \<open>--yes\<close> the tool makes the schema calls of the startup, on the same state and with the same end,
  unless another instance creates the collection in between: the tool does not take that for success.
\<close>
theorem create_tool_mirrors_startup:
  assumes "connect (cfg_mongo_uri st) = Inr client" "\<forall>v. fst (le_create_collection env COLL_PROFILE v) \<noteq> Inl (OperationFailure 48)"
    and "startup_schema env client (cfg_mongo_db st) l = (r, l')"
    and "create_collection_run (startup_driver env connect close) netloc_ok st True (lf_world l) = (r', out, w')"
  shows "w' = close client (lf_world l') \<and> ((\<exists>e. r = Inl e) \<longleftrightarrow> (\<exists>e. r' = Inl e))"
proof -
  let ?d = "startup_driver env connect close"
  note index = ensure_index_follows [of env]
  obtain res1 out1 w1 where run: "create_schema ?d st client (lf_world l) = (res1, out1, w1)" by (cases "create_schema ?d st client (lf_world l)")
  have "w1 = lf_world l' \<and> ((\<exists>e. r = Inl e) \<longleftrightarrow> (\<exists>e. res1 = Inl e))"
  proof (cases "le_list_collections env client (cfg_mongo_db st) (lf_world l)")
    case listed: (Pair existing v)
    show ?thesis
    proof (cases existing)
      case (Inl e)
      then show ?thesis
        using run assms(3) listed
        by (cases e) (auto simp: create_schema_def startup_driver_def startup_schema_def ensure_collection_def schema_exc_def)
    next
      case names: (Inr ns)
      show ?thesis
      proof (cases "COLL_PROFILE \<in> set ns")
        case True
        then show ?thesis
          using run assms(3) listed names index [of "l\<lparr>lf_world := v\<rparr>"]
          by (cases "le_create_index env COLL_PROFILE v"; cases "ensure_index env (l\<lparr>lf_world := v\<rparr>)")
            (auto simp: create_schema_def startup_driver_def startup_schema_def ensure_collection_def Let_def split: sum.splits)
      next
        case missing: False
        obtain res v' where made: "le_create_collection env COLL_PROFILE v = (res, v')" by fastforce
        then have race: "res \<noteq> Inl (OperationFailure 48)" using assms(2) by (metis fst_conv)
        let ?k = "life_log [CreateCollection COLL_PROFILE] (l\<lparr>lf_world := v'\<rparr>)"
        have world: "lf_world ?k = v'" by (simp add: life_log_def)
        show ?thesis
        proof (cases res)
          case (Inl e)
          then show ?thesis
            using run assms(3) listed names missing made race
            by (cases e) (auto simp: create_schema_def startup_driver_def startup_schema_def ensure_collection_def Let_def life_log_def schema_exc_def)
        next
          case (Inr u)
          then show ?thesis
            using run assms(3) listed names missing made index [of ?k] unfolding world
            by (cases "le_create_index env COLL_PROFILE v'"; cases "ensure_index env ?k")
              (auto simp: create_schema_def startup_driver_def startup_schema_def ensure_collection_def Let_def schema_exc_def split: sum.splits)
        qed
      qed
    qed
  qed
  then show ?thesis using assms(1,4) run by (simp add: create_collection_run_def startup_driver_def Let_def)
qed

text \<open>The lost race: the startup goes on, the tool raises before it ensures the index.\<close>

lemma create_tool_loses_race:
  assumes "connect (cfg_mongo_uri st) = Inr client" "le_list_collections env client (cfg_mongo_db st) (lf_world l) = (Inr [], w1)"
    and "le_create_collection env COLL_PROFILE w1 = (Inl (OperationFailure 48), w2)" "le_create_index env COLL_PROFILE w2 = (Inr (), w3)"
  shows "fst (startup_schema env client (cfg_mongo_db st) l) = Inr ()"
    "fst (create_collection_run (startup_driver env connect close) netloc_ok st True (lf_world l)) = Inl (OperationFailure 48)"
  using assms
  by (simp_all add: startup_schema_def create_collection_run_def create_schema_def startup_driver_def Let_def
      ensure_collection_def ensure_index_def life_log_def schema_exc_def)

subsection \<open>The seeded template\<close>

definition key_filter :: "template_key \<Rightarrow> (string, json) dict" where
  "key_filter key = (case key of (a, p, m, c, s) \<Rightarrow> zip KEY_COLUMNS (map JStr [a, p, m, c, s]))"

text \<open>
  What is relied on of the upsert, \<open>docs\<close> being the template stored under each key: it touches no other
  key, and when it answers, the document of its key has the fields that were set.
\<close>

definition upsert_ok :: "('w \<Rightarrow> template_key \<rightharpoonup> (string, json) dict) \<Rightarrow> ('m, 'w) template_driver \<Rightarrow> bool" where
  "upsert_ok docs d \<longleftrightarrow>
     (\<forall>client w. docs (td_close d client w) = docs w) \<and>
     (\<forall>client db key fields w res w'.
        td_upsert d client db COLL_RMS_EMAIL_TEMPLATE (key_filter key) fields w = (res, w') \<longrightarrow>
          (\<forall>k. k \<noteq> key \<longrightarrow> docs w' k = docs w k) \<and>
          (\<forall>x. res = Inr x \<longrightarrow> (\<exists>doc. docs w' key = Some doc \<and> (\<forall>f v. map_of fields f = Some v \<longrightarrow> map_of doc f = Some v))))"

definition catch_all_key :: "string \<Rightarrow> template_key" where
  "catch_all_key a = (a, ''_'', ''_'', ALERT_CODE_RESOURCE_MONITOR, ''_'')"

lemma catch_all_filter:
  "row_columns (catch_all_row a) KEY_COLUMNS = key_filter (catch_all_key a)"
  "row_columns (catch_all_row a) [''title'', ''html''] = [(''title'', JStr DEFAULT_TITLE), (''html'', JStr DEFAULT_BODY)]"
  by (simp_all add: row_columns_def catch_all_row_def KEY_COLUMNS_def key_filter_def catch_all_key_def dict_get_def)

lemma seed_stores:
  assumes "upsert_ok docs d" "seed_template_run d netloc_ok repr_of st True w = (res, out, w')"
  shows "\<forall>k. k \<noteq> catch_all_key (cfg_email_app_name st) \<longrightarrow> docs w' k = docs w k"
    and "res = Inr () \<Longrightarrow> \<exists>doc. docs w' (catch_all_key (cfg_email_app_name st)) = Some doc \<and>
      map_of doc ''title'' = Some (JStr DEFAULT_TITLE) \<and> map_of doc ''html'' = Some (JStr DEFAULT_BODY)"
proof -
  let ?key = "catch_all_key (cfg_email_app_name st)"
  let ?fields = "[(''title'', JStr DEFAULT_TITLE), (''html'', JStr DEFAULT_BODY)]"
  have "(\<forall>k. k \<noteq> ?key \<longrightarrow> docs w' k = docs w k) \<and> (res = Inr () \<longrightarrow> (\<exists>doc. docs w' ?key = Some doc \<and>
      (\<forall>f v. map_of ?fields f = Some v \<longrightarrow> map_of doc f = Some v)))"
  proof (cases "td_connect d (cfg_mongo_uri st)")
    case (Inr client)
    obtain ans w1 where up: "td_upsert d client (cfg_mongo_db st) COLL_RMS_EMAIL_TEMPLATE (key_filter ?key) ?fields w = (ans, w1)"
      by fastforce
    then have laws: "\<forall>k. k \<noteq> ?key \<longrightarrow> docs w1 k = docs w k"
      "\<forall>x. ans = Inr x \<longrightarrow> (\<exists>doc. docs w1 ?key = Some doc \<and> (\<forall>f v. map_of ?fields f = Some v \<longrightarrow> map_of doc f = Some v))"
      "\<forall>client w. docs (td_close d client w) = docs w"
      using assms(1) unfolding upsert_ok_def by blast+
    have "w' = td_close d client w1 \<and> (res = Inr () \<longrightarrow> (\<exists>x. ans = Inr x))"
      using assms(2) Inr up by (auto simp: seed_template_run_def catch_all_filter Let_def split: sum.splits)
    then show ?thesis using laws by auto
  qed (use assms(2) in \<open>auto simp: seed_template_run_def Let_def\<close>)
  then show "\<forall>k. k \<noteq> ?key \<longrightarrow> docs w' k = docs w k"
    and "res = Inr () \<Longrightarrow> \<exists>doc. docs w' ?key = Some doc \<and>
      map_of doc ''title'' = Some (JStr DEFAULT_TITLE) \<and> map_of doc ''html'' = Some (JStr DEFAULT_BODY)"
    by auto
qed

text \<open>A template with the built-in texts renders what no template renders.\<close>

lemma default_texts_nonempty [simp]: "DEFAULT_TITLE \<noteq> []" "DEFAULT_BODY \<noteq> []"
  by (simp_all add: DEFAULT_TITLE_def DEFAULT_BODY_def)

lemma default_template_neutral:
  assumes "map_of doc ''title'' = Some (JStr DEFAULT_TITLE)" "map_of doc ''html'' = Some (JStr DEFAULT_BODY)"
  shows "build_alert_request breach eqp_info proc_name settings notify window affected members lookup timestamp (Some doc) category_id headline =
    build_alert_request breach eqp_info proc_name settings notify window affected members lookup timestamp None category_id headline"
proof -
  have "render_custom_body (Some doc) scalars rows settings = render_custom_body None scalars rows settings" for scalars rows
    using assms by (simp add: render_custom_body_def template_column_def dict_get_def jtruthy_def render_title_def)
  then show ?thesis by (simp only: build_alert_request_def)
qed

lemma find_template_found:
  assumes "\<forall>q\<in>set pre. docs q \<in> {None, Some doc}" "docs q = Some doc" "fallback_queries a p m c s = pre @ q # post"
  shows "find_template (\<lambda>k. Inr (docs k)) a p m c s = Inr (Some doc)"
proof -
  have "first_found (\<lambda>k. Inr (docs k)) (pre @ q # post) = Inr (Some doc)" using assms(1)
    by (induction pre) (use assms(2) in auto)
  then show ?thesis by (simp add: find_template_def assms(3))
qed


text \<open>Channels with another code do not see the row.\<close>

lemma first_found_cong: "(\<And>q. q \<in> set qs \<Longrightarrow> f q = g q) \<Longrightarrow> first_found f qs = first_found g qs"
  by (induction qs) (simp_all split: sum.splits option.splits)

lemma other_codes_unseeded:
  assumes "upsert_ok docs d" "seed_template_run d netloc_ok repr_of st True w = (res, out, w')" "c \<noteq> ALERT_CODE_RESOURCE_MONITOR"
  shows "find_template (\<lambda>k. Inr (docs w' k)) a p m c s = find_template (\<lambda>k. Inr (docs w k)) a p m c s"
proof -
  have "q \<noteq> catch_all_key (cfg_email_app_name st)" if "q \<in> set (fallback_queries a p m c s)" for q
    using that assms(3) by (auto simp: fallback_queries_def catch_all_key_def ALERT_CODE_RESOURCE_MONITOR_def)
  then have "first_found (\<lambda>k. Inr (docs w' k) :: MongoError + _) (fallback_queries a p m c s) =
      first_found (\<lambda>k. Inr (docs w k)) (fallback_queries a p m c s)"
    using seed_stores(1) [OF assms(1,2)] by (intro first_found_cong) (metis (no_types))
  then show ?thesis by (simp add: find_template_def)
qed

subsection \<open>Instances\<close>

text \<open>A template collection kept in a map.\<close>

definition filter_key :: "(string, json) dict \<Rightarrow> template_key" where
  "filter_key f = (case map (read_text f) KEY_COLUMNS of
     [Some a, Some p, Some m, Some c, Some s] \<Rightarrow> (a, p, m, c, s) | _ \<Rightarrow> ([], [], [], [], []))"

definition map_store :: "(unit, template_key \<rightharpoonup> (string, json) dict) template_driver" where
  "map_store =
     \<lparr>td_connect = (\<lambda>_. Inr ()),
      td_upsert = (\<lambda>_ _ _ key fields w.
        case w (filter_key key) of
          None \<Rightarrow> (Inr (Some ''oid'', 0), w(filter_key key \<mapsto> fields @ key))
        | Some doc \<Rightarrow> (Inr (None, 1), w(filter_key key \<mapsto> fields @ doc))),
      td_close = (\<lambda>_ w. w)\<rparr>"

lemma filter_key_inverse: "filter_key (key_filter key) = key"
  by (cases key) (simp add: filter_key_def key_filter_def KEY_COLUMNS_def read_text_def)

lemma map_store_ok: "upsert_ok (\<lambda>w. w) map_store"
  by (auto simp: upsert_ok_def map_store_def filter_key_inverse map_of_eq_None_iff split: option.splits)

definition idle_schema :: "(unit, nat) schema_driver" where
  "idle_schema =
     \<lparr>sd_connect = (\<lambda>_. Inr ()), sd_list_collections = (\<lambda>_ _ n. (Inr [], Suc n)), sd_create_collection = (\<lambda>_ n. (Inr (), Suc n)),
      sd_create_index = (\<lambda>_ n. (Inr (), Suc n)), sd_close = (\<lambda>_ n. n)\<rparr>"

definition secret_settings :: "string \<Rightarrow> MonitorSettings" where
  "secret_settings cred = default_settings\<lparr>cfg_mongo_uri := mongo_uri_of (cred @ ''@'' @ host_port ''host'' (Some 27017)) ''/EARS'' ''authSource=admin''\<rparr>"

lemma sample_uri_plain:
  "accepts_plain (\<lambda>_. True)" "credentials ''user:supersecret''" "credentials ''admin:hunter2''"
  "plain_member ''host'' (Some 27017)" "plain_tail ''/EARS'' ''authSource=admin''"
  by (auto simp: accepts_plain_def credentials_def plain_member_def plain_text_def plain_tail_def netloc_end_def char_code_def starts_with_def)



end
