(* ===== verification/Mail_Tools.thy ===== *)
theory Mail_Tools
  imports Settings
begin

text \<open>
  \<open>src/tools/alert_scenarios.py\<close>, \<open>send_test_alert.py\<close>, \<open>email_mock.py\<close> and \<open>mock_email_server.py\<close>: the sample alerts, the tool that sends
  them through the production mail client, and the mock of the mail server. The byte type \<open>'b\<close> of the
  wire, \<open>json.loads\<close> and \<open>json.dumps\<close> are arguments, as is how a value is printed.
\<close>

subsection \<open>alert_scenarios\<close>

datatype ToolError = UnknownScenario string | AlertRaised AlertError | ClientRaised ClientError

definition SCENARIOS :: "(string, string \<times> rat \<times> rat \<times> Severity \<times> string \<times> Operator) dict" where
  "SCENARIOS =
     [(''cpu'', (''cpu.max'', 92, 80, WARNING, ''cpu'', OP_GE)),
      (''disk'', (''disk.max'', 98, 95, CRITICAL, ''disk'', OP_GE)),
      (''process'', (''proc_required.min'', 0, 0, CRITICAL, ''process_watch'', OP_EQ))]"

definition SAMPLE_EQP_INFO :: eqp_doc where
  "SAMPLE_EQP_INFO =
     [(''localpc'', ''DEV-LOCALPC-01''), (''ipAddr'', ''10.0.0.42''), (''eqpModel'', ''MODEL-DEV-ABC''), (''line'', ''L-DEV'')]"

definition WINDOW_MINUTES :: int where "WINDOW_MINUTES = 10"

text \<open>The namespace has no \<open>rms_custom_body_enabled\<close>, which is read as false; the two limits are not read then.\<close>

definition scenario_settings :: "string \<Rightarrow> AlertSettings" where
  "scenario_settings app_name =
     \<lparr>grafana_base_url = [], grafana_dashboard_uid = [], rms_custom_body_enabled = False, email_app_name = app_name,
      rms_erb_row_limit = 0, rms_body_byte_cap = 0\<rparr>"

definition scenario_notify :: NotifyChannel where
  "scenario_notify =
     \<lparr>n_cooldown_minutes = WINDOW_MINUTES, n_email_code = ''RESOURCE_MONITOR'', n_email_subcode = None,
      n_group_by = By_eqp, n_email_group = None\<rparr>"

definition build_alert :: "string \<Rightarrow> string \<Rightarrow> ToolError + EmailAlertRequest" where
  "build_alert scenario app_name =
     (case map_of SCENARIOS scenario of
        None \<Rightarrow> Inl (UnknownScenario scenario)
      | Some (fct, current, threshold, severity, category, oper) \<Rightarrow>
          (let breach = \<lparr>t_eqp_id = ''DEV-EQP-01'', t_proc = ''@system'', t_rule_id = scenario @ ''_demo'', t_fact = fct,
                         t_category = category, t_op = oper, t_current_value = Some current, t_threshold_value = Num threshold,
                         t_severity = severity\<rparr>
           in map_sum AlertRaised (\<lambda>r. r)
                (build_alert_request breach SAMPLE_EQP_INFO ''DEV_PROC'' (scenario_settings app_name) scenario_notify
                   WINDOW_MINUTES None None [] None None None None)))"

subsection \<open>email_mock\<close>

definition SUCCESS_BODY :: "(string, json) dict" where
  "SUCCESS_BODY = [(''result'', JStr ''Success''), (''message'', JStr [])]"

definition HEADER_FIELDS :: "string list" where
  "HEADER_FIELDS = [''hostname'', ''ip'', ''app'', ''process'', ''model'', ''line'', ''code'', ''subcode'']"

definition MISSING :: string where "MISSING = ''<none>''"

definition success_response_body :: "(string, json) dict" where
  "success_response_body = SUCCESS_BODY"

definition pad_to :: "nat \<Rightarrow> string \<Rightarrow> string" where
  "pad_to n s = s @ replicate (n - length s) (CHR '' '')"

definition format_received ::
  "(json \<Rightarrow> string) \<Rightarrow> ((string, json) dict \<Rightarrow> string) \<Rightarrow> (string, json) dict \<Rightarrow> nat \<Rightarrow> string \<Rightarrow> string" where
  "format_received show_json dumps_indented payload number ts =
     str_join [CHR 0x0A]
       ([replicate 60 (CHR ''=''),
         [CHR 0xF0, CHR 0x9F, CHR 0x93, CHR 0xA7] @ ''  '' @ [CHR 0xEB, CHR 0xA9, CHR 0x94, CHR 0xEC, CHR 0x9D, CHR 0xBC] @ '' '' @
         [CHR 0xEC, CHR 0x88, CHR 0x98, CHR 0xEC, CHR 0x8B, CHR 0xA0] @ ''  #'' @ str_of_nat number @ ''   '' @ ts,
         replicate 60 (CHR ''-'')] @
        map (\<lambda>field. ''  '' @ pad_to 9 field @ '': '' @ show_json (dict_get payload field (JStr MISSING))) HEADER_FIELDS @
        [''  variables:'',
         (case dict_get payload ''variables'' (JStr MISSING) of
            JObj vars \<Rightarrow> dumps_indented vars
          | other \<Rightarrow> ''    '' @ show_json other),
         replicate 60 (CHR ''='')])"

subsection \<open>mock_email_server\<close>

datatype LoadError = JSONDecodeError | UnicodeDecodeError

datatype MockOutcome = Replied nat "(string, json) dict" | HandlerRaised

record MockServer =
  mock_seq :: nat
  mock_console :: "string list"

record 'b mock_env =
  me_loads :: "'b list \<Rightarrow> LoadError + json"
  me_dumps :: "(string, json) dict \<Rightarrow> 'b list"
  me_dumps_indented :: "(string, json) dict \<Rightarrow> string"
  me_show_json :: "json \<Rightarrow> string"
  me_now :: string

definition do_HEAD :: nat where "do_HEAD = 200"

text \<open>
  \<open>do_POST\<close> on the value of the \<open>Content-Length\<close> header and what the socket holds. Text that is not UTF-8
  and a payload without \<open>get\<close> are exceptions the handler does not catch; the latter has counted already.
\<close>

definition read_body :: "string option \<Rightarrow> 'b list \<Rightarrow> 'b list option" where
  "read_body header socket =
     (case (case header of None \<Rightarrow> Some 0 | Some h \<Rightarrow> py_int h) of
        None \<Rightarrow> None
      | Some n \<Rightarrow> Some (if n = 0 then [] else if n < 0 then socket else take (nat n) socket))"

definition do_POST :: "'b mock_env \<Rightarrow> string option \<Rightarrow> 'b list \<Rightarrow> MockServer \<Rightarrow> MockOutcome \<times> MockServer" where
  "do_POST env header socket srv =
     (case read_body header socket of
        None \<Rightarrow> (HandlerRaised, srv)
      | Some raw \<Rightarrow>
          (case (if raw = [] then Inr (JObj []) else me_loads env raw) of
             Inl JSONDecodeError \<Rightarrow> (Replied 400 [(''result'', JStr ''Fail''), (''message'', JStr ''invalid json'')], srv)
           | Inl UnicodeDecodeError \<Rightarrow> (HandlerRaised, srv)
           | Inr payload \<Rightarrow>
               (let srv1 = srv\<lparr>mock_seq := mock_seq srv + 1\<rparr>
                in case payload of
                     JObj kvs \<Rightarrow>
                       (Replied 200 success_response_body,
                        srv1\<lparr>mock_console := mock_console srv1 @
                               [format_received (me_show_json env) (me_dumps_indented env) kvs (mock_seq srv1) (me_now env)]\<rparr>)
                   | _ \<Rightarrow> (HandlerRaised, srv1))))"

text \<open>What the client sees of it: a body is dumped, sent with its length and loaded on the other side.\<close>

definition mock_post :: "'b mock_env \<Rightarrow> (string, json) dict \<Rightarrow> MockServer \<Rightarrow> PostOutcome \<times> MockServer" where
  "mock_post env payload srv =
     (let raw = me_dumps env payload
      in case do_POST env (Some (str_of_nat (length raw))) raw srv of
           (HandlerRaised, srv1) \<Rightarrow> (PostOtherError ''Server disconnected without sending a response.'', srv1)
         | (Replied status body, srv1) \<Rightarrow>
             (if 400 \<le> status then PostStatusError status (me_dumps_indented env body)
              else (case me_loads env (me_dumps env body) of Inl _ \<Rightarrow> PostInvalidJson [] | Inr data \<Rightarrow> PostReply data), srv1))"

subsection \<open>send_test_alert\<close>

definition ALL_SCENARIOS :: "string list" where
  "ALL_SCENARIOS = [''cpu'', ''disk'', ''process'']"

definition scenario_list :: "string \<Rightarrow> string list" where
  "scenario_list choice = (if choice = ''all'' then ALL_SCENARIOS else [choice])"

text \<open>The loop: the number of mails sent, and a line per mail.\<close>

fun send_scenarios ::
  "(json \<Rightarrow> string) \<Rightarrow> ((string, json) dict \<Rightarrow> 'w \<Rightarrow> PostOutcome \<times> 'w) \<Rightarrow> real \<Rightarrow> string \<Rightarrow> string list \<Rightarrow> nat \<Rightarrow>
     EmailAlertClient \<Rightarrow> 'w \<Rightarrow> (ToolError + nat) \<times> (string \<times> bool) list \<times> EmailAlertClient \<times> 'w" where
  "send_scenarios show_json post now app_name [] sent c w = (Inr sent, [], c, w)"
| "send_scenarios show_json post now app_name (scenario # rest) sent c w =
     (case build_alert scenario app_name of
        Inl e \<Rightarrow> (Inl e, [], c, w)
      | Inr req \<Rightarrow>
          (let w1 = (if http_client c then snd (post (to_payload req) w) else w)
           in case send_alert False show_json (\<lambda>p. fst (post p w)) now req c of
                (Inl e, c1) \<Rightarrow> (Inl (ClientRaised e), [], c1, w1)
              | (Inr ok, c1) \<Rightarrow>
                  (case send_scenarios show_json post now app_name rest (sent + (if ok then 1 else 0)) c1 w1 of
                     (res, lines, c2, w2) \<Rightarrow> (res, (scenario, ok) # lines, c2, w2))))"

text \<open>The exit code, the lines, the client (closed on every way out of the loop) and the world.\<close>

definition send_test_run ::
  "MonitorSettings \<Rightarrow> bool \<Rightarrow> (json \<Rightarrow> string) \<Rightarrow> ((string, json) dict \<Rightarrow> 'w \<Rightarrow> PostOutcome \<times> 'w) \<Rightarrow> real \<Rightarrow> string list \<Rightarrow> 'w \<Rightarrow>
     (ToolError + int) \<times> (string \<times> bool) list \<times> EmailAlertClient \<times> 'w" where
  "send_test_run st head_answers show_json post now scenarios w =
     (if cfg_debug_read_only st then (Inr 1, [], new_EmailAlertClient, w)
      else (case email_connect False head_answers new_EmailAlertClient of
              (Inl _, c) \<Rightarrow> (Inr 1, [], c, w)
            | (Inr _, c) \<Rightarrow>
                (case send_scenarios show_json post now (cfg_email_app_name st) scenarios 0 c w of
                   (res, lines, c1, w1) \<Rightarrow>
                     (map_sum (\<lambda>e. e) (\<lambda>sent. if sent = length scenarios then 0 else 1) res, lines, email_close c1, w1))))"

subsection \<open>The samples\<close>

lemma plain_request:
  assumes "displayable (t_current_value breach)" "\<not> rms_custom_body_enabled settings"
  shows "\<exists>r. build_alert_request breach eqp_info proc_name settings notify window None members lookup timestamp template category_id headline = Inr r \<and>
     app r = email_app_name settings \<and> distinct (map fst (variables r))"
proof -
  obtain current where "round_display (t_current_value breach) = Inr current" using round_display_Inr [OF assms(1)] by blast
  with assms(2) show ?thesis by (cases "resolve_code_subcode notify breach") (simp add: build_alert_request_def Let_def)
qed

lemma build_alert_samples:
  assumes "scenario \<in> set ALL_SCENARIOS"
  shows "\<exists>r. build_alert scenario app_name = Inr r \<and> app r = app_name \<and> distinct (map fst (variables r))"
proof -
  obtain f current threshold severity category oper where
    row: "map_of SCENARIOS scenario = Some (f, current, threshold, severity, category, oper)" "current \<in> {92, 98, 0}"
    using assms by (auto simp: ALL_SCENARIOS_def SCENARIOS_def)
  have "displayable (Some 92)" "displayable (Some 98)" "displayable (Some 0)" by code_simp+
  with row(2) have shows_value: "displayable (Some current)" by auto
  let ?breach = "\<lparr>t_eqp_id = ''DEV-EQP-01'', t_proc = ''@system'', t_rule_id = scenario @ ''_demo'', t_fact = f,
      t_category = category, t_op = oper, t_current_value = Some current, t_threshold_value = Num threshold, t_severity = severity\<rparr>"
  obtain r where
    "build_alert_request ?breach SAMPLE_EQP_INFO ''DEV_PROC'' (scenario_settings app_name) scenario_notify WINDOW_MINUTES None None [] None None None None = Inr r"
    "app r = email_app_name (scenario_settings app_name)" "distinct (map fst (variables r))"
    using plain_request [of ?breach "scenario_settings app_name" SAMPLE_EQP_INFO "''DEV_PROC''" scenario_notify WINDOW_MINUTES None "[]" None None None None] shows_value
    by (auto simp: scenario_settings_def)
  then show ?thesis using row(1) by (simp add: build_alert_def Let_def scenario_settings_def)
qed

subsection \<open>The wire\<close>

text \<open>A value Python can hold: no object has a key twice.\<close>

fun dict_json :: "json \<Rightarrow> bool" where
  "dict_json (JObj kvs) \<longleftrightarrow> distinct (map fst kvs) \<and> (\<forall>x\<in>set kvs. dict_json (snd x))"
| "dict_json (JArr xs) \<longleftrightarrow> (\<forall>x\<in>set xs. dict_json x)"
| "dict_json _ \<longleftrightarrow> True"

text \<open>What is relied on of \<open>json\<close>: a dictionary that was dumped loads as that dictionary.\<close>

definition json_ok :: "'b mock_env \<Rightarrow> bool" where
  "json_ok env \<longleftrightarrow>
     (\<forall>kvs. dict_json (JObj kvs) \<longrightarrow> me_dumps env kvs \<noteq> [] \<and> me_loads env (me_dumps env kvs) = Inr (JObj kvs))"

lemma payload_dict_json:
  assumes "distinct (map fst (variables r))"
  shows "dict_json (JObj (to_payload r))"
proof -
  have "map fst (map (\<lambda>(k, v). (k, JStr v)) (variables r)) = map fst (variables r)" by (simp add: comp_def case_prod_beta)
  with assms have "dict_json (JObj (map (\<lambda>(k, v). (k, JStr v)) (variables r)))" by (auto simp del: map_map)
  then show ?thesis by (auto simp: to_payload_def optional_entry_def split: option.splits)
qed

lemma mock_accepts:
  assumes "json_ok env" "dict_json (JObj payload)"
  shows "\<exists>shown. mock_post env payload srv =
    (PostReply (JObj SUCCESS_BODY), \<lparr>mock_seq = mock_seq srv + 1, mock_console = mock_console srv @ [shown]\<rparr>)"
proof -
  let ?raw = "me_dumps env payload"
  have codec: "?raw \<noteq> []" "me_loads env ?raw = Inr (JObj payload)" "me_loads env (me_dumps env SUCCESS_BODY) = Inr (JObj SUCCESS_BODY)"
    using assms by (simp_all add: json_ok_def SUCCESS_BODY_def)
  then have "read_body (Some (str_of_nat (length ?raw))) ?raw = Some ?raw"
    by (simp add: read_body_def py_int_str_of_nat)
  with codec show ?thesis by (cases srv) (simp add: mock_post_def do_POST_def success_response_body_def Let_def)
qed

lemma success_accepted: "reply_success (JObj SUCCESS_BODY)"
  by code_simp

lemma mock_delivers:
  assumes "json_ok env" "build_alert scenario a = Inr req" "scenario \<in> set ALL_SCENARIOS" "http_client c"
  shows "send_alert False show_json (\<lambda>p. fst (mock_post env p srv)) now req c = (Inr True, c)"
    "\<exists>shown. snd (mock_post env (to_payload req) srv) = \<lparr>mock_seq = mock_seq srv + 1, mock_console = mock_console srv @ [shown]\<rparr>"
proof -
  have "dict_json (JObj (to_payload req))"
    using build_alert_samples [OF assms(3), of a] assms(2) by (intro payload_dict_json) simp
  from mock_accepts [OF assms(1) this, of srv] obtain shown where
    "mock_post env (to_payload req) srv = (PostReply (JObj SUCCESS_BODY), \<lparr>mock_seq = mock_seq srv + 1, mock_console = mock_console srv @ [shown]\<rparr>)"
    by blast
  then show "send_alert False show_json (\<lambda>p. fst (mock_post env p srv)) now req c = (Inr True, c)"
    "\<exists>shown. snd (mock_post env (to_payload req) srv) = \<lparr>mock_seq = mock_seq srv + 1, mock_console = mock_console srv @ [shown]\<rparr>"
    using assms(4) success_accepted by (simp_all add: send_alert_def Let_def)
qed

lemma send_scenarios_mock:
  assumes "json_ok env" "set scenarios \<subseteq> set ALL_SCENARIOS" "http_client c"
  shows "\<exists>texts. send_scenarios show_json (mock_post env) now a scenarios sent c srv =
    (Inr (sent + length scenarios), map (\<lambda>s. (s, True)) scenarios, c,
     \<lparr>mock_seq = mock_seq srv + length scenarios, mock_console = mock_console srv @ texts\<rparr>) \<and> length texts = length scenarios"
  using assms(2)
proof (induction scenarios arbitrary: sent srv)
  case Nil
  then show ?case by simp
next
  case (Cons s rest)
  then have s: "s \<in> set ALL_SCENARIOS" by simp
  obtain req where req: "build_alert s a = Inr req" using build_alert_samples [OF s] by blast
  note sends = mock_delivers [OF assms(1) req s assms(3)]
  obtain shown where posted: "snd (mock_post env (to_payload req) srv) = \<lparr>mock_seq = mock_seq srv + 1, mock_console = mock_console srv @ [shown]\<rparr>"
    using sends(2) by blast
  let ?srv = "\<lparr>mock_seq = mock_seq srv + 1, mock_console = mock_console srv @ [shown]\<rparr>"
  from Cons.IH [of "Suc sent" ?srv] Cons.prems obtain texts where
    "send_scenarios show_json (mock_post env) now a rest (Suc sent) c ?srv =
      (Inr (Suc sent + length rest), map (\<lambda>s. (s, True)) rest, c,
       \<lparr>mock_seq = mock_seq srv + 1 + length rest, mock_console = mock_console srv @ [shown] @ texts\<rparr>) \<and> length texts = length rest"
    by auto
  then show ?case
    by (intro exI [of _ "shown # texts"]) (simp add: req assms(3) sends(1) posted)
qed

text \<open>
  C39. Against the mock server the test tool succeeds: for any choice of the sample scenarios each mail is
  built, posted, counted and shown once by the server and taken as sent by the production client,
  the exit code is zero, and the client ends closed with no loss recorded.
\<close>
theorem test_alerts_reach_mock:
  assumes "json_ok env" "set scenarios \<subseteq> set ALL_SCENARIOS" "\<not> cfg_debug_read_only st"
  shows "\<exists>c srv'. send_test_run st True show_json (mock_post env) now scenarios srv =
      (Inr 0, map (\<lambda>s. (s, True)) scenarios, c, srv') \<and>
    mock_seq srv' = mock_seq srv + length scenarios \<and> length (mock_console srv') = length (mock_console srv) + length scenarios \<and>
    \<not> http_client c \<and> outbox c = []"
proof -
  let ?c = "new_EmailAlertClient\<lparr>http_client := True\<rparr>"
  obtain texts where
    "send_scenarios show_json (mock_post env) now (cfg_email_app_name st) scenarios 0 ?c srv =
      (Inr (0 + length scenarios), map (\<lambda>s. (s, True)) scenarios, ?c,
       \<lparr>mock_seq = mock_seq srv + length scenarios, mock_console = mock_console srv @ texts\<rparr>)" "length texts = length scenarios"
    using send_scenarios_mock [OF assms(1,2), of ?c show_json now "cfg_email_app_name st" 0 srv] by auto
  then show ?thesis
    using assms(3) by (simp add: send_test_run_def email_connect_def health_check_def Let_def email_close_def new_EmailAlertClient_def)
qed

subsection \<open>The exit code\<close>

lemma send_scenarios_count:
  assumes "send_scenarios show_json post now a scenarios sent c w = (Inr delivered, lines, c', w')"
  shows "map fst lines = scenarios \<and> delivered = sent + length (filter snd lines)"
  using assms
proof (induction scenarios arbitrary: sent c w lines)
  case Nil
  then show ?case by simp
next
  case (Cons s rest)
  then show ?case by (fastforce simp: Let_def split: sum.splits prod.splits if_splits)
qed

text \<open>With any server: the tool exits with zero exactly when it sent every mail it was asked for.\<close>

lemma exit_zero_all_sent:
  assumes "send_test_run st head_answers show_json post now scenarios w = (Inr n, lines, c, w')" "scenarios \<noteq> []"
  shows "n = 0 \<longleftrightarrow> lines = map (\<lambda>s. (s, True)) scenarios"
proof (cases "cfg_debug_read_only st \<or> \<not> head_answers")
  case True
  then show ?thesis using assms by (auto simp: send_test_run_def email_connect_def health_check_def Let_def split: if_splits)
next
  case False
  let ?run = "send_scenarios show_json post now (cfg_email_app_name st) scenarios 0 (new_EmailAlertClient\<lparr>http_client := True\<rparr>) w"
  obtain delivered c1 where run: "?run = (Inr delivered, lines, c1, w')" "n = (if delivered = length scenarios then 0 else 1)"
    using assms(1) False
    by (cases ?run; cases "fst ?run") (auto simp: send_test_run_def email_connect_def health_check_def Let_def split: if_splits)
  note counted = send_scenarios_count [OF run(1)]
  have "length (filter snd lines) = length lines \<longleftrightarrow> (\<forall>x\<in>set lines. snd x)"
    by (metis filter_id_conv length_filter_less less_irrefl)
  moreover have "(\<forall>x\<in>set lines. snd x) \<longleftrightarrow> lines = map (\<lambda>s. (s, True)) (map fst lines)"
    by (induction lines) auto
  moreover have "length lines = length scenarios" using counted by auto
  ultimately show ?thesis using run(2) counted by auto
qed

subsection \<open>An instance\<close>

text \<open>A wire that carries one JSON value per unit.\<close>

definition json_wire :: "json mock_env" where
  "json_wire =
     \<lparr>me_loads = (\<lambda>raw. case raw of [j] \<Rightarrow> Inr j | _ \<Rightarrow> Inl JSONDecodeError), me_dumps = (\<lambda>kvs. [JObj kvs]),
      me_dumps_indented = (\<lambda>_. []), me_show_json = (\<lambda>_. []), me_now = ''2026-06-14 09:00:00''\<rparr>"

theorem test_alerts_reach_mock_witness:
  "\<exists>c srv'. send_test_run default_settings True (\<lambda>_. []) (mock_post json_wire) 0 (scenario_list ''all'') \<lparr>mock_seq = 0, mock_console = []\<rparr> =
     (Inr 0, [(''cpu'', True), (''disk'', True), (''process'', True)], c, srv') \<and> mock_seq srv' = 3"
proof -
  have "json_ok json_wire" by (simp add: json_ok_def json_wire_def)
  moreover have "set (scenario_list ''all'') \<subseteq> set ALL_SCENARIOS" by (simp add: scenario_list_def)
  moreover have "\<not> cfg_debug_read_only default_settings" by (simp add: default_settings_def)
  ultimately show ?thesis
    using test_alerts_reach_mock [of json_wire "scenario_list ''all''" default_settings "\<lambda>_. []" 0 "\<lparr>mock_seq = 0, mock_console = []\<rparr>"]
    by (auto simp: scenario_list_def ALL_SCENARIOS_def)
qed

end
