(* ===== verification/Spec2Isabelle.thy ===== *)
theory Spec2Isabelle
  imports Cluster Repository Threshold Cooldown Engine Alert_Services Connections Es_Client Profiles_Api Seed Mongo_Documents
    Analysis_Lock Analysis_Slots Reconcile_Loop Lifecycle Zk_Startup Logging_Config Metrics Operator_Tools Mail_Tools
begin

text \<open>
  \<^bold>\<open>ResourceMonitorServer\<close>. A service that watches the equipment of a plant: several instances share the
  processes of the plant among themselves, each runs an analysis per process and interval, reads
  measured values from Elasticsearch, evaluates the rules of the profile that applies to each
  equipment, and mails the breaches, once per cooldown. Profiles are documents in Mongo that cascade from
  all equipment over a process and a model to one equipment; operators edit them through an HTTP API.

  \<^bold>\<open>Parts and how they work together.\<close> At startup (\<open>main.py\<close>, \<open>startup/\<close>) an instance connects its clients, prepares
  the repositories, registers in ZooKeeper and takes part in a leader election. The leader deals the
  processes out to the members and writes the assignments; every instance follows its own assignment and
  gives its scheduler one job per process and interval. A job takes the lock of its process, resolves
  the profile of each equipment, buckets the equipment by profile, asks Elasticsearch once per measure
  and bucket, evaluates the due rules and hands the breaches to the dispatch, which groups them,
  suppresses what is cooling down, renders a mail, sends it and starts the cooldown. The API writes profiles with a
  version check and has the scheduler follow the new cadence.

  \<^bold>\<open>Theories and sources\<close> (paths under \<open>src/src/\<close>). Definitions carry the names of the code, records have the
  fields of the classes, \<open>'e + 'a\<close> is a call that may raise, and every function that changes an object
  returns the new one.

  \<^item> \<open>RMS_Prelude\<close>, \<open>Py_Strings\<close>, \<open>Json\<close>, \<open>Reachability\<close>: results and binds, dictionaries as association lists in
    insertion order, the last entry per key, Python's string operations, JSON values with the ways
    Python reads them, reachable states and inductive invariants (a locale).
  \<^item> \<open>Fact_Catalog\<close> (\<open>analyzer/fact_catalog.py\<close>), \<open>Models\<close>, \<open>Cascade\<close>, \<open>Effective_Checks\<close>, \<open>Mongo_Documents\<close> (\<open>db/models.py\<close>): the
    tables of facts; profiles with their validators and signature; \<open>fold_profiles\<close>, which keeps for each
    key the entry of the most specific document (a locale for the three layers); \<open>validate_effective\<close> and
    \<open>lint_effective\<close> against declarative conditions; \<open>to_mongo\<close> and \<open>from_mongo\<close>, one interpretation of the
    locale \<open>codec\<close> per model, the round trip, and that whatever loads is well formed.
  \<^item> \<open>Repository\<close> (\<open>db/repository.py\<close>), \<open>Seed\<close> (\<open>db/seed.py\<close>), \<open>Profiles_Api\<close> (\<open>api/profiles.py\<close>): the cascade query, versioned
    writes and the resolve cache, which is coherent after any sequence of operations; the cadence;
    equipment and templates; the built-in profile and its seeding; all endpoints of the
    API, with the integrity of what they store, no lost updates, unchanged state after a refusal, the
    provenance report, and the scheduler following an edit.
  \<^item> \<open>Zk_Client\<close>, \<open>Leader_Election\<close>, \<open>Assignments\<close>, \<open>Partition\<close>, \<open>Cluster\<close> (\<open>distributed/\<close>): epochs of the leader, the round robin,
    redistribution with its retries and clean-up, application of assignments, session loss and
    recovery; \<open>Cluster\<close> composes them into a step relation over all instances, in which two instances
    that hold one stamp never share a process.
  \<^item> \<open>Analysis_Lock\<close> (\<open>distributed/lock.py\<close>): the two layers of the lock as a step relation over instances and tasks,
    with cancellations, failed releases and lost sessions at every suspension point. \<open>Analysis_Slots\<close> (\<open>run_analysis\<close>
    of \<open>engine.py\<close>, \<open>_get_engine\<close> of \<open>jobs.py\<close>): the semaphore behind it, asyncio's with the futures of its waiters; at
    most three analyses at a time, no slot lost, first come first served.
  \<^item> \<open>Scheduler\<close>, \<open>Reconcile_Loop\<close> (\<open>scheduler/jobs.py\<close>): the job store, reload, reconcile and its loop, the job wrapper
    and the shutdown.
  \<^item> \<open>Es_Queries\<close> (\<open>es/queries.py\<close>), \<open>Es_Parser\<close> (\<open>analyzer/es_parser.py\<close>, \<open>metric_resolver.py\<close>), \<open>Threshold\<close> (\<open>analyzer/threshold.py\<close>), \<open>Engine\<close>
    (\<open>analyzer/engine.py\<close>): index selection and request bodies, reading of answers, rule evaluation against
    a declarative reading of a rule, buckets and the tick.
  \<^item> \<open>Body_Renderer\<close> (\<open>alert/body_renderer.py\<close>, \<open>tokens.py\<close>), \<open>Alert_Builder\<close> (\<open>analyzer/alert_builder.py\<close>, \<open>alert/models.py\<close>), \<open>Email_Client\<close>
    (\<open>alert/email_client.py\<close>), \<open>Cooldown\<close> (\<open>cache/cooldown.py\<close>), \<open>Dispatch\<close> (the second half of \<open>engine.py\<close>), \<open>Alert_Services\<close>: rendering with
    escaping and truncation, the request, the outcomes of a send and the bounded outbox, the cooldown in
    Redis with its local fallback, grouping and sending; \<open>Alert_Services\<close> puts the real cooldown and mail client
    under the dispatch.
  \<^item> \<open>Connections\<close> (\<open>db/client.py\<close>, \<open>cache/redis_client.py\<close>, \<open>config/settings.py\<close>), \<open>Es_Client\<close> (\<open>es/client.py\<close>): connecting with bounded retries,
    sentinel entries, list settings, and the caches of the Elasticsearch client, whose answers are never older
    than their time to live.
  \<^item> \<open>App_State\<close> (\<open>api/deps.py\<close>), \<open>Endpoints\<close> (\<open>api/health.py\<close>, \<open>api/admin.py\<close>, \<open>middleware.py\<close>), \<open>Infra\<close> (\<open>startup/infra.py\<close>), \<open>Lifecycle\<close> (\<open>main.py\<close>, the rest of
    \<open>startup/\<close>): probes and operator endpoints, connecting with rollback, the boot sequence, the teardown; a locale
    for what the phases leave alone carries the lifetime theorems.
  \<^item> \<open>Settings\<close> (\<open>config/settings.py\<close>), \<open>Logging_Config\<close> (\<open>logging_config.py\<close>), \<open>Metrics\<close> (\<open>api/metrics.py\<close>), \<open>Zk_Startup\<close> (\<open>connect\<close> of
    \<open>distributed/zk_client.py\<close>): every setting with its default and the environment that overrides it; the tree of
    loggers, in which every record is written once; the metrics with all updates the program makes; the
    arguments of the ZooKeeper client and its start under a budget, which \<open>zk_connect\<close> abstracts.
  \<^item> \<open>Uri_Mask\<close>, \<open>Operator_Tools\<close>, \<open>Mail_Tools\<close> (\<open>tools/\<close> beside \<open>src/src/\<close>): masking of credentials over \<open>urllib.parse\<close>; the tools
    that create the collection, by the calls of the startup, and seed the catch-all mail template, which
    changes no mail; the sample alerts sent through the production client to the mock server.
  \<^item> This theory: the way of a stored document into an alert.

  \<^bold>\<open>Parameters.\<close> Code outside the repository is an argument, with what is relied on as a hypothesis: the Mongo
    collection (\<open>mongo_reads_ok\<close>, \<open>mongo_writes_ok\<close>: reads return the matching documents in any order, writes
    are atomic per document and respect the unique scope), Redis (a key set with a time to live exists until
    it ends or is deleted), kazoo (a committed transaction is all or nothing, an election callback runs for
    one member at a time, a lock node has one holder, the end of a session deletes its nodes), cachetools (an
    entry may be gone at any time and is gone after its time to live), the form of an Elasticsearch
    answer, the APScheduler job store (a dictionary by job id), httpx outcomes, the JSON codec (a dictionary that was dumped loads as that dictionary), the upsert of the template
    collection (it touches one key and sets its fields), the digests (no collision on
    the values compared), the order in which Python iterates a set, pydantic's conversion of scalars (a value
    of the declared type is kept). Each property with such a hypothesis has a witness on a concrete instance.

  \<^bold>\<open>Choices and bounds.\<close> Integers are unbounded and floats are rationals or reals: the code compares, scales
    and prints finite values, and no nan or negative zero is modelled. A float is printed with at most
    \<open>max_places\<close> places (400), enough for every double. Strings are lists of bytes in UTF-8. Times are
    microseconds or seconds since the epoch. One request or one phase sees one value of the clock. Loops
    are structural recursions over what they iterate (attempts, rounds, documents), so there is no fuel to
    run out of; the unbounded loop of the reconcile task is a recursion over the rounds so far. A
    cancellation is an outcome of the calls that can be cancelled; in \<open>Connections\<close> it is not delivered inside a
    sleep.

  \<^bold>\<open>Not modelled.\<close> What lies behind the parameters: the routing and parsing of FastAPI, uvicorn, argparse and the
    sockets of the mock server, pydantic's conversion of text, the processors of structlog and the text exposition
    of the metrics. Log calls inside the components appear only where an operator relies on them. There is no
    model of time passing between the steps of different components, so the budgets and intervals are stated per component.
\<close>

section \<open>From stored documents to alerts\<close>

text \<open>
  The active rules of an effective profile, in terms of the documents it is folded from: a rule is
  the one of the last document that declares its id, and that document and the rule are enabled.
\<close>

definition decisive :: "MonitorProfile list \<Rightarrow> Rule \<Rightarrow> bool" where
  "decisive ps r \<longleftrightarrow>
     (\<exists>pre p post. ps = pre @ p # post \<and> r \<in> set (p_rules p) \<and> p_enabled p \<and> r_enabled r \<and>
        (\<forall>q\<in>set post. r_id r \<notin> r_id ` set (p_rules q)))"

lemma active_rule_iff:
  assumes "fold_profiles now ps target = Inr eff" "\<forall>p\<in>set ps. distinct (map r_id (p_rules p))"
  shows "r \<in> set (p_rules eff) \<and> r_enabled r \<longleftrightarrow> decisive ps r"
proof
  assume r: "r \<in> set (p_rules eff) \<and> r_enabled r"
  from fold_rule_in [OF assms(1) conjunct1 [OF r]] obtain pre p post r0 where
    p: "ps = pre @ p # post" "r0 \<in> set (p_rules p)" "r_id r0 = r_id r" "r = bake_rule p r0"
       "\<forall>q\<in>set post. r_id r \<notin> r_id ` set (p_rules q)"
    by (rule winner_declared_rule)
  with r have "p_enabled p" "r_enabled r0" by (auto simp: bake_rule_def)
  moreover from this p(4) have "r = r0" by (simp add: bake_rule_def)
  ultimately show "decisive ps r" using p unfolding decisive_def by blast
next
  assume "decisive ps r"
  then obtain pre p post where p: "ps = pre @ p # post" "r \<in> set (p_rules p)" "p_enabled p" "r_enabled r"
    "\<forall>q\<in>set post. r_id r \<notin> r_id ` set (p_rules q)"
    unfolding decisive_def by blast
  have "last_with r_id (r_id r) (p_rules p) = Some r"
    using assms(2) p(1,2) by (simp add: last_with_distinct)
  then have "declared_rule p (r_id r) = Some r" using p(3,4) by (simp add: declared_rule_def bake_rule_def)
  moreover have "winner (\<lambda>p. declared_rule p (r_id r)) post = None"
    using p(5) by (auto simp: winner_None_iff declared_rule_def last_with_None_iff)
  ultimately have "winner (\<lambda>p. declared_rule p (r_id r)) ps = Some r"
    using winner_append [of "\<lambda>p. declared_rule p (r_id r)" "pre @ [p]" post] by (simp add: p(1))
  moreover have "last_with r_id (r_id r) (p_rules eff) = winner (\<lambda>p. declared_rule p (r_id r)) ps"
    using assms(1) by (auto simp: fold_profiles_eq rule_layer.fold_last_with)
  ultimately show "r \<in> set (p_rules eff) \<and> r_enabled r" using last_with_Some_in p(4) by fastforce
qed

lemma loaded_documents_wf:
  assumes "\<forall>doc\<in>set docs. \<forall>kvs. map_of doc ''notify'' = Some (JObj kvs) \<longrightarrow> distinct (map fst kvs)"
    and "map_res (from_mongo co now) docs = Inr ps"
  shows "\<forall>p\<in>set ps. wf_profile p"
  using assms
proof (induction docs arbitrary: ps)
  case (Cons doc docs)
  from Cons.prems(2) obtain p ps' where p: "from_mongo co now doc = Inr p" "map_res (from_mongo co now) docs = Inr ps'" "ps = p # ps'"
    by (cases "from_mongo co now doc"; cases "map_res (from_mongo co now) docs") simp_all
  have "wf_document p" by (rule loaded_wf [OF _ p(1)]) (meson Cons.prems(1) list.set_intros(1))
  moreover have "\<forall>p\<in>set ps'. wf_profile p" by (rule Cons.IH [OF _ p(2)]) (meson Cons.prems(1) list.set_intros(2))
  ultimately show ?case by (simp add: p(3) wf_document_def)
qed simp

text \<open>
  C3. The way of a stored document into an alert: take any documents, written by hand or by the API, in
  cascade order. If they load, evaluating the profile they fold to never raises on what Elasticsearch
  reported, and an alert is pending for an equipment, a process and a rule id exactly when some
  document declares that rule, no later document declares the id again, document and rule are
  enabled, the rule is due, it fires on the reported values, and some document declares the channel
  it names.
\<close>
theorem documents_decide_alerts:
  assumes "\<forall>doc\<in>set docs. \<forall>kvs. map_of doc ''notify'' = Some (JObj kvs) \<longrightarrow> distinct (map fst kvs)"
    and "map_res (from_mongo co now) docs = Inr ps" "fold_profiles now ps target = Inr eff"
    and "is_order (es_order_targets settings)" "bucket_results d settings n t eff (due_rules i eff) eqps = Inr results"
  shows "\<exists>pending. evaluate_bucket d settings n t eff (due_rules i eff) eqps = Inr pending \<and> distinct (map incident pending) \<and>
    (\<forall>e pr k. (e, pr, k) \<in> incident ` set pending \<longleftrightarrow>
       (\<exists>r. decisive ps r \<and> r_id r = k \<and> r_interval_minutes r = i \<and> rule_fires r (target_facts results (e, pr)) \<and>
            (\<exists>p\<in>set ps. r_notify r \<in> fst ` set (p_notify p))))"
proof -
  note wf = loaded_documents_wf [OF assms(1,2)]
  have due: "r \<in> set (due_rules i eff) \<longleftrightarrow> decisive ps r \<and> r_interval_minutes r = i" for r
    using active_rule_iff [OF assms(3), of r] wf by (auto simp: in_due_rules wf_profile_def)
  have "map_of (p_notify eff) k = winner (\<lambda>p. declared_channel p k) ps" for k
    using assms(3) by (auto simp: fold_profiles_eq notify_layer.fold_lookup split: option.splits)
  then have channel: "map_of (p_notify eff) k \<noteq> None \<longleftrightarrow> (\<exists>p\<in>set ps. k \<in> fst ` set (p_notify p))" for k
    by (simp add: winner_None_iff declared_channel_def last_with_None_iff)
  from bucket_exact [OF due_rules_wf [OF fold_profiles_wf [OF wf assms(3)]] assms(4,5)] obtain pending where
    "evaluate_bucket d settings n t eff (due_rules i eff) eqps = Inr pending" "distinct (map incident pending)"
    "incident ` set pending = {(e, pr, r_id r) | e pr r. r \<in> set (due_rules i eff) \<and>
       rule_fires r (target_facts results (e, pr)) \<and> map_of (p_notify eff) (r_notify r) \<noteq> None}"
    by blast
  then show ?thesis unfolding due channel by (intro exI [of _ pending]) auto
qed

lemma sample_loads:
  "map_res (from_mongo strict_coercion 0) [to_mongo str_of_int sample_profile] = Inr [sample_profile]"
  using read_back_profile [OF strict_coerces sample_document_wf, of 0 None] by (simp add: sample_profile_def)

lemma sample_folds: "fold_profiles 0 [sample_profile] (p_scope sample_profile) = Inr sample_profile"
  by code_simp

theorem documents_decide_alerts_witness:
  "\<exists>pending. evaluate_bucket sample_deps sample_engine_settings ''ETCH'' 0 sample_profile [sample_rule] [''E1''] = Inr pending \<and>
     (''E1'', ''@system'', ''disk_full'') \<in> incident ` set pending"
proof -
  have results: "bucket_results sample_deps sample_engine_settings ''ETCH'' 0 sample_profile (due_rules 5 sample_profile) [''E1''] = Inr sample_results"
    using sample_bucket_results sample_due by simp
  have keys: "\<forall>doc\<in>set [to_mongo str_of_int sample_profile]. \<forall>kvs. map_of doc ''notify'' = Some (JObj kvs) \<longrightarrow> distinct (map fst kvs)"
    by (auto simp: to_mongo_def sample_profile_def)
  have r: "decisive [sample_profile] sample_rule" "r_id sample_rule = ''disk_full''" "r_interval_minutes sample_rule = 5"
    "r_notify sample_rule \<in> fst ` set (p_notify sample_profile)"
    unfolding decisive_def by (auto simp: sample_profile_def sample_rule_def intro!: exI [of _ "[]"])
  from documents_decide_alerts [OF keys sample_loads sample_folds sample_orders results] obtain pending where
    p: "evaluate_bucket sample_deps sample_engine_settings ''ETCH'' 0 sample_profile [sample_rule] [''E1''] = Inr pending"
    "\<And>e pr k. (e, pr, k) \<in> incident ` set pending \<longleftrightarrow>
       (\<exists>r. decisive [sample_profile] r \<and> r_id r = k \<and> r_interval_minutes r = 5 \<and> rule_fires r (target_facts sample_results (e, pr)) \<and>
            (\<exists>p\<in>set [sample_profile]. r_notify r \<in> fst ` set (p_notify p)))"
    unfolding sample_due by blast
  have "(''E1'', ''@system'', ''disk_full'') \<in> incident ` set pending"
    unfolding p(2) by (rule exI [of _ sample_rule]) (simp add: r sample_fires(1))
  with p(1) show ?thesis by blast
qed

end
